(* ===== verification/Prelude.thy ===== *)
theory Prelude
  imports "HOL-Library.Word"
begin

text \<open>
  The vocabulary the component theories share: the machine integers and byte strings of the
  Rust source, the three ways a Rust function can end (a value, an error value, a panic),
  big-endian integers (\<open>to_be_bytes\<close> and \<open>from_be_bytes\<close>), Rust strings as
  their UTF-8 bytes, ASCII case mapping, and decimal printing and parsing (\<open>format!\<close> and
  \<open>str::parse\<close>). The lemmas here are the round trips and bounds the codecs rest on.
\<close>

unbundle bit_operations_syntax

named_theorems codec_simps \<open>unfolding the byte-level encoders and decoders\<close>
named_theorems wire_len \<open>exact lengths of encoded objects\<close>
named_theorems access \<open>the effect of an update on the accessors of the same object\<close>

section \<open>Machine integers, bytes, outcomes\<close>

type_synonym u8 = "8 word"
type_synonym u16 = "16 word"
type_synonym u32 = "32 word"
type_synonym u64 = "64 word"
type_synonym bytes = "u8 list"

text \<open>Seconds on the monotonic clock (\<open>std::time::Instant\<close>), from an arbitrary origin.\<close>

type_synonym instant = nat

text \<open>
  A call returns \<open>Ok v\<close>, returns \<open>Err e\<close> (the source's \<open>Result\<close>), or panics
  (\<open>unwrap\<close> on \<open>None\<close>, an index out of range, a capacity overflow). Arithmetic on the
  fixed-width integers wraps, as it does in the release profile the repository builds with.
\<close>

datatype ('e, 'a) outcome = Ok 'a | Err 'e | Panic

fun map_ok :: "('a \<Rightarrow> 'b) \<Rightarrow> ('e, 'a) outcome \<Rightarrow> ('e, 'b) outcome" where
  "map_ok f (Ok v) = Ok (f v)"
| "map_ok f (Err e) = Err e"
| "map_ok f Panic = Panic"

fun bind_ok :: "('e, 'a) outcome \<Rightarrow> ('a \<Rightarrow> ('e, 'b) outcome) \<Rightarrow> ('e, 'b) outcome" where
  "bind_ok (Ok v) f = f v"
| "bind_ok (Err e) f = Err e"
| "bind_ok Panic f = Panic"

lemma bind_ok_Ok [simp]: "bind_ok r f = Ok v \<longleftrightarrow> (\<exists>u. r = Ok u \<and> f u = Ok v)"
  by (cases r) auto

lemma map_ok_eq_Panic [simp]: "map_ok f r = Panic \<longleftrightarrow> r = Panic"
  by (cases r) auto

lemma map_ok_eq_Ok [simp]: "map_ok f r = Ok v \<longleftrightarrow> (\<exists>u. r = Ok u \<and> v = f u)"
  by (cases r) auto

text \<open>\<open>HashMap::retain\<close>.\<close>

definition retain :: "('k \<Rightarrow> 'v \<Rightarrow> bool) \<Rightarrow> ('k \<rightharpoonup> 'v) \<Rightarrow> ('k \<rightharpoonup> 'v)" where
  "retain keep m k = (case m k of Some v \<Rightarrow> if keep k v then Some v else None | None \<Rightarrow> None)"

section \<open>Big-endian integers\<close>

fun to_be :: "nat \<Rightarrow> 'a::len word \<Rightarrow> bytes" where
  "to_be 0 w = []"
| "to_be (Suc n) w = ucast (drop_bit (8 * n) w) # to_be n w"

definition from_be :: "bytes \<Rightarrow> 'a::len word" where
  "from_be bs = foldl (\<lambda>acc b. push_bit 8 acc OR ucast b) 0 bs"

lemma length_to_be [simp, wire_len]: "length (to_be n w) = n"
  by (induction n) auto

lemma to_be_numeral [codec_simps]:
  "to_be (numeral k) w = ucast (drop_bit (8 * pred_numeral k) w) # to_be (pred_numeral k) w"
  by (simp add: numeral_eq_Suc)

lemma to_be_step:
  "push_bit (8 * n) (push_bit 8 acc OR ucast (ucast (drop_bit (8 * n) w) :: u8)) OR take_bit (8 * n) w
   = push_bit (8 * Suc n) acc OR take_bit (8 * Suc n) (w :: 'a::len word)"
  (is "?l = ?r")
proof (rule bit_word_eqI)
  fix i assume i: "i < LENGTH('a)"
  show "bit ?l i = bit ?r i"
  proof (cases "8 * n \<le> i")
    case True
    then obtain j where j: "i = 8 * n + j" using le_Suc_ex by blast
    show ?thesis using i unfolding j by (auto simp: bit_simps)
  next
    case False
    then show ?thesis using i by (auto simp: bit_simps)
  qed
qed

lemma foldl_to_be:
  "foldl (\<lambda>acc b. push_bit 8 acc OR ucast b) acc (to_be n w)
   = push_bit (8 * n) acc OR take_bit (8 * n) (w :: 'a::len word)"
  by (induction n arbitrary: acc) (simp_all only: to_be.simps foldl.simps to_be_step, simp)

lemma from_be_to_be: "from_be (to_be n w) = take_bit (8 * n) (w :: 'a::len word)"
  by (simp add: from_be_def foldl_to_be)

lemma from_be_to_be_full [simp]:
  "LENGTH('a) \<le> 8 * n \<Longrightarrow> from_be (to_be n w) = (w :: 'a::len word)"
  by (simp add: from_be_to_be take_bit_word_eq_self)

lemma from_be_snoc: "from_be (bs @ [b]) = push_bit 8 (from_be bs) OR ucast b"
  by (simp add: from_be_def)

lemma to_be_snoc: "to_be (Suc n) w = to_be n (drop_bit 8 w) @ [ucast w]"
  by (induction n) (auto simp: drop_bit_drop_bit add.commute)

lemma bit_from_be_less: "bit (from_be bs :: 'a::len word) i \<Longrightarrow> i < 8 * length bs"
proof (induction bs arbitrary: i rule: rev_induct)
  case Nil
  then show ?case by (simp add: from_be_def)
next
  case (snoc b bs)
  from snoc.prems have "8 \<le> i \<and> bit (from_be bs :: 'a word) (i - 8) \<or> bit b i"
    by (auto simp: from_be_snoc bit_simps)
  then show ?case
    using snoc.IH [of "i - 8"] bit_imp_le_length [of b i] by auto
qed

lemma to_be_from_be [simp]:
  "length bs = n \<Longrightarrow> 8 * n \<le> LENGTH('a) \<Longrightarrow> to_be n (from_be bs :: 'a::len word) = bs"
proof (induction bs arbitrary: n rule: rev_induct)
  case Nil
  then show ?case by simp
next
  case (snoc b bs)
  let ?w = "from_be bs :: 'a word"
  have len: "8 * Suc (length bs) \<le> LENGTH('a)" using snoc.prems by simp
  have hi: "8 + i < LENGTH('a)" if "bit ?w i" for i
    using bit_from_be_less [OF that] len by simp
  have d: "drop_bit 8 (push_bit 8 ?w OR ucast b) = ?w"
    by (rule bit_word_eqI) (use hi in \<open>auto simp: bit_simps dest: bit_imp_le_length\<close>)
  have u: "(ucast (push_bit 8 ?w OR ucast b) :: u8) = b"
    by (rule bit_word_eqI) (use len in \<open>auto simp: bit_simps\<close>)
  have IH: "to_be (length bs) ?w = bs" using snoc.IH len by simp
  have n: "n = Suc (length bs)" using snoc.prems by simp
  show ?case
    by (simp only: n from_be_snoc to_be_snoc d u IH)
qed

lemma to_be_drop_high:
  "m \<le> n \<Longrightarrow> drop (n - m) (to_be n w) = to_be m w"
  by (induction n) (auto simp: Suc_diff_le drop_Suc_Cons le_Suc_eq)

lemma from_be_Cons_0 [simp]: "from_be (0 # bs) = from_be bs"
  by (simp add: from_be_def)

lemma unat_from_be_less: "unat (from_be bs :: 'a::len word) < 256 ^ length bs"
proof -
  have "take_bit (8 * length bs) (from_be bs :: 'a word) = from_be bs"
    by (rule bit_word_eqI) (auto simp: bit_simps dest: bit_from_be_less)
  then have "unat (from_be bs :: 'a word) = take_bit (8 * length bs) (unat (from_be bs :: 'a word))"
    by (metis unsigned_take_bit_eq)
  also have "\<dots> < 2 ^ (8 * length bs)" by (rule take_bit_nat_less_exp)
  finally show ?thesis by (simp add: power_mult)
qed

section \<open>Strings as UTF-8 bytes\<close>

text \<open>
  A Rust \<open>String\<close> is a sequence of bytes that is well-formed UTF-8. It is modelled by
  Isabelle's \<open>string\<close>, whose characters are bytes, so that \<open>length\<close> is
  \<open>str::len\<close>; \<open>utf8_valid\<close> is the table of well-formed byte sequences that
  \<open>String::from_utf8\<close> accepts.
\<close>

definition byte_of_char :: "char \<Rightarrow> u8" where
  "byte_of_char c = of_nat (of_char c)"

definition char_of_byte :: "u8 \<Rightarrow> char" where
  "char_of_byte b = char_of (unat b)"

definition as_bytes :: "string \<Rightarrow> bytes" where
  "as_bytes s = map byte_of_char s"

definition of_bytes :: "bytes \<Rightarrow> string" where
  "of_bytes bs = map char_of_byte bs"

lemma unat_byte_of_char [simp]: "unat (byte_of_char c) = of_char c"
  by (simp add: byte_of_char_def unat_of_nat)

lemma char_of_byte_inverse [simp]: "char_of_byte (byte_of_char c) = c"
  by (simp add: char_of_byte_def)

lemma byte_of_char_inverse [simp]: "byte_of_char (char_of_byte b) = b"
proof -
  have "unat b < 256" using unsigned_less [of b, where ?'a = nat] by simp
  then show ?thesis
    by (intro word_unat_eq_iff [THEN iffD2]) (simp add: char_of_byte_def)
qed

lemma of_bytes_as_bytes [simp]: "of_bytes (as_bytes s) = s"
  by (simp add: of_bytes_def as_bytes_def comp_def)

lemma as_bytes_of_bytes [simp]: "as_bytes (of_bytes bs) = bs"
  by (simp add: of_bytes_def as_bytes_def comp_def)

lemma length_as_bytes [simp]: "length (as_bytes s) = length s"
  by (simp add: as_bytes_def)

lemma as_bytes_inject [simp]: "as_bytes s = as_bytes t \<longleftrightarrow> s = t"
  by (metis of_bytes_as_bytes)

abbreviation utf8_cont :: "u8 \<Rightarrow> bool" where
  "utf8_cont b \<equiv> 0x80 \<le> b \<and> b \<le> 0xBF"

fun utf8_valid :: "bytes \<Rightarrow> bool" where
  "utf8_valid [] = True"
| "utf8_valid (b0 # r0) =
     (if b0 \<le> 0x7F then utf8_valid r0
      else if 0xC2 \<le> b0 \<and> b0 \<le> 0xDF then
        (case r0 of b1 # r1 \<Rightarrow> utf8_cont b1 \<and> utf8_valid r1 | _ \<Rightarrow> False)
      else if 0xE0 \<le> b0 \<and> b0 \<le> 0xEF then
        (case r0 of
           b1 # b2 # r2 \<Rightarrow>
             utf8_cont b1 \<and> (b0 = 0xE0 \<longrightarrow> 0xA0 \<le> b1) \<and> (b0 = 0xED \<longrightarrow> b1 \<le> 0x9F)
             \<and> utf8_cont b2 \<and> utf8_valid r2
         | _ \<Rightarrow> False)
      else if 0xF0 \<le> b0 \<and> b0 \<le> 0xF4 then
        (case r0 of
           b1 # b2 # b3 # r3 \<Rightarrow>
             utf8_cont b1 \<and> (b0 = 0xF0 \<longrightarrow> 0x90 \<le> b1) \<and> (b0 = 0xF4 \<longrightarrow> b1 \<le> 0x8F)
             \<and> utf8_cont b2 \<and> utf8_cont b3 \<and> utf8_valid r3
         | _ \<Rightarrow> False)
      else False)"

definition from_utf8 :: "bytes \<Rightarrow> string option" where
  "from_utf8 bs = (if utf8_valid bs then Some (of_bytes bs) else None)"

text \<open>The invariant of the Rust type: every \<open>String\<close> the program holds satisfies it.\<close>

definition rust_string :: "string \<Rightarrow> bool" where
  "rust_string s = utf8_valid (as_bytes s)"

definition ascii :: "string \<Rightarrow> bool" where
  "ascii s = list_all (\<lambda>c. byte_of_char c \<le> 0x7F) s"

lemma from_utf8_as_bytes [simp]: "rust_string s \<Longrightarrow> from_utf8 (as_bytes s) = Some s"
  by (simp add: from_utf8_def rust_string_def)

lemma from_utf8_Some: "from_utf8 bs = Some s \<longleftrightarrow> utf8_valid bs \<and> as_bytes s = bs"
  by (auto simp: from_utf8_def)

lemma ascii_rust_string: "ascii s \<Longrightarrow> rust_string s"
  by (induction s) (auto simp: ascii_def rust_string_def as_bytes_def)

section \<open>ASCII case mapping\<close>

text \<open>
  \<open>str::to_lowercase\<close> and \<open>str::to_uppercase\<close> on ASCII letters. Bytes above 0x7F
  are kept: the Unicode case tables are not modelled, and the identifiers, command names and
  route expressions these functions are applied to are ASCII.
\<close>

definition lower_char :: "char \<Rightarrow> char" where
  "lower_char c = (let n = (of_char c :: nat) in if 65 \<le> n \<and> n \<le> 90 then char_of (n + 32) else c)"

definition upper_char :: "char \<Rightarrow> char" where
  "upper_char c = (let n = (of_char c :: nat) in if 97 \<le> n \<and> n \<le> 122 then char_of (n - 32) else c)"

definition to_lowercase :: "string \<Rightarrow> string" where
  "to_lowercase s = map lower_char s"

definition to_uppercase :: "string \<Rightarrow> string" where
  "to_uppercase s = map upper_char s"

lemma lower_char_idem [simp]: "lower_char (lower_char c) = lower_char c"
  by (auto simp: lower_char_def Let_def)

lemma to_lowercase_idem [simp]: "to_lowercase (to_lowercase s) = to_lowercase s"
  by (simp add: to_lowercase_def comp_def)

lemma length_to_lowercase [simp]: "length (to_lowercase s) = length s"
  by (simp add: to_lowercase_def)

section \<open>Decimal printing and parsing\<close>

text \<open>
  \<open>format!("{}", n)\<close> of an unsigned integer, and \<open>str::parse\<close> to one: an
  optional \<open>+\<close>, at least one digit, nothing else, and a value below the bound of the type.
\<close>

definition digit_char :: "nat \<Rightarrow> char" where
  "digit_char d = char_of (48 + d)"

definition char_digit :: "char \<Rightarrow> nat option" where
  "char_digit c = (let n = (of_char c :: nat) in if 48 \<le> n \<and> n \<le> 57 then Some (n - 48) else None)"

fun show_nat :: "nat \<Rightarrow> string" where
  "show_nat n = (if n < 10 then [digit_char n] else show_nat (n div 10) @ [digit_char (n mod 10)])"

declare show_nat.simps [simp del]

fun parse_digits :: "nat \<Rightarrow> string \<Rightarrow> nat option" where
  "parse_digits acc [] = Some acc"
| "parse_digits acc (c # cs) =
     (case char_digit c of None \<Rightarrow> None | Some d \<Rightarrow> parse_digits (10 * acc + d) cs)"

definition parse_uint :: "nat \<Rightarrow> string \<Rightarrow> nat option" where
  "parse_uint bound s =
     (let ds = (case s of c # cs \<Rightarrow> if c = CHR ''+'' then cs else s | [] \<Rightarrow> []) in
      if ds = [] then None
      else case parse_digits 0 ds of
             None \<Rightarrow> None
           | Some n \<Rightarrow> if n < bound then Some n else None)"

definition parse_u32 :: "string \<Rightarrow> u32 option" where
  "parse_u32 s = map_option of_nat (parse_uint (2 ^ 32) s)"

definition parse_u16 :: "string \<Rightarrow> u16 option" where
  "parse_u16 s = map_option of_nat (parse_uint (2 ^ 16) s)"

definition show_u32 :: "u32 \<Rightarrow> string" where
  "show_u32 w = show_nat (unat w)"

lemma char_digit_digit_char [simp]: "d < 10 \<Longrightarrow> char_digit (digit_char d) = Some d"
  by (simp add: char_digit_def digit_char_def Let_def)

lemma parse_digits_append:
  "parse_digits acc (xs @ ys) = Option.bind (parse_digits acc xs) (\<lambda>a. parse_digits a ys)"
  by (induction xs arbitrary: acc) (auto split: option.splits)

lemma parse_digits_show_nat [simp]: "parse_digits 0 (show_nat n) = Some n"
proof (induction n rule: show_nat.induct)
  case (1 n)
  then show ?case
    by (subst show_nat.simps) (auto simp: parse_digits_append)
qed

lemma show_nat_not_Nil [simp]: "show_nat n \<noteq> []"
  by (subst show_nat.simps) simp

lemma hd_show_nat: "\<exists>d. d < 10 \<and> hd (show_nat n) = digit_char d"
proof (induction n rule: show_nat.induct)
  case (1 n)
  then show ?case
    by (subst show_nat.simps) (auto simp: hd_append)
qed

lemma digit_char_not_plus: "d < 10 \<Longrightarrow> digit_char d \<noteq> CHR ''+''"
  using char_digit_digit_char [of d] by (auto simp: char_digit_def)

lemma parse_uint_show_nat [simp]: "n < bound \<Longrightarrow> parse_uint bound (show_nat n) = Some n"
proof -
  assume n: "n < bound"
  obtain c cs where s: "show_nat n = c # cs" by (cases "show_nat n") auto
  then have "c \<noteq> CHR ''+''" using hd_show_nat [of n] digit_char_not_plus by auto
  then show ?thesis
    using n s parse_digits_show_nat [of n] by (auto simp: parse_uint_def)
qed

lemma parse_u32_show_u32 [simp]: "parse_u32 (show_u32 w) = Some w"
  using unsigned_less [of w, where ?'a = nat] by (simp add: parse_u32_def show_u32_def)

section \<open>Splitting and slices\<close>

text \<open>\<open>str::split\<close> at one character, and the sub-slice \<open>&bs[i..j]\<close>.\<close>

fun split_on :: "char \<Rightarrow> string \<Rightarrow> string list" where
  "split_on c [] = [[]]"
| "split_on c (x # xs) =
     (if x = c then [] # split_on c xs
      else case split_on c xs of y # ys \<Rightarrow> (x # y) # ys | [] \<Rightarrow> [[x]])"

definition slice :: "'a list \<Rightarrow> nat \<Rightarrow> nat \<Rightarrow> 'a list" where
  "slice xs i j = take (j - i) (drop i xs)"

lemma split_on_no_sep: "c \<notin> set s \<Longrightarrow> split_on c s = [s]"
  by (induction s) auto

lemma split_on_append: "c \<notin> set s \<Longrightarrow> split_on c (s @ c # t) = s # split_on c t"
  by (induction s) auto

lemma split_on_not_Nil [simp]: "split_on c s \<noteq> []"
  by (induction s) (auto split: list.splits)

lemma length_slice [simp]: "i \<le> j \<Longrightarrow> j \<le> length xs \<Longrightarrow> length (slice xs i j) = j - i"
  by (simp add: slice_def)

lemma slice_append_right [simp]:
  "length xs \<le> i \<Longrightarrow> slice (xs @ ys) i j = slice ys (i - length xs) (j - length xs)"
  by (simp add: slice_def)

lemma slice_0: "slice xs 0 n = take n xs"
  by (simp add: slice_def)

lemma slice_single: "i < length xs \<Longrightarrow> slice xs i (Suc i) = [xs ! i]"
  by (simp add: slice_def take_Suc_conv_app_nth hd_drop_conv_nth take_Suc)

lemma slice_join: "i \<le> j \<Longrightarrow> j \<le> k \<Longrightarrow> slice xs i j @ slice xs j k = slice xs i k"
  using take_add [of "j - i" "k - j" "drop i xs"] by (simp add: slice_def)

lemma slice_prefix: "length xs = n \<Longrightarrow> slice (xs @ ys) 0 n = xs"
  by (simp add: slice_def)

lemma set_show_nat: "c \<in> set (show_nat n) \<Longrightarrow> \<exists>d<10. c = digit_char d"
proof (induction n rule: show_nat.induct)
  case (1 n)
  show ?case
  proof (cases "n < 10")
    case True
    with "1.prems" show ?thesis by (subst (asm) show_nat.simps) auto
  next
    case False
    with "1.prems" have "c \<in> set (show_nat (n div 10)) \<or> c = digit_char (n mod 10)"
      by (subst (asm) show_nat.simps) auto
    with "1.IH" False show ?thesis by (metis mod_less_divisor zero_less_numeral)
  qed
qed

lemma not_digit_show_nat: "char_digit c = None \<Longrightarrow> c \<notin> set (show_nat n)"
  using set_show_nat by fastforce

lemma length_show_nat_less: "n < 10 ^ Suc k \<Longrightarrow> length (show_nat n) \<le> Suc k"
proof (induction k arbitrary: n)
  case 0
  then show ?case by (subst show_nat.simps) simp
next
  case (Suc k)
  then have "length (show_nat (n div 10)) \<le> Suc k" by (intro Suc.IH) simp
  then show ?case by (subst show_nat.simps) simp
qed

lemma show_nat_no_leading_zero: "0 < n \<Longrightarrow> hd (show_nat n) \<noteq> CHR ''0''"
proof (induction n rule: show_nat.induct)
  case (1 n)
  show ?case
  proof (cases "n < 10")
    case True
    then have "char_digit (hd (show_nat n)) = Some n" by (subst show_nat.simps) simp
    then show ?thesis using "1.prems" by (auto simp: char_digit_def)
  next
    case False
    then have "hd (show_nat n) = hd (show_nat (n div 10))"
      by (subst show_nat.simps) (simp add: hd_append)
    then show ?thesis using "1.IH" False by (simp add: div_greater_zero_iff)
  qed
qed

lemma show_nat_0 [simp]: "show_nat 0 = ''0''"
  by (subst show_nat.simps) (simp add: digit_char_def char_of_def bit_0)

end
