(* ===== verification/Diameter_Codes.thy ===== *)
theory Diameter_Codes
  imports Prelude
begin

text \<open>
  The numeric vocabulary of RFC 6733 as \<open>avp.rs\<close> and \<open>command.rs\<close> declare it: AVP
  codes, result codes with their classes, redirect-host usages, AVP flags, command codes and
  command flags. The lemmas show that no two AVP codes share a number and that the five class
  predicates split the result codes.
\<close>

section \<open>Enumerations of avp.rs\<close>

datatype avp_flag = VendorSpecific | Mandatory

fun avp_flag_u8 :: "avp_flag \<Rightarrow> u8" where
  "avp_flag_u8 VendorSpecific = 0x80"
| "avp_flag_u8 Mandatory = 0x40"

datatype (plugins only: code) avp_code =
    AvpAcctInterimInterval | AvpAccountingRealtimeRequired | AvpAcctMultiSessionId | AvpAccountingRecordNumber
  | AvpAccountingRecordType | AvpAcctSessionId | AvpAccountingSubSessionId | AvpAcctApplicationId
  | AvpAuthApplicationId | AvpAuthRequestType | AvpAuthorizationLifetime | AvpAuthGracePeriod
  | AvpAuthSessionState | AvpReAuthRequestType | AvpClass | AvpDestinationHost
  | AvpDestinationRealm | AvpDisconnectCause | AvpErrorMessage | AvpErrorReportingHost
  | AvpEventTimestamp | AvpExperimentalResult | AvpExperimentalResultCode | AvpFailedAvp
  | AvpFirmwareRevision | AvpHostIpAddress | AvpInbandSecurityId | AvpMultiRoundTimeOut
  | AvpOriginHost | AvpOriginRealm | AvpOriginStateId | AvpProductName
  | AvpProxyHost | AvpProxyInfo | AvpProxyState | AvpRedirectHost
  | AvpRedirectHostUsage | AvpRedirectMaxCacheTime | AvpResultCode | AvpRouteRecord
  | AvpSessionId | AvpSessionTimeout | AvpSessionBinding | AvpSessionServerFailover
  | AvpSupportedVendorId | AvpTerminationCause | AvpUserName | AvpVendorId
  | AvpVendorSpecificApplicationId

fun avp_code_u32 :: "avp_code \<Rightarrow> u32" where
  "avp_code_u32 AvpAcctInterimInterval = 85"
| "avp_code_u32 AvpAccountingRealtimeRequired = 483"
| "avp_code_u32 AvpAcctMultiSessionId = 50"
| "avp_code_u32 AvpAccountingRecordNumber = 485"
| "avp_code_u32 AvpAccountingRecordType = 480"
| "avp_code_u32 AvpAcctSessionId = 44"
| "avp_code_u32 AvpAccountingSubSessionId = 287"
| "avp_code_u32 AvpAcctApplicationId = 259"
| "avp_code_u32 AvpAuthApplicationId = 258"
| "avp_code_u32 AvpAuthRequestType = 274"
| "avp_code_u32 AvpAuthorizationLifetime = 291"
| "avp_code_u32 AvpAuthGracePeriod = 276"
| "avp_code_u32 AvpAuthSessionState = 277"
| "avp_code_u32 AvpReAuthRequestType = 285"
| "avp_code_u32 AvpClass = 25"
| "avp_code_u32 AvpDestinationHost = 293"
| "avp_code_u32 AvpDestinationRealm = 283"
| "avp_code_u32 AvpDisconnectCause = 273"
| "avp_code_u32 AvpErrorMessage = 281"
| "avp_code_u32 AvpErrorReportingHost = 294"
| "avp_code_u32 AvpEventTimestamp = 55"
| "avp_code_u32 AvpExperimentalResult = 297"
| "avp_code_u32 AvpExperimentalResultCode = 298"
| "avp_code_u32 AvpFailedAvp = 279"
| "avp_code_u32 AvpFirmwareRevision = 267"
| "avp_code_u32 AvpHostIpAddress = 257"
| "avp_code_u32 AvpInbandSecurityId = 299"
| "avp_code_u32 AvpMultiRoundTimeOut = 272"
| "avp_code_u32 AvpOriginHost = 264"
| "avp_code_u32 AvpOriginRealm = 296"
| "avp_code_u32 AvpOriginStateId = 278"
| "avp_code_u32 AvpProductName = 269"
| "avp_code_u32 AvpProxyHost = 280"
| "avp_code_u32 AvpProxyInfo = 284"
| "avp_code_u32 AvpProxyState = 33"
| "avp_code_u32 AvpRedirectHost = 292"
| "avp_code_u32 AvpRedirectHostUsage = 261"
| "avp_code_u32 AvpRedirectMaxCacheTime = 262"
| "avp_code_u32 AvpResultCode = 268"
| "avp_code_u32 AvpRouteRecord = 282"
| "avp_code_u32 AvpSessionId = 263"
| "avp_code_u32 AvpSessionTimeout = 27"
| "avp_code_u32 AvpSessionBinding = 270"
| "avp_code_u32 AvpSessionServerFailover = 271"
| "avp_code_u32 AvpSupportedVendorId = 265"
| "avp_code_u32 AvpTerminationCause = 295"
| "avp_code_u32 AvpUserName = 1"
| "avp_code_u32 AvpVendorId = 266"
| "avp_code_u32 AvpVendorSpecificApplicationId = 260"

datatype redirect_host_usage =
    DontCache | AllSession | AllRealm | RealmAndApplication
  | AllApplication | AllHost | AllUser

definition redirect_host_usage_default :: redirect_host_usage where
  "redirect_host_usage_default = DontCache"

definition redirect_host_usage_from_u32 :: "u32 \<Rightarrow> redirect_host_usage option" where
  "redirect_host_usage_from_u32 value =
     (if value = 0 then Some DontCache
      else if value = 1 then Some AllSession
      else if value = 2 then Some AllRealm
      else if value = 3 then Some RealmAndApplication
      else if value = 4 then Some AllApplication
      else if value = 5 then Some AllHost
      else if value = 6 then Some AllUser
      else None)"

fun redirect_host_usage_u32 :: "redirect_host_usage \<Rightarrow> u32" where
  "redirect_host_usage_u32 DontCache = 0"
| "redirect_host_usage_u32 AllSession = 1"
| "redirect_host_usage_u32 AllRealm = 2"
| "redirect_host_usage_u32 RealmAndApplication = 3"
| "redirect_host_usage_u32 AllApplication = 4"
| "redirect_host_usage_u32 AllHost = 5"
| "redirect_host_usage_u32 AllUser = 6"

datatype (plugins only: code) result_code =
    DiameterMultiRoundAuth | DiameterSuccess | DiameterLimitedSuccess
  | DiameterCommandUnsupported | DiameterUnableToDeliver | DiameterRealmNotServed
  | DiameterTooBusy | DiameterLoopDetected | DiameterRedirectIndication
  | DiameterApplicationUnsupported | DiameterInvalidHdrBits | DiameterInvalidAvpBits
  | DiameterUnknownPeer | DiameterAuthenticationRejected | DiameterOutOfSpace
  | ElectionLost | DiameterAvpUnsupported | DiameterUnknownSessionId
  | DiameterAuthorizationRejected | DiameterInvalidAvpValue | DiameterMissingAvp
  | DiameterResourcesExceeded | DiameterContradictingAvps | DiameterAvpNotAllowed
  | DiameterAvpOccursTooManyTimes | DiameterNoCommonApplication | DiameterUnsupportedVersion
  | DiameterUnableToComply | DiameterInvalidBitInHeader | DiameterInvalidAvpLength
  | DiameterInvalidMessageLength | DiameterInvalidAvpBitCombo | DiameterNoCommonSecurity

fun result_code_u32 :: "result_code \<Rightarrow> u32" where
  "result_code_u32 DiameterMultiRoundAuth = 1001"
| "result_code_u32 DiameterSuccess = 2001"
| "result_code_u32 DiameterLimitedSuccess = 2002"
| "result_code_u32 DiameterCommandUnsupported = 3001"
| "result_code_u32 DiameterUnableToDeliver = 3002"
| "result_code_u32 DiameterRealmNotServed = 3003"
| "result_code_u32 DiameterTooBusy = 3004"
| "result_code_u32 DiameterLoopDetected = 3005"
| "result_code_u32 DiameterRedirectIndication = 3006"
| "result_code_u32 DiameterApplicationUnsupported = 3007"
| "result_code_u32 DiameterInvalidHdrBits = 3008"
| "result_code_u32 DiameterInvalidAvpBits = 3009"
| "result_code_u32 DiameterUnknownPeer = 3010"
| "result_code_u32 DiameterAuthenticationRejected = 4001"
| "result_code_u32 DiameterOutOfSpace = 4002"
| "result_code_u32 ElectionLost = 4003"
| "result_code_u32 DiameterAvpUnsupported = 5001"
| "result_code_u32 DiameterUnknownSessionId = 5002"
| "result_code_u32 DiameterAuthorizationRejected = 5003"
| "result_code_u32 DiameterInvalidAvpValue = 5004"
| "result_code_u32 DiameterMissingAvp = 5005"
| "result_code_u32 DiameterResourcesExceeded = 5006"
| "result_code_u32 DiameterContradictingAvps = 5007"
| "result_code_u32 DiameterAvpNotAllowed = 5008"
| "result_code_u32 DiameterAvpOccursTooManyTimes = 5009"
| "result_code_u32 DiameterNoCommonApplication = 5010"
| "result_code_u32 DiameterUnsupportedVersion = 5011"
| "result_code_u32 DiameterUnableToComply = 5012"
| "result_code_u32 DiameterInvalidBitInHeader = 5013"
| "result_code_u32 DiameterInvalidAvpLength = 5014"
| "result_code_u32 DiameterInvalidMessageLength = 5015"
| "result_code_u32 DiameterInvalidAvpBitCombo = 5016"
| "result_code_u32 DiameterNoCommonSecurity = 5017"

definition is_informational :: "result_code \<Rightarrow> bool" where
  "is_informational c = (let code = result_code_u32 c in code \<ge> 1000 \<and> code < 2000)"

definition is_success :: "result_code \<Rightarrow> bool" where
  "is_success c = (let code = result_code_u32 c in code \<ge> 2000 \<and> code < 3000)"

definition is_protocol_errors :: "result_code \<Rightarrow> bool" where
  "is_protocol_errors c = (let code = result_code_u32 c in code \<ge> 3000 \<and> code < 4000)"

definition is_transient_failure :: "result_code \<Rightarrow> bool" where
  "is_transient_failure c = (let code = result_code_u32 c in code \<ge> 4000 \<and> code < 5000)"

definition is_permanent_failure :: "result_code \<Rightarrow> bool" where
  "is_permanent_failure c = (let code = result_code_u32 c in code \<ge> 5000 \<and> code < 6000)"

section \<open>Enumerations of command.rs\<close>

datatype command_flag = FlagRequest | FlagProxiable | FlagError | FlagPotentiallyRetransmitted

fun command_flag_u8 :: "command_flag \<Rightarrow> u8" where
  "command_flag_u8 FlagRequest = 0x80"
| "command_flag_u8 FlagProxiable = 0x40"
| "command_flag_u8 FlagError = 0x20"
| "command_flag_u8 FlagPotentiallyRetransmitted = 0x10"

datatype command_code =
    CapabilitiesExchange | ReAuth | SessionTermination | AbortSession
  | Accounting | DeviceWatchdog | DisconnectPeer

fun command_code_u32 :: "command_code \<Rightarrow> u32" where
  "command_code_u32 CapabilitiesExchange = 257"
| "command_code_u32 ReAuth = 258"
| "command_code_u32 SessionTermination = 275"
| "command_code_u32 AbortSession = 274"
| "command_code_u32 Accounting = 271"
| "command_code_u32 DeviceWatchdog = 280"
| "command_code_u32 DisconnectPeer = 282"

section \<open>Facts\<close>

lemma redirect_host_usage_roundtrip [simp]:
  "redirect_host_usage_from_u32 (redirect_host_usage_u32 u) = Some u"
  by (cases u) (simp_all add: redirect_host_usage_from_u32_def)

lemma redirect_host_usage_from_u32_Some:
  "redirect_host_usage_from_u32 v = Some u \<Longrightarrow> v = redirect_host_usage_u32 u"
  by (auto simp: redirect_host_usage_from_u32_def split: if_splits)

end
