(* ===== verification/Avp_Codec.thy ===== *)
theory Avp_Codec
  imports Diameter_Codes
begin

text \<open>
  The AVP codec of \<open>avp.rs\<close>: the \<open>Avp\<close> struct, its constructors and typed
  accessors, its length functions, \<open>encode\<close>, \<open>decode_header\<close>, \<open>decode\<close> and
  \<open>as_grouped\<close>. The lemmas give the wire format: lengths, alignment, the round trip of
  scalar and grouped AVPs, and the bounds within which \<open>decode\<close> reads.
\<close>

section \<open>Code outside the repository\<close>

text \<open>
  Functions the source calls and the repository does not contain: the \<open>base64\<close> crate, the
  text form of IPv6 addresses and the hardware conversions between floating-point formats
  (values are their IEEE bit patterns). Each is a parameter of the definitions that use it.
  \<open>log_info\<close> says whether the logger takes messages of level info, the default; only then their
  arguments are evaluated.
\<close>

record platform =
  log_info :: bool
  b64_encode :: "bytes \<Rightarrow> string"
  b64_decode :: "string \<Rightarrow> bytes option"
  v6_parse :: "string \<Rightarrow> bytes option"
  v6_show :: "bytes \<Rightarrow> string"
  f32_of_f64 :: "u64 \<Rightarrow> u32"
  f64_of_f32 :: "u32 \<Rightarrow> u64"
  f64_of_u64 :: "u64 \<Rightarrow> u64"
  f64_of_i64 :: "u64 \<Rightarrow> u64"

section \<open>IPv4 text form\<close>

text \<open>
  \<open>Ipv4Addr::from_str\<close> and \<open>Display\<close>: four decimal octets of at most three digits,
  without a leading zero.
\<close>

definition parse_octet :: "string \<Rightarrow> u8 option" where
  "parse_octet s =
     (if s = [] \<or> 3 < length s \<or> (hd s = CHR ''0'' \<and> 1 < length s) then None
      else case parse_digits 0 s of
             None \<Rightarrow> None
           | Some n \<Rightarrow> if n < 256 then Some (of_nat n) else None)"

definition v4_parse :: "string \<Rightarrow> bytes option" where
  "v4_parse s =
     (case map parse_octet (split_on (CHR ''.'') s) of
        [Some a, Some b, Some c, Some d] \<Rightarrow> Some [a, b, c, d]
      | _ \<Rightarrow> None)"

definition v4_show :: "u8 \<Rightarrow> u8 \<Rightarrow> u8 \<Rightarrow> u8 \<Rightarrow> string" where
  "v4_show a b c d =
     show_nat (unat a) @ CHR ''.'' # show_nat (unat b) @ CHR ''.'' #
     show_nat (unat c) @ CHR ''.'' # show_nat (unat d)"

section \<open>The Avp struct\<close>

datatype avp =
  Avp (a_code: u32) (a_flags: u8) (a_vendor_id: "u32 option")
      (a_data: "bytes option") (a_sub_avps: "avp list")

definition avp_new :: "u32 \<Rightarrow> u8 \<Rightarrow> u32 option \<Rightarrow> bytes \<Rightarrow> avp" where
  "avp_new c f v d = Avp c (if v \<noteq> None then f OR 0x80 else f AND 0x7F) v (Some d) []"

definition from_octet_string :: "u32 \<Rightarrow> u8 \<Rightarrow> u32 option \<Rightarrow> string \<Rightarrow> avp" where
  "from_octet_string c f v s = avp_new c f v (as_bytes s)"

definition from_utf8_string :: "u32 \<Rightarrow> u8 \<Rightarrow> u32 option \<Rightarrow> string \<Rightarrow> avp" where
  "from_utf8_string c f v s = avp_new c f v (as_bytes s)"

definition from_integer32 :: "u32 \<Rightarrow> u8 \<Rightarrow> u32 option \<Rightarrow> u32 \<Rightarrow> avp" where
  "from_integer32 c f v i = avp_new c f v (to_be 4 i)"

definition from_unsigned32 :: "u32 \<Rightarrow> u8 \<Rightarrow> u32 option \<Rightarrow> u32 \<Rightarrow> avp" where
  "from_unsigned32 c f v u = avp_new c f v (to_be 4 u)"

definition from_float32 :: "u32 \<Rightarrow> u8 \<Rightarrow> u32 option \<Rightarrow> u32 \<Rightarrow> avp" where
  "from_float32 c f v x = avp_new c f v (to_be 4 x)"

definition from_float64 :: "u32 \<Rightarrow> u8 \<Rightarrow> u32 option \<Rightarrow> u64 \<Rightarrow> avp" where
  "from_float64 c f v x = avp_new c f v (to_be 8 x)"

definition from_address :: "platform \<Rightarrow> u32 \<Rightarrow> u8 \<Rightarrow> u32 option \<Rightarrow> string \<Rightarrow> avp" where
  "from_address p c f v address =
     avp_new c f v
       (case v4_parse address of
          Some ip \<Rightarrow> to_be 2 (1 :: u16) @ ip
        | None \<Rightarrow>
           (case v6_parse p address of
              Some ip \<Rightarrow> to_be 2 (2 :: u16) @ ip
            | None \<Rightarrow> []))"

definition from_time :: "u32 \<Rightarrow> u8 \<Rightarrow> u32 option \<Rightarrow> u32 \<Rightarrow> avp" where
  "from_time c f v time = from_unsigned32 c f v (2208988800 + time)"

definition from_grouped :: "u32 \<Rightarrow> u8 \<Rightarrow> u32 option \<Rightarrow> avp list \<Rightarrow> avp" where
  "from_grouped c f v subs = Avp c (f OR 0x40) v None subs"

definition is_vendor_specific :: "avp \<Rightarrow> bool" where
  "is_vendor_specific a = (a_flags a AND 0x80 \<noteq> 0)"

definition is_grouped :: "avp \<Rightarrow> bool" where
  "is_grouped a = (a_data a = None \<and> a_sub_avps a \<noteq> [])"

section \<open>Typed accessors\<close>

definition as_word32 :: "avp \<Rightarrow> u32 option" where
  "as_word32 a = (case a_data a of
      Some d \<Rightarrow> if length d = 4 then Some (from_be d) else None
    | None \<Rightarrow> None)"

definition as_word64 :: "avp \<Rightarrow> u64 option" where
  "as_word64 a = (case a_data a of
      Some d \<Rightarrow> if length d = 8 then Some (from_be d) else None
    | None \<Rightarrow> None)"

text \<open>
  The signed, unsigned and floating-point accessors read the same bytes; the value is the bit
  pattern, which \<open>sint\<close>, \<open>unat\<close> or an IEEE reading interprets.
\<close>

definition as_integer32 :: "avp \<Rightarrow> u32 option" where "as_integer32 = as_word32"
definition as_unsigned32 :: "avp \<Rightarrow> u32 option" where "as_unsigned32 = as_word32"
definition as_float32 :: "avp \<Rightarrow> u32 option" where "as_float32 = as_word32"
definition as_integer64 :: "avp \<Rightarrow> u64 option" where "as_integer64 = as_word64"
definition as_unsigned64 :: "avp \<Rightarrow> u64 option" where "as_unsigned64 = as_word64"
definition as_float64 :: "avp \<Rightarrow> u64 option" where "as_float64 = as_word64"

fun set_data :: "avp \<Rightarrow> bytes \<Rightarrow> avp" where
  "set_data (Avp c f v d subs) bs = Avp c f v (Some bs) subs"

definition set_integer32 :: "avp \<Rightarrow> u32 \<Rightarrow> avp" where "set_integer32 a i = set_data a (to_be 4 i)"
definition set_unsigned32 :: "avp \<Rightarrow> u32 \<Rightarrow> avp" where "set_unsigned32 a u = set_data a (to_be 4 u)"
definition set_float32 :: "avp \<Rightarrow> u32 \<Rightarrow> avp" where "set_float32 a x = set_data a (to_be 4 x)"
definition set_integer64 :: "avp \<Rightarrow> u64 \<Rightarrow> avp" where "set_integer64 a i = set_data a (to_be 8 i)"
definition set_unsigned64 :: "avp \<Rightarrow> u64 \<Rightarrow> avp" where "set_unsigned64 a u = set_data a (to_be 8 u)"
definition set_float64 :: "avp \<Rightarrow> u64 \<Rightarrow> avp" where "set_float64 a x = set_data a (to_be 8 x)"
definition set_octet_string :: "avp \<Rightarrow> bytes \<Rightarrow> avp" where "set_octet_string a bs = set_data a bs"
definition set_utf8_string :: "avp \<Rightarrow> string \<Rightarrow> avp" where "set_utf8_string a s = set_data a (as_bytes s)"

definition as_octet_string :: "avp \<Rightarrow> bytes" where
  "as_octet_string a = (case a_data a of Some d \<Rightarrow> d | None \<Rightarrow> [])"

definition as_utf8_string :: "avp \<Rightarrow> string option" where
  "as_utf8_string a = (case a_data a of Some d \<Rightarrow> from_utf8 d | None \<Rightarrow> None)"

definition as_address :: "platform \<Rightarrow> avp \<Rightarrow> string option" where
  "as_address p a = (case a_data a of
      None \<Rightarrow> None
    | Some d \<Rightarrow>
        (let n = length d in
         if n < 2 then None
         else let address_type = (from_be (slice d 0 2) :: u16) in
           if address_type = 1 \<and> n = 6 then Some (v4_show (d ! 2) (d ! 3) (d ! 4) (d ! 5))
           else if address_type = 2 \<and> n = 18 then Some (v6_show p (slice d 2 18))
           else None))"

definition as_time :: "avp \<Rightarrow> u32 option" where
  "as_time a = (case a_data a of
      Some d \<Rightarrow> if length d = 4 then Some (from_be d - 2208988800) else None
    | None \<Rightarrow> None)"

fun set_grouped :: "avp \<Rightarrow> avp list \<Rightarrow> avp" where
  "set_grouped (Avp c f v d subs) new = Avp c (f OR 0x40) v None new"

section \<open>Lengths and the wire format\<close>

definition pad4 :: "u32 \<Rightarrow> u32" where
  "pad4 n = (let remain = n mod 4 in if remain = 0 then n else n + (4 - remain))"

fun total_length :: "avp \<Rightarrow> u32" where
  "total_length (Avp c f v d subs) =
     (case d of
        Some bs \<Rightarrow> of_nat (length bs) + 8 + (if f AND 0x80 \<noteq> 0 then 4 else 0)
      | None \<Rightarrow> sum_list (map (\<lambda>s. pad4 (total_length s)) subs) + 8
                + (if f AND 0x80 \<noteq> 0 then 4 else 0))"

definition total_length_including_padding :: "avp \<Rightarrow> u32" where
  "total_length_including_padding a = pad4 (total_length a)"

definition padding :: "nat \<Rightarrow> bytes" where
  "padding n = (if n mod 4 \<noteq> 0 then replicate (4 - n mod 4) 0 else [])"

fun avp_encode :: "avp \<Rightarrow> bytes" where
  "avp_encode (Avp c f v d subs) =
     to_be 4 c @ [f] @ drop 1 (to_be 4 (total_length (Avp c f v d subs)))
     @ (if f AND 0x80 \<noteq> 0 then (case v of Some vid \<Rightarrow> to_be 4 vid | None \<Rightarrow> []) else [])
     @ (case d of
          Some bs \<Rightarrow> bs @ padding (length bs)
        | None \<Rightarrow> concat (map (\<lambda>s. let e = avp_encode s in e @ padding (length e)) subs))"

definition decode_header :: "bytes \<Rightarrow> (u32 \<times> u8 \<times> u32 \<times> u32 option) option" where
  "decode_header buffer =
     (if length buffer < 8 then None
      else let c = from_be (slice buffer 0 4); f = buffer ! 4;
               len = from_be (0 # slice buffer 5 8) in
        if f AND 0x80 \<noteq> 0 \<and> length buffer < 12 then None
        else let v = (if f AND 0x80 \<noteq> 0 then Some (from_be (slice buffer 8 12)) else None);
                 header_length = 8 + (if f AND 0x80 \<noteq> 0 then 4 else 0) in
          if len < header_length then None else Some (c, f, len, v))"

definition avp_decode :: "bytes \<Rightarrow> (string, avp) outcome" where
  "avp_decode bs =
     (case decode_header bs of
        Some (c, f, len, v) \<Rightarrow>
          if length bs < unat len then Err ''Data length mismatch''
          else let header_length = 8 + (if f AND 0x80 \<noteq> 0 then 4 else 0 :: nat) in
            Ok (avp_new c f v (slice bs header_length (unat len)))
      | None \<Rightarrow> Err ''Failed to decode AVP header'')"

section \<open>The wire format as a specification\<close>

text \<open>
  What an AVP carries: its header size, and the bytes between header and padding. A grouped
  AVP carries the concatenation of its encoded members.
\<close>

definition hdr_len :: "avp \<Rightarrow> nat" where
  "hdr_len a = 8 + (if is_vendor_specific a then 4 else 0)"

definition avp_body :: "avp \<Rightarrow> bytes" where
  "avp_body a = (case a_data a of Some bs \<Rightarrow> bs | None \<Rightarrow> concat (map avp_encode (a_sub_avps a)))"

text \<open>The AVP a receiver reconstructs: the same header, the carried bytes as flat data.\<close>

definition avp_raw :: "avp \<Rightarrow> avp" where
  "avp_raw a = Avp (a_code a) (a_flags a) (a_vendor_id a) (Some (avp_body a)) []"

text \<open>
  Well-formed for the wire: the V bit agrees with the vendor id, the whole AVP fits the 24-bit
  length field, and the members of a group are well-formed.
\<close>

fun wf_avp :: "avp \<Rightarrow> bool" where
  "wf_avp (Avp c f v d subs) =
     ((f AND 0x80 \<noteq> 0) = (v \<noteq> None)
      \<and> hdr_len (Avp c f v d subs) + length (avp_body (Avp c f v d subs)) < 2 ^ 24
      \<and> (d = None \<longrightarrow> list_all wf_avp subs))"

lemma padding_aligned [simp]: "n mod 4 = 0 \<Longrightarrow> padding n = []"
  by (simp add: padding_def)

lemma length_padding [wire_len]: "length (padding n) = (4 - n mod 4) mod 4"
  by (auto simp: padding_def)

lemma unat_pad4:
  assumes "unat n < 2 ^ 24"
  shows "unat (pad4 n) = unat n + (4 - unat n mod 4) mod 4"
proof -
  have m: "unat (n mod 4) = unat n mod 4" by (simp add: unat_mod)
  have z: "n mod 4 = 0 \<longleftrightarrow> unat n mod 4 = 0"
    by (metis m unat_0 word_unat_eq_iff)
  have lt: "n mod 4 < 4" by (simp add: word_mod_less_divisor)
  have d: "unat (4 - n mod 4) = 4 - unat n mod 4"
    using lt by (simp add: unat_sub order_less_imp_le m)
  show ?thesis
    using assms z d by (auto simp: pad4_def Let_def unat_word_ariths(1))
qed

lemma avp_body_simps [simp]:
  "avp_body (Avp c f v (Some bs) subs) = bs"
  "avp_body (Avp c f v None subs) = concat (map avp_encode subs)"
  by (simp_all add: avp_body_def)

lemma hdr_len_simp [simp]: "hdr_len (Avp c f v d subs) = 8 + (if f AND 0x80 \<noteq> 0 then 4 else 0)"
  by (simp add: hdr_len_def is_vendor_specific_def)

lemma hdr_len_ge: "8 \<le> hdr_len a"
  by (simp add: hdr_len_def)

lemma wf_avp_fits: "wf_avp a \<Longrightarrow> hdr_len a + length (avp_body a) < 2 ^ 24"
  by (cases a) (simp only: wf_avp.simps)

section \<open>Lengths are exact and aligned\<close>

lemma unat_small32: "n < 2 ^ 24 \<Longrightarrow> unat (of_nat n :: u32) = n"
  by (simp add: unat_of_nat)

lemma padded_aligned: "(n + (4 - n mod 4) mod 4) mod 4 = (0 :: nat)"
proof -
  have "(n + (4 - n mod 4) mod 4) mod 4 = (n mod 4 + (4 - n mod 4)) mod 4"
    by (simp only: mod_add_left_eq mod_add_right_eq)
  also have "n mod 4 + (4 - n mod 4) = 4"
    using mod_less_divisor [of 4 n] by simp
  finally show ?thesis by simp
qed

lemma hdr_len_mod4 [simp]: "hdr_len a mod 4 = 0"
  by (simp add: hdr_len_def)

lemma hdr_len_add_mod4: "(hdr_len a + n) mod 4 = n mod 4"
  by (metis add_0 hdr_len_mod4 mod_add_left_eq)

lemma total_length_data:
  assumes "hdr_len (Avp c f v (Some bs) subs) + length bs < 2 ^ 24"
  shows "unat (total_length (Avp c f v (Some bs) subs)) = hdr_len (Avp c f v (Some bs) subs) + length bs"
proof -
  have "total_length (Avp c f v (Some bs) subs) = of_nat (hdr_len (Avp c f v (Some bs) subs) + length bs)"
    by simp
  then show ?thesis using assms by (simp only: unat_small32)
qed

lemma total_length_group:
  assumes "hdr_len (Avp c f v None subs) + length (concat (map avp_encode subs)) < 2 ^ 24"
    and "\<And>s. s \<in> set subs \<Longrightarrow> unat (pad4 (total_length s)) = length (avp_encode s)"
  shows "unat (total_length (Avp c f v None subs))
         = hdr_len (Avp c f v None subs) + length (concat (map avp_encode subs))"
proof -
  have "sum_list (map (\<lambda>s. pad4 (total_length s)) subs)
      = sum_list (map (\<lambda>s. of_nat (length (avp_encode s))) subs)"
    using assms(2) by (intro arg_cong [where f = sum_list] map_cong refl) (metis of_nat_unat ucast_id)
  also have "sum_list (map (\<lambda>s. of_nat (length (avp_encode s)) :: u32) subs)
      = of_nat (length (concat (map avp_encode subs)))"
    by (induction subs) simp_all
  finally have "total_length (Avp c f v None subs)
      = of_nat (hdr_len (Avp c f v None subs) + length (concat (map avp_encode subs)))"
    by simp
  then show ?thesis using assms(1) by (simp only: unat_small32)
qed

lemma avp_encode_shape:
  assumes "(f AND 0x80 \<noteq> 0) = (v \<noteq> None)"
    and "d = None \<Longrightarrow> \<forall>s\<in>set subs. length (avp_encode s) mod 4 = 0"
  shows "avp_encode (Avp c f v d subs) =
           to_be 4 c @ f # to_be 3 (total_length (Avp c f v d subs))
           @ (case v of Some vid \<Rightarrow> to_be 4 vid | None \<Rightarrow> [])
           @ avp_body (Avp c f v d subs) @ padding (length (avp_body (Avp c f v d subs)))"
proof -
  have t: "drop (Suc 0) (to_be 4 w) = to_be 3 w" for w :: u32
    using to_be_drop_high [of 3 4 w] by simp
  show ?thesis
  proof (cases d)
    case None
    with assms(2) have al: "\<forall>s\<in>set subs. length (avp_encode s) mod 4 = 0" by simp
    then have "concat (map (\<lambda>s. let e = avp_encode s in e @ padding (length e)) subs)
        = concat (map avp_encode subs)"
      by (intro arg_cong [where f = concat] map_cong refl) (simp add: Let_def)
    moreover have "length (concat (map avp_encode subs)) mod 4 = 0"
      using al by (induction subs) (auto simp: mod_add_eq [symmetric])
    ultimately show ?thesis
      using None assms(1) by (auto simp: t split: option.splits)
  next
    case (Some bs)
    then show ?thesis using assms(1) by (auto simp: t split: option.splits)
  qed
qed

lemma avp_wire_lengths:
  "wf_avp a \<Longrightarrow>
     unat (total_length a) = hdr_len a + length (avp_body a)
     \<and> length (avp_encode a) = unat (pad4 (total_length a))
     \<and> length (avp_encode a) mod 4 = 0"
proof (induction a)
  case (Avp c f v d subs)
  let ?a = "Avp c f v d subs"
  have fits: "hdr_len ?a + length (avp_body ?a) < 2 ^ 24" using Avp.prems by (rule wf_avp_fits)
  have vend: "(f AND 0x80 \<noteq> 0) = (v \<noteq> None)" using Avp.prems by simp
  have sub: "unat (pad4 (total_length s)) = length (avp_encode s)" "length (avp_encode s) mod 4 = 0"
    if "s \<in> set subs" "d = None" for s
    using Avp.IH [OF that(1)] Avp.prems that by (auto simp: list_all_iff)
  have tl: "unat (total_length ?a) = hdr_len ?a + length (avp_body ?a)"
  proof (cases d)
    case None
    then show ?thesis using total_length_group [of c f v subs] fits sub by auto
  next
    case (Some bs)
    then show ?thesis using total_length_data [of c f v bs subs] fits by simp
  qed
  have shape: "length (avp_encode ?a) = hdr_len ?a + length (avp_body ?a)
        + (4 - length (avp_body ?a) mod 4) mod 4"
    using avp_encode_shape [OF vend, of d subs c] sub vend
    by (auto simp: wire_len split: option.splits)
  have len: "length (avp_encode ?a) = unat (pad4 (total_length ?a))"
    using fits by (simp only: shape unat_pad4 tl hdr_len_add_mod4)
  moreover have "unat (pad4 (total_length ?a)) mod 4 = 0"
    using fits by (simp only: unat_pad4 tl padded_aligned)
  ultimately show ?case using tl by simp
qed

section \<open>Decoding what was encoded\<close>

lemma take_bit_24_small: "unat (L :: u32) < 2 ^ 24 \<Longrightarrow> take_bit 24 L = L"
  by (metis take_bit_nat_eq_self unsigned_take_bit_eq word_unat_eq_iff)

lemma decode_header_layout:
  assumes "bs = to_be 4 c @ f # to_be 3 L @ tail" and "unat L < 2 ^ 24"
    and "f AND 0x80 \<noteq> 0 \<Longrightarrow> 4 \<le> length tail"
    and "8 + (if f AND 0x80 \<noteq> 0 then 4 else 0) \<le> unat L"
  shows "decode_header bs =
           Some (c, f, L, if f AND 0x80 \<noteq> 0 then Some (from_be (take 4 tail)) else None)"
proof -
  have bs: "bs = (to_be 4 c @ [f]) @ to_be 3 L @ tail" using assms(1) by simp
  have l: "length (to_be 4 c @ [f]) = 5" by simp
  have "slice bs 0 4 = to_be 4 c" using assms(1) by (simp add: slice_prefix)
  moreover have "bs ! 4 = f" using assms(1) by (simp add: nth_append)
  moreover have "slice bs 5 8 = to_be 3 L" unfolding bs by (simp add: slice_def)
  moreover have "slice bs 8 12 = take 4 tail" unfolding bs by (simp add: slice_def)
  moreover have "from_be (to_be 3 L) = L"
    using take_bit_24_small [OF assms(2)] by (simp add: from_be_to_be)
  moreover have "\<not> L < 8 + (if f AND 0x80 \<noteq> 0 then 4 else 0)"
    using assms(4) by (auto simp: word_less_nat_alt)
  ultimately show ?thesis
    using assms(1,3) by (auto simp: decode_header_def Let_def)
qed

lemma avp_encode_wf_shape:
  assumes "wf_avp a"
  shows "avp_encode a =
           to_be 4 (a_code a) @ a_flags a # to_be 3 (total_length a)
           @ (case a_vendor_id a of Some vid \<Rightarrow> to_be 4 vid | None \<Rightarrow> [])
           @ avp_body a @ padding (length (avp_body a))"
proof (cases a)
  case (Avp c f v d subs)
  have "(f AND 0x80 \<noteq> 0) = (v \<noteq> None)" using assms Avp by simp
  moreover have "\<forall>s\<in>set subs. length (avp_encode s) mod 4 = 0" if "d = None"
  proof
    fix s assume "s \<in> set subs"
    then have "wf_avp s" using assms that unfolding Avp by (simp add: list_all_iff)
    then show "length (avp_encode s) mod 4 = 0" using avp_wire_lengths by blast
  qed
  ultimately show ?thesis unfolding Avp avp.sel by (rule avp_encode_shape)
qed

lemma bit_vendor_flag: "bit (0x80 :: u8) i \<longleftrightarrow> i = 7"
proof -
  have "(0x80 :: u8) = push_bit 7 1" by (simp add: push_bit_eq_mult)
  then show ?thesis by (auto simp only: bit_push_bit_iff bit_1_iff) auto
qed

lemma bit_mandatory_flag: "bit (0x40 :: u8) i \<longleftrightarrow> i = 6"
proof -
  have "(0x40 :: u8) = push_bit 6 1" by (simp add: push_bit_eq_mult)
  then show ?thesis by (auto simp only: bit_push_bit_iff bit_1_iff) auto
qed

lemma bit_vendor_mask: "bit (0x7F :: u8) i \<longleftrightarrow> i < 7"
proof -
  have "(0x7F :: u8) = mask 7" by (simp add: mask_eq_exp_minus_1)
  then show ?thesis by (auto simp only: bit_mask_iff) auto
qed

lemma vendor_flag_bit: "(f AND 0x80 \<noteq> 0) = bit (f :: u8) 7"
proof -
  have "f AND 0x80 = 0 \<longleftrightarrow> (\<forall>i < 8. \<not> bit (f AND 0x80) i)"
    by (simp only: bit_eq_iff [of "f AND 0x80" 0]) simp
  also have "\<dots> \<longleftrightarrow> \<not> bit f 7"
    by (auto simp only: bit_and_iff bit_vendor_flag dest: spec [of _ 7])
  finally show ?thesis by simp
qed

lemma flags_keep_vendor:
  "f AND 0x80 \<noteq> 0 \<Longrightarrow> f OR 0x80 = (f :: u8)"
  "f AND 0x80 = 0 \<Longrightarrow> f AND 0x7F = (f :: u8)"
proof -
  show "f OR 0x80 = f" if "f AND 0x80 \<noteq> 0"
    using that unfolding vendor_flag_bit by (intro bit_word_eqI) (auto simp only: bit_or_iff bit_vendor_flag)
  have "i < 7" if "bit f i" "\<not> bit f 7" for i
    using bit_imp_le_length [OF that(1)] that by (cases "i = 7") auto
  then show "f AND 0x7F = f" if "f AND 0x80 = 0"
    using that vendor_flag_bit [of f]
    by (intro bit_word_eqI) (auto simp only: bit_and_iff bit_vendor_mask)
qed

lemma avp_new_raw:
  assumes "(f AND 0x80 \<noteq> 0) = (v \<noteq> None)"
  shows "avp_new c f v bs = Avp c f v (Some bs) []"
  using assms flags_keep_vendor [of f] by (cases v) (simp_all add: avp_new_def)

lemma avp_decode_encode:
  assumes wf: "wf_avp a"
  shows "avp_decode (avp_encode a @ rest) = Ok (avp_raw a)"
proof -
  let ?f = "a_flags a" and ?v = "a_vendor_id a"
  let ?vend = "case ?v of Some vid \<Rightarrow> to_be 4 vid | None \<Rightarrow> []"
  let ?tail = "?vend @ avp_body a @ padding (length (avp_body a)) @ rest"
  have vend: "(?f AND 0x80 \<noteq> 0) = (?v \<noteq> None)" using wf by (cases a) simp
  have tl: "unat (total_length a) = hdr_len a + length (avp_body a)"
    using avp_wire_lengths [OF wf] by simp
  have small: "unat (total_length a) < 2 ^ 24" using wf_avp_fits [OF wf] tl by simp
  have bs: "avp_encode a @ rest = to_be 4 (a_code a) @ ?f # to_be 3 (total_length a) @ ?tail"
    by (simp add: avp_encode_wf_shape [OF wf])
  have hd: "hdr_len a = 8 + (if ?f AND 0x80 \<noteq> 0 then 4 else 0)"
    by (simp add: hdr_len_def is_vendor_specific_def)
  have lv: "length ?vend = (if ?f AND 0x80 \<noteq> 0 then 4 else 0)"
    using vend by (cases ?v) auto
  have dh: "decode_header (avp_encode a @ rest) = Some (a_code a, ?f, total_length a, ?v)"
    using decode_header_layout [OF bs small] lv tl hd vend by (cases ?v) auto
  have "slice (avp_encode a @ rest) (hdr_len a) (unat (total_length a)) = avp_body a"
    unfolding bs tl hd using vend by (cases ?v) (auto simp: slice_def)
  moreover have "unat (total_length a) \<le> length (avp_encode a @ rest)"
    unfolding bs tl hd using lv by (simp split del: if_split)
  ultimately show ?thesis
    using dh avp_new_raw [OF vend] hd
    by (simp add: avp_decode_def avp_raw_def Let_def not_less)
qed

section \<open>What decode accepts\<close>

lemma decode_header_Some:
  assumes "decode_header bs = Some (c, f, len, v)"
  shows "f = bs ! 4" "(f AND 0x80 \<noteq> 0) = (v \<noteq> None)" "8 \<le> length bs"
    "8 + (if f AND 0x80 \<noteq> 0 then 4 else 0) \<le> unat len" "unat len < 2 ^ 24"
proof -
  have "(if f AND 0x80 \<noteq> 0 then 12 else 8) \<le> len"
    using assms by (auto simp: decode_header_def Let_def split: if_splits)
  then show "8 + (if f AND 0x80 \<noteq> 0 then 4 else 0) \<le> unat len"
    by (auto simp: word_le_nat_alt split: if_splits)
  have "len = from_be (slice bs 5 8)" "8 \<le> length bs"
    using assms by (auto simp: decode_header_def Let_def split: if_splits)
  then show "unat len < 2 ^ 24" "8 \<le> length bs"
    using unat_from_be_less [of "slice bs 5 8", where ?'a = 32] by simp_all
qed (use assms in \<open>auto simp: decode_header_def Let_def split: if_splits\<close>)

lemma avp_decode_Ok:
  assumes "avp_decode bs = Ok a"
  shows "wf_avp a" "8 \<le> unat (total_length a)" "unat (total_length a) < 2 ^ 24"
    "unat (total_length a) \<le> length bs" "a_sub_avps a = []"
    "a_data a = Some (slice bs (hdr_len a) (unat (total_length a)))"
    "decode_header bs = Some (a_code a, a_flags a, total_length a, a_vendor_id a)"
proof -
  obtain c f len v where dh: "decode_header bs = Some (c, f, len, v)" and fit: "unat len \<le> length bs"
    and a: "a = avp_new c f v (slice bs (8 + (if f AND 0x80 \<noteq> 0 then 4 else 0)) (unat len))"
    using assms by (auto simp: avp_decode_def Let_def split: option.splits if_splits)
  note h = decode_header_Some [OF dh]
  let ?h = "8 + (if f AND 0x80 \<noteq> 0 then 4 else 0 :: nat)"
  let ?d = "slice bs ?h (unat len)"
  have a': "a = Avp c f v (Some ?d) []" unfolding a by (rule avp_new_raw [OF h(2)])
  have hl: "hdr_len a = ?h" unfolding a' by (rule hdr_len_simp)
  have ld: "length ?d = unat len - ?h" by (rule length_slice [OF h(4) fit])
  have sum: "hdr_len (Avp c f v (Some ?d) []) + length ?d = unat len"
    unfolding ld hdr_len_simp using h(4) by (rule le_add_diff_inverse)
  have tl: "unat (total_length a) = unat len"
    unfolding a' using total_length_data [of c f v ?d "[]"] sum h(5) by (simp only:)
  show "wf_avp a" unfolding a' wf_avp.simps avp_body_simps sum using h(2,5) by simp
  show "8 \<le> unat (total_length a)" "unat (total_length a) < 2 ^ 24" "unat (total_length a) \<le> length bs"
    using h(4,5) fit unfolding tl by (simp_all split: if_splits)
  show "a_data a = Some (slice bs (hdr_len a) (unat (total_length a)))"
    unfolding tl hl by (simp add: a')
  show "a_sub_avps a = []" by (simp add: a')
  show "decode_header bs = Some (a_code a, a_flags a, total_length a, a_vendor_id a)"
    using dh word_unat_eq_iff [THEN iffD2, OF tl] by (simp add: a')
qed

lemma avp_decode_not_Panic [simp]: "avp_decode bs \<noteq> Panic"
  by (auto simp: avp_decode_def Let_def split: option.splits)

lemma unat_tlip:
  assumes "unat (total_length a) < 2 ^ 24"
  shows "unat (total_length_including_padding a) = unat (total_length a) + (4 - unat (total_length a) mod 4) mod 4"
  unfolding total_length_including_padding_def by (rule unat_pad4 [OF assms])

section \<open>The AVP loop\<close>

text \<open>
  The loop \<open>as_grouped\<close> and \<open>Command::decode\<close> share: decode at the offset, move by
  the padded length, until fewer than eight bytes are left before the limit. An undecodable AVP
  ends it with the offset and the error.
\<close>

function decode_loop :: "bytes \<Rightarrow> nat \<Rightarrow> nat \<Rightarrow> avp list \<Rightarrow> (nat \<times> string, avp list) outcome" where
  "decode_loop data limit offset acc =
     (if offset + 8 \<le> limit then
        (case avp_decode (drop offset data) of
           Ok a \<Rightarrow> decode_loop data limit (offset + unat (total_length_including_padding a)) (acc @ [a])
         | Err e \<Rightarrow> Err (offset, e)
         | Panic \<Rightarrow> Panic)
      else Ok acc)"
  by auto
termination
proof (relation "measure (\<lambda>(data, limit, offset, acc). limit - offset)")
  fix data :: bytes and limit offset acc a
  assume le: "offset + 8 \<le> limit" and d: "avp_decode (drop offset data) = Ok a"
  have "8 \<le> unat (total_length_including_padding a)"
    using avp_decode_Ok(2,3) [OF d] by (simp add: unat_tlip)
  then show "((data, limit, offset + unat (total_length_including_padding a), acc @ [a]),
        data, limit, offset, acc) \<in> measure (\<lambda>(data, limit, offset, acc). limit - offset)"
    using le by simp
qed simp

declare decode_loop.simps [simp del]

definition as_grouped :: "avp \<Rightarrow> avp list option" where
  "as_grouped a =
     (case a_data a of
        Some d \<Rightarrow>
          if 8 \<le> length d then (case decode_loop d (length d) 0 [] of Ok subs \<Rightarrow> Some subs | _ \<Rightarrow> None)
          else if is_grouped a then Some (a_sub_avps a) else None
      | None \<Rightarrow> if is_grouped a then Some (a_sub_avps a) else None)"

lemma decode_loop_not_Panic [simp]: "decode_loop data limit offset acc \<noteq> Panic"
  by (induction data limit offset acc rule: decode_loop.induct)
     (subst decode_loop.simps, auto split: outcome.splits)

lemma avp_encode_length:
  assumes "wf_avp a"
  shows "length (avp_encode a) = unat (total_length_including_padding a)"
    and "length (avp_encode a) mod 4 = 0" and "8 \<le> length (avp_encode a)"
proof -
  note l = avp_wire_lengths [OF assms]
  show len: "length (avp_encode a) = unat (total_length_including_padding a)"
    unfolding total_length_including_padding_def using l by blast
  show "length (avp_encode a) mod 4 = 0" using l by blast
  show "8 \<le> length (avp_encode a)"
    unfolding len using l hdr_len_ge [of a] wf_avp_fits [OF assms] by (simp add: unat_tlip)
qed

lemma total_length_raw [simp]:
  assumes "wf_avp a"
  shows "total_length (avp_raw a) = total_length a"
proof (rule word_unat_eq_iff [THEN iffD2])
  have "hdr_len (avp_raw a) = hdr_len a" by (simp add: avp_raw_def hdr_len_def is_vendor_specific_def)
  then show "unat (total_length (avp_raw a)) = unat (total_length a)"
    using total_length_data [of "a_code a" "a_flags a" "a_vendor_id a" "avp_body a" "[]"]
      wf_avp_fits [OF assms] avp_wire_lengths [OF assms]
    unfolding avp_raw_def by simp
qed

lemma total_length_including_padding_raw [simp]:
  "wf_avp a \<Longrightarrow> total_length_including_padding (avp_raw a) = total_length_including_padding a"
  by (simp add: total_length_including_padding_def)

lemma decode_loop_encoded:
  assumes "\<forall>a\<in>set avps. wf_avp a" and "drop offset data = concat (map avp_encode avps) @ rest"
    and "limit = offset + length (concat (map avp_encode avps))"
  shows "decode_loop data limit offset acc = Ok (acc @ map avp_raw avps)"
  using assms
proof (induction avps arbitrary: offset acc)
  case Nil
  then show ?case by (subst decode_loop.simps) simp
next
  case (Cons a avps)
  let ?n = "length (avp_encode a)"
  have wf: "wf_avp a" using Cons.prems by simp
  note l = avp_encode_length [OF wf]
  have dr: "drop offset data = avp_encode a @ concat (map avp_encode avps) @ rest"
    using Cons.prems by simp
  have "drop (offset + ?n) data = drop ?n (drop offset data)" by (simp add: add.commute)
  then have rest: "drop (offset + ?n) data = concat (map avp_encode avps) @ rest" unfolding dr by simp
  have "decode_loop data limit offset acc = decode_loop data limit (offset + ?n) (acc @ [avp_raw a])"
    using Cons.prems(3) l(3) wf
    by (subst decode_loop.simps) (simp add: dr avp_decode_encode l(1))
  also have "\<dots> = Ok ((acc @ [avp_raw a]) @ map avp_raw avps)"
    using Cons.prems(1,3) rest by (intro Cons.IH) auto
  finally show ?case by simp
qed

text \<open>Everything the loop returns was decoded inside the buffer, and is well-formed.\<close>

lemma decode_loop_all:
  assumes "\<And>bs a. avp_decode bs = Ok a \<Longrightarrow> P a"
  shows "decode_loop data limit offset acc = Ok res \<Longrightarrow> \<forall>a\<in>set acc. P a \<Longrightarrow> \<forall>a\<in>set res. P a"
proof (induction data limit offset acc rule: decode_loop.induct)
  case (1 data limit offset acc)
  show ?case
  proof (cases "offset + 8 \<le> limit")
    case True
    then obtain a where d: "avp_decode (drop offset data) = Ok a"
      and r: "decode_loop data limit (offset + unat (total_length_including_padding a)) (acc @ [a]) = Ok res"
      using "1.prems"(1) by (subst (asm) decode_loop.simps) (auto split: outcome.splits)
    show ?thesis
      using "1.IH" [OF True d r] "1.prems"(2) assms [OF d] by simp
  next
    case False
    then show ?thesis using "1.prems" by (subst (asm) decode_loop.simps) simp
  qed
qed

lemma decode_loop_wf:
  "decode_loop data limit offset acc = Ok res \<Longrightarrow> \<forall>a\<in>set acc. wf_avp a \<Longrightarrow> \<forall>a\<in>set res. wf_avp a"
  using decode_loop_all [where P = wf_avp] avp_decode_Ok(1) by blast

lemma avp_decode_has_data: "avp_decode bs = Ok a \<Longrightarrow> a_data a \<noteq> None"
  using avp_decode_Ok(6) by blast

lemma decode_loop_has_data:
  "decode_loop data limit offset [] = Ok res \<Longrightarrow> \<forall>a\<in>set res. a_data a \<noteq> None"
  using decode_loop_all [where P = "\<lambda>a. a_data a \<noteq> None"] avp_decode_has_data by fastforce

section \<open>Typed values through the wire\<close>

lemma vendor_flag_or: "((f OR 0x80 :: u8) AND 0x80 \<noteq> 0)"
  unfolding vendor_flag_bit by (simp only: bit_or_iff bit_vendor_flag simp_thms)

lemma vendor_flag_clear: "(f AND 0x7F :: u8) AND 0x80 = 0"
  using vendor_flag_bit [of "f AND 0x7F"] by (simp only: bit_and_iff bit_vendor_mask) simp

lemma avp_new_flag: "(a_flags (avp_new c f v bs) AND 0x80 \<noteq> 0) = (v \<noteq> None)"
  by (simp only: avp_new_def avp.sel vendor_flag_or vendor_flag_clear split: if_split) blast

lemma wf_avp_new: "length bs < 2 ^ 24 - 12 \<Longrightarrow> wf_avp (avp_new c f v bs)"
  using avp_new_flag [of c f v bs] by (simp add: avp_new_def split: if_splits)

lemma avp_new_sel [simp]:
  "a_code (avp_new c f v bs) = c" "a_vendor_id (avp_new c f v bs) = v"
  "a_data (avp_new c f v bs) = Some bs" "a_sub_avps (avp_new c f v bs) = []"
  by (simp_all add: avp_new_def)

lemma avp_raw_flat: "a_data a = Some bs \<Longrightarrow> a_sub_avps a = [] \<Longrightarrow> avp_raw a = a"
  by (cases a) (simp add: avp_raw_def)

lemma avp_raw_new [simp]: "avp_raw (avp_new c f v bs) = avp_new c f v bs"
  by (rule avp_raw_flat) simp_all

lemma avp_new_over_wire:
  "length bs < 2 ^ 24 - 12 \<Longrightarrow> avp_decode (avp_encode (avp_new c f v bs) @ rest) = Ok (avp_new c f v bs)"
  using avp_decode_encode [OF wf_avp_new] by simp

text \<open>
  A typed accessor pair over a fixed-width encoding. The source writes the pair once per scalar
  type; the contract is the same each time.
\<close>

locale scalar_avp =
  fixes setter :: "avp \<Rightarrow> 'v \<Rightarrow> avp" and getter :: "avp \<Rightarrow> 'v option"
    and enc :: "'v \<Rightarrow> bytes" and dec :: "bytes \<Rightarrow> 'v" and width :: nat
  assumes setter_data: "setter a x = set_data a (enc x)"
    and getter_data: "getter a = (case a_data a of
           Some d \<Rightarrow> if length d = width then Some (dec d) else None | None \<Rightarrow> None)"
    and enc_width: "length (enc x) = width"
    and dec_enc: "dec (enc x) = x"
    and enc_dec: "length d = width \<Longrightarrow> enc (dec d) = d"
    and width_bound: "width \<le> 8"
begin

lemma get_set: "getter (setter a x) = Some x"
  by (cases a) (simp add: setter_data getter_data enc_width dec_enc)

lemma get_Some_iff: "getter a = Some x \<longleftrightarrow> a_data a = Some (enc x)"
proof (cases "a_data a")
  case (Some d)
  then show ?thesis by (simp add: getter_data) (metis dec_enc enc_dec enc_width)
qed (simp add: getter_data)

lemma get_new: "getter (avp_new c f v (enc x)) = Some x"
  by (simp add: get_Some_iff)

lemma get_over_wire:
  "\<exists>a. avp_decode (avp_encode (avp_new c f v (enc x)) @ rest) = Ok a \<and> getter a = Some x
       \<and> a_code a = c \<and> a_vendor_id a = v"
  using width_bound get_new [of c f v x]
  by (intro exI [of _ "avp_new c f v (enc x)"]) (simp add: avp_new_over_wire enc_width)

end

lemmas word_accessor_defs =
  as_integer32_def as_unsigned32_def as_float32_def as_integer64_def as_unsigned64_def as_float64_def
  as_word32_def as_word64_def set_integer32_def set_unsigned32_def set_float32_def
  set_integer64_def set_unsigned64_def set_float64_def

interpretation integer32: scalar_avp set_integer32 as_integer32 "to_be 4" from_be 4
  by unfold_locales (simp_all add: word_accessor_defs)

interpretation unsigned32: scalar_avp set_unsigned32 as_unsigned32 "to_be 4" from_be 4
  by unfold_locales (simp_all add: word_accessor_defs)

interpretation float32: scalar_avp set_float32 as_float32 "to_be 4" from_be 4
  by unfold_locales (simp_all add: word_accessor_defs)

interpretation integer64: scalar_avp set_integer64 as_integer64 "to_be 8" from_be 8
  by unfold_locales (simp_all add: word_accessor_defs)

interpretation unsigned64: scalar_avp set_unsigned64 as_unsigned64 "to_be 8" from_be 8
  by unfold_locales (simp_all add: word_accessor_defs)

interpretation float64: scalar_avp set_float64 as_float64 "to_be 8" from_be 8
  by unfold_locales (simp_all add: word_accessor_defs)

lemma as_time_from_time: "as_time (from_time c f v t) = Some t"
  by (simp add: as_time_def from_time_def from_unsigned32_def avp_new_def)

section \<open>Addresses and text\<close>

lemma parse_octet_show: "parse_octet (show_nat (unat b)) = Some (b :: u8)"
proof -
  have b: "unat b < 256" using unsigned_less [of b, where ?'a = nat] by simp
  then have "length (show_nat (unat b)) \<le> 3" using length_show_nat_less [of "unat b" 2] by simp
  moreover have "\<not> (hd (show_nat (unat b)) = CHR ''0'' \<and> 1 < length (show_nat (unat b)))"
    using show_nat_no_leading_zero [of "unat b"] by (cases "unat b = 0") simp_all
  ultimately show ?thesis using b by (simp add: parse_octet_def)
qed

lemma v4_parse_show: "v4_parse (v4_show a b c d) = Some [a, b, c, d]"
proof -
  have d: "CHR ''.'' \<notin> set (show_nat n)" for n
    by (rule not_digit_show_nat) (simp add: char_digit_def)
  show ?thesis
    by (simp add: v4_parse_def v4_show_def split_on_append split_on_no_sep d parse_octet_show)
qed

lemma address_family:
  "(from_be (slice (to_be 2 w @ ip) 0 2) :: u16) = w"
  by (simp add: slice_prefix)

lemma as_address_from_v4:
  "as_address p (from_address p c f v (v4_show i j k l)) = Some (v4_show i j k l)"
proof -
  have "(to_be 2 (1 :: u16) @ [i, j, k, l]) ! n = [i, j, k, l] ! (n - 2)" if "2 \<le> n" for n
    using that by (simp add: nth_append)
  then show ?thesis
    by (simp add: from_address_def v4_parse_show as_address_def Let_def address_family)
qed

lemma as_address_from_v6:
  assumes "v4_parse s = None" and "v6_parse p s = Some ip" and "length ip = 16" and "v6_show p ip = s"
  shows "as_address p (from_address p c f v s) = Some s"
proof -
  have "slice (to_be 2 (2 :: u16) @ ip) 2 18 = ip" using assms(3) by (simp add: slice_def)
  then show ?thesis
    using assms by (simp add: from_address_def as_address_def Let_def address_family)
qed

lemma as_utf8_from_utf8: "rust_string s \<Longrightarrow> as_utf8_string (from_utf8_string c f v s) = Some s"
  by (simp add: as_utf8_string_def from_utf8_string_def avp_new_def)

lemma as_grouped_raw:
  assumes "wf_avp g" and "is_grouped g"
  shows "as_grouped (avp_raw g) = Some (map avp_raw (a_sub_avps g))"
proof (cases g)
  case (Avp c f v d subs)
  have d: "d = None" "subs \<noteq> []" using assms(2) by (simp_all add: Avp is_grouped_def)
  have wf: "\<forall>a\<in>set subs. wf_avp a" using assms(1) d by (simp add: Avp list_all_iff)
  let ?b = "concat (map avp_encode subs)"
  have "8 \<le> length ?b"
    using avp_encode_length(3) wf d(2) by (cases subs) (simp_all add: trans_le_add1)
  moreover have "decode_loop ?b (length ?b) 0 [] = Ok (map avp_raw subs)"
    using decode_loop_encoded [of subs 0 ?b "[]" "length ?b" "[]"] wf by simp
  ultimately show ?thesis by (simp add: as_grouped_def avp_raw_def Avp d)
qed

lemma padding_mod: "n mod 4 = m mod 4 \<Longrightarrow> padding n = padding m"
  by (simp add: padding_def)

lemma decode_header_bytes:
  assumes "decode_header bs = Some (c, f, len, v)" and "8 + length (case v of Some _ \<Rightarrow> to_be 4 (0 :: u32) | None \<Rightarrow> []) = h"
  shows "to_be 4 c @ f # to_be 3 len @ (case v of Some vid \<Rightarrow> to_be 4 vid | None \<Rightarrow> []) = take h bs"
proof -
  have l: "8 \<le> length bs" "v \<noteq> None \<Longrightarrow> 12 \<le> length bs" and c: "c = from_be (slice bs 0 4)"
    and f: "f = bs ! 4" and len: "len = from_be (slice bs 5 8)"
    and v: "v = None \<or> v = Some (from_be (slice bs 8 12))"
    using assms(1) by (auto simp: decode_header_def Let_def split: if_splits)
  have "to_be 4 c = slice bs 0 4" "to_be 3 len = slice bs 5 8" unfolding c len using l by simp_all
  moreover have "slice bs 0 4 @ bs ! 4 # slice bs 5 8 = take 8 bs"
    using l(1) slice_join [of 0 4 5 bs] slice_join [of 0 5 8 bs] slice_single [of 4 bs]
    by (simp add: slice_0) (metis append.assoc append_Cons append_Nil)
  moreover have "take 8 bs @ slice bs 8 12 = take 12 bs"
    using slice_join [of 0 8 12 bs] by (simp add: slice_0)
  ultimately show ?thesis
    using v l(2) assms(2) f by (auto simp flip: append_assoc append_Cons)
qed

lemma avp_decode_bytes:
  assumes "avp_decode bs = Ok a"
  shows "avp_encode a = take (unat (total_length a)) bs @ padding (unat (total_length a))"
proof -
  note ok = avp_decode_Ok [OF assms]
  let ?n = "unat (total_length a)"
  have vend: "(a_flags a AND 0x80 \<noteq> 0) = (a_vendor_id a \<noteq> None)"
    using decode_header_Some(2) [OF ok(7)] .
  have h: "8 + length (case a_vendor_id a of Some _ \<Rightarrow> to_be 4 (0 :: u32) | None \<Rightarrow> []) = hdr_len a"
    using vend by (auto simp: hdr_len_def is_vendor_specific_def split: option.splits)
  have n: "?n = hdr_len a + length (avp_body a)" using avp_wire_lengths [OF ok(1)] by blast
  have body: "avp_body a = slice bs (hdr_len a) ?n" using ok(6) by (simp add: avp_body_def)
  have "avp_encode a = take (hdr_len a) bs @ avp_body a @ padding (length (avp_body a))"
    using avp_encode_wf_shape [OF ok(1)] decode_header_bytes [OF ok(7) h] by simp
  moreover have "take (hdr_len a) bs @ avp_body a = take ?n bs"
    unfolding body using slice_join [of 0 "hdr_len a" ?n bs] n by (simp add: slice_0)
  moreover have "padding (length (avp_body a)) = padding ?n"
    unfolding n by (rule padding_mod) (simp only: hdr_len_add_mod4)
  ultimately show ?thesis by (metis append.assoc)
qed

section \<open>Properties\<close>

text \<open>C11. Encoding then decoding an AVP gives the same code, flags, vendor id and carried bytes,
  whatever bytes follow it on the wire; the encoding has exactly the length
  \<open>total_length_including_padding\<close> announces, a multiple of four.\<close>

theorem avp_roundtrip:
  assumes "wf_avp a"
  shows "avp_decode (avp_encode a @ rest) = Ok (avp_raw a)
         \<and> length (avp_encode a) = unat (total_length_including_padding a)
         \<and> length (avp_encode a) mod 4 = 0"
  using avp_decode_encode [OF assms] avp_encode_length [OF assms] by blast

theorem avp_roundtrip_witness:
  "let a = from_utf8_string 264 0x40 None ''host'' in
     avp_decode (avp_encode a @ [1, 2]) = Ok (avp_raw a) \<and> length (avp_encode a) = 12"
proof -
  have wf: "wf_avp (from_utf8_string 264 0x40 None ''host'')"
    unfolding from_utf8_string_def by (rule wf_avp_new) simp
  show ?thesis
    using avp_roundtrip [OF wf, of "[1, 2]"]
    by (simp add: Let_def from_utf8_string_def avp_new_def total_length_including_padding_def pad4_def)
qed

text \<open>A grouped AVP survives the wire: a receiver that decodes it and calls
  \<open>as_grouped\<close> gets its members in order, each with its code, flags, vendor id and bytes.\<close>

theorem grouped_roundtrip:
  assumes "wf_avp g" and "is_grouped g"
  shows "\<exists>a. avp_decode (avp_encode g @ rest) = Ok a
             \<and> as_grouped a = Some (map avp_raw (a_sub_avps g))"
  using avp_decode_encode [OF assms(1)] as_grouped_raw [OF assms] by blast

theorem grouped_roundtrip_witness:
  "let g = from_grouped 260 0 None [from_unsigned32 266 0x40 None 10415, from_unsigned32 258 0x40 None 4]
   in \<exists>a. avp_decode (avp_encode g @ []) = Ok a \<and> as_grouped a = Some (a_sub_avps g)"
proof -
  let ?m = "[from_unsigned32 266 0x40 None 10415, from_unsigned32 258 0x40 None 4]"
  have "\<forall>m\<in>set ?m. wf_avp m" by (auto simp: from_unsigned32_def intro!: wf_avp_new)
  then have "wf_avp (from_grouped 260 0 None ?m)"
    by (simp add: from_grouped_def avp_encode_length total_length_including_padding_def
        from_unsigned32_def avp_new_def pad4_def)
  moreover have "is_grouped (from_grouped 260 0 None ?m)" by (simp add: from_grouped_def is_grouped_def)
  moreover have "map avp_raw ?m = ?m" by (simp add: from_unsigned32_def)
  ultimately show ?thesis
    using grouped_roundtrip [of "from_grouped 260 0 None ?m" "[]"]
    by (simp only: Let_def from_grouped_def avp.sel)
qed

text \<open>C25. Whatever bytes arrive, \<open>decode\<close> never panics, never reads past the buffer, and
  accepts only an AVP that re-encodes to the very bytes it was read from, padded with zeros.\<close>

theorem avp_decode_sound:
  assumes "avp_decode bs = Ok a"
  shows "8 \<le> unat (total_length a) \<and> unat (total_length a) \<le> length bs
         \<and> avp_encode a = take (unat (total_length a)) bs @ padding (unat (total_length a))"
  using avp_decode_Ok(2,4) [OF assms] avp_decode_bytes [OF assms] by blast

theorem avp_decode_sound_witness:
  "let bs = [0,0,1,8, 0x40, 0,0,11, 1,2,3]; a = Avp 264 0x40 None (Some [1,2,3]) [] in
     avp_decode bs = Ok a \<and> unat (total_length a) \<le> length bs
     \<and> avp_encode a = take (unat (total_length a)) bs @ [0]"
proof -
  have "avp_decode [0,0,1,8, 0x40, 0,0,11, 1,2,3] = Ok (Avp 264 0x40 None (Some [1,2,3]) [])"
    by code_simp
  then show ?thesis using avp_decode_sound [of "[0,0,1,8, 0x40, 0,0,11, 1,2,3]"]
    by (simp add: Let_def padding_def)
qed

text \<open>Every scalar accessor pair reads back what was stored, and the value of a typed AVP is
  unchanged by encoding, transmission and decoding.\<close>

theorem scalar_roundtrips:
  "(\<exists>a. avp_decode (avp_encode (from_integer32 c f v i) @ rest) = Ok a \<and> as_integer32 a = Some i)
   \<and> (\<exists>a. avp_decode (avp_encode (from_unsigned32 c f v u) @ rest) = Ok a \<and> as_unsigned32 a = Some u)
   \<and> (\<exists>a. avp_decode (avp_encode (from_float32 c f v x) @ rest) = Ok a \<and> as_float32 a = Some x)
   \<and> (\<exists>a. avp_decode (avp_encode (from_float64 c f v y) @ rest) = Ok a \<and> as_float64 a = Some y)
   \<and> (\<exists>a. avp_decode (avp_encode (from_time c f v t) @ rest) = Ok a \<and> as_time a = Some t)
   \<and> as_integer64 (set_integer64 b j) = Some j \<and> as_unsigned64 (set_unsigned64 b w) = Some w"
  using as_time_from_time [of c f v t]
  by (simp add: from_integer32_def from_unsigned32_def from_float32_def from_float64_def from_time_def
      avp_new_over_wire integer32.get_new unsigned32.get_new float32.get_new float64.get_new
      integer64.get_set unsigned64.get_set)

text \<open>Addresses and text are read back as written: every IPv4 address in its text form, and
  every Rust string.\<close>

theorem address_text_roundtrips:
  assumes "rust_string s"
  shows "as_address p (from_address p c f v (v4_show i j k l)) = Some (v4_show i j k l)
         \<and> as_utf8_string (from_utf8_string c' f' v' s) = Some s"
  using as_address_from_v4 as_utf8_from_utf8 [OF assms] by blast

theorem address_text_roundtrips_witness:
  "\<forall>p. as_address p (from_address p 257 0x40 None (v4_show 10 0 0 1)) = Some (v4_show 10 0 0 1)
   \<and> as_utf8_string (from_utf8_string 264 0x40 None ''dra'') = Some ''dra''"
proof -
  have "rust_string ''dra''" by (rule ascii_rust_string) (simp add: ascii_def byte_of_char_def)
  then show ?thesis using address_text_roundtrips [of "''dra''"] by blast
qed

text \<open>A grouped AVP built with a vendor id but without the V bit in its flags loses the vendor
  id on the wire: unlike \<open>Avp::new\<close>, \<open>from_grouped\<close> does not set the bit.\<close>

theorem from_grouped_drops_vendor:
  assumes "f AND 0x80 = 0" and "wf_avp (from_grouped c f None subs)"
  shows "avp_decode (avp_encode (from_grouped c f (Some vid) subs) @ rest)
         = Ok (avp_raw (from_grouped c f None subs))"
proof -
  have "(f OR 0x40) AND 0x80 = 0"
    using assms(1) vendor_flag_bit [of f] vendor_flag_bit [of "f OR 0x40"]
    by (simp only: bit_or_iff bit_mandatory_flag) simp
  then have "avp_encode (from_grouped c f (Some vid) subs) = avp_encode (from_grouped c f None subs)"
    by (simp add: from_grouped_def)
  then show ?thesis using avp_decode_encode [OF assms(2)] by (simp only:)
qed

theorem from_grouped_drops_vendor_witness:
  "avp_decode (avp_encode (from_grouped 873 0 (Some 10415) [from_unsigned32 1 0 None 7]) @ [])
   = Ok (avp_raw (from_grouped 873 0 None [from_unsigned32 1 0 None 7]))"
proof (rule from_grouped_drops_vendor)
  have "wf_avp (from_unsigned32 1 0 None 7)" by (simp add: from_unsigned32_def wf_avp_new)
  then show "wf_avp (from_grouped 873 0 None [from_unsigned32 1 0 None 7])"
    by (simp add: from_grouped_def avp_encode_length total_length_including_padding_def
        from_unsigned32_def avp_new_def pad4_def)
qed simp

end
