(* ===== verification/Command_Codec.thy ===== *)
theory Command_Codec
  imports Avp_Codec "HOL-Library.Sublist"
begin

text \<open>
  The Diameter command of \<open>command.rs\<close>: the \<open>Command\<close> struct with its header flags and
  AVP accessors, \<open>create_response\<close>, \<open>encode\<close> and \<open>decode\<close>, the incremental
  \<open>CommandBuffer\<close>, and \<open>read_command\<close> of \<open>transport/command_handler.rs\<close>, which
  takes one command off a byte stream. The lemmas give the message round trip, the laws of the
  header accessors, and reassembly of a stream however the transport chops it.
\<close>

section \<open>Command flags\<close>

text \<open>
  The flag letters of the JSON form. Rust iterates over the characters of the lower-cased
  string; a letter of the four is one byte, and every other character is skipped.
\<close>

definition flag_of_char :: "char \<Rightarrow> command_flag option" where
  "flag_of_char c =
     (if c = CHR ''r'' then Some FlagRequest
      else if c = CHR ''p'' then Some FlagProxiable
      else if c = CHR ''e'' then Some FlagError
      else if c = CHR ''t'' then Some FlagPotentiallyRetransmitted
      else None)"

definition command_flags_from_str :: "string \<Rightarrow> command_flag list option" where
  "command_flags_from_str value =
     (let flags = List.map_filter flag_of_char (to_lowercase value) in
      if flags = [] then None else Some flags)"

definition str_from_u8 :: "u8 \<Rightarrow> string" where
  "str_from_u8 value =
     (if value AND 0x80 \<noteq> 0 then ''R'' else []) @
     (if value AND 0x40 \<noteq> 0 then ''P'' else []) @
     (if value AND 0x20 \<noteq> 0 then ''E'' else []) @
     (if value AND 0x10 \<noteq> 0 then ''T'' else [])"

definition u8_from_str :: "string \<Rightarrow> u8 option" where
  "u8_from_str value =
     (let result = foldl (\<lambda>r c. case flag_of_char c of
                              Some f \<Rightarrow> r OR command_flag_u8 f | None \<Rightarrow> r) 0 (to_lowercase value) in
      if result = 0 then None else Some result)"

section \<open>The Command struct\<close>

record command =
  c_code :: u32
  c_flags :: u8
  c_application_id :: u32
  c_hop_by_hop_id :: u32
  c_end_to_end_id :: u32
  c_avps :: "avp list"

definition command_new :: "u32 \<Rightarrow> u8 \<Rightarrow> u32 \<Rightarrow> u32 \<Rightarrow> u32 \<Rightarrow> avp list \<Rightarrow> command" where
  "command_new code flags app hbh e2e avps =
     \<lparr>c_code = code, c_flags = flags, c_application_id = app, c_hop_by_hop_id = hbh,
      c_end_to_end_id = e2e, c_avps = avps\<rparr>"

definition is_request :: "command \<Rightarrow> bool" where
  "is_request c = (c_flags c AND 0x80 \<noteq> 0)"

definition is_answer :: "command \<Rightarrow> bool" where
  "is_answer c = (\<not> is_request c)"

definition is_proxiable :: "command \<Rightarrow> bool" where
  "is_proxiable c = (c_flags c AND 0x40 \<noteq> 0)"

definition is_error :: "command \<Rightarrow> bool" where
  "is_error c = (c_flags c AND 0x20 \<noteq> 0)"

definition is_retransmission :: "command \<Rightarrow> bool" where
  "is_retransmission c = (c_flags c AND 0x10 \<noteq> 0)"

definition add_avp :: "command \<Rightarrow> avp \<Rightarrow> command" where
  "add_avp c a = c\<lparr>c_avps := c_avps c @ [a]\<rparr>"

definition add_avps :: "command \<Rightarrow> avp list \<Rightarrow> command" where
  "add_avps c as = c\<lparr>c_avps := c_avps c @ as\<rparr>"

definition get_avp :: "command \<Rightarrow> u32 \<Rightarrow> avp option" where
  "get_avp c code = find (\<lambda>a. a_code a = code) (c_avps c)"

definition get_avps :: "command \<Rightarrow> u32 \<Rightarrow> avp list" where
  "get_avps c code = filter (\<lambda>a. a_code a = code) (c_avps c)"

text \<open>
  The setters look for the first AVP with the code and change it in place; without one they push
  a fresh AVP.
\<close>

fun set_or_push :: "u32 \<Rightarrow> (avp \<Rightarrow> avp) \<Rightarrow> avp \<Rightarrow> avp list \<Rightarrow> avp list" where
  "set_or_push code upd fresh [] = [fresh]"
| "set_or_push code upd fresh (a # as) =
     (if a_code a = code then upd a # as else a # set_or_push code upd fresh as)"

definition get_result_code :: "command \<Rightarrow> u32 option" where
  "get_result_code c = Option.bind (get_avp c 268) as_unsigned32"

definition set_result_code :: "command \<Rightarrow> u32 \<Rightarrow> command" where
  "set_result_code c r = c\<lparr>c_avps :=
     set_or_push 268 (\<lambda>a. set_unsigned32 a r) (from_unsigned32 268 0x40 None r) (c_avps c)\<rparr>"

definition get_error_message :: "command \<Rightarrow> string option" where
  "get_error_message c = Option.bind (get_avp c 281) as_utf8_string"

definition get_origin_host :: "command \<Rightarrow> string option" where
  "get_origin_host c = Option.bind (get_avp c 264) as_utf8_string"

definition set_origin_host :: "command \<Rightarrow> string \<Rightarrow> command" where
  "set_origin_host c h = c\<lparr>c_avps :=
     set_or_push 264 (\<lambda>a. set_utf8_string a h) (from_utf8_string 264 0x40 None h) (c_avps c)\<rparr>"

definition get_origin_realm :: "command \<Rightarrow> string option" where
  "get_origin_realm c = Option.bind (get_avp c 296) as_utf8_string"

definition set_origin_realm :: "command \<Rightarrow> string \<Rightarrow> command" where
  "set_origin_realm c r = c\<lparr>c_avps :=
     set_or_push 296 (\<lambda>a. set_utf8_string a r) (from_utf8_string 296 0x40 None r) (c_avps c)\<rparr>"

definition get_destination_host :: "command \<Rightarrow> string option" where
  "get_destination_host c = Option.bind (get_avp c 293) as_utf8_string"

definition set_destination_host :: "command \<Rightarrow> string \<Rightarrow> command" where
  "set_destination_host c h = c\<lparr>c_avps :=
     set_or_push 293 (\<lambda>a. set_utf8_string a h)
       (from_utf8_string (avp_code_u32 AvpDestinationHost) 0x40 None h) (c_avps c)\<rparr>"

definition get_destination_realm :: "command \<Rightarrow> string option" where
  "get_destination_realm c = Option.bind (get_avp c 283) as_utf8_string"

definition set_destination_realm :: "command \<Rightarrow> string \<Rightarrow> command" where
  "set_destination_realm c r = c\<lparr>c_avps :=
     set_or_push 283 (\<lambda>a. set_utf8_string a r)
       (from_utf8_string (avp_code_u32 AvpDestinationRealm) 0x40 None r) (c_avps c)\<rparr>"

definition is_route_record :: "string \<Rightarrow> avp \<Rightarrow> bool" where
  "is_route_record host a =
     (a_code a = avp_code_u32 AvpRouteRecord \<and> as_utf8_string a = Some host)"

definition add_record_route :: "command \<Rightarrow> string \<Rightarrow> command" where
  "add_record_route c host =
     c\<lparr>c_avps := c_avps c @ [from_utf8_string (avp_code_u32 AvpRouteRecord) 0x40 None host]\<rparr>"

definition remove_record_route :: "command \<Rightarrow> string \<Rightarrow> command" where
  "remove_record_route c host = c\<lparr>c_avps := filter (\<lambda>a. \<not> is_route_record host a) (c_avps c)\<rparr>"

definition has_record_route :: "command \<Rightarrow> string \<Rightarrow> bool" where
  "has_record_route c host = list_ex (is_route_record host) (c_avps c)"

definition get_redirect_hosts :: "command \<Rightarrow> string list option" where
  "get_redirect_hosts c = Some (List.map_filter as_utf8_string (get_avps c (avp_code_u32 AvpRedirectHost)))"

definition get_redirect_host_usage :: "command \<Rightarrow> redirect_host_usage option" where
  "get_redirect_host_usage c =
     Option.bind (Option.bind (get_avp c (avp_code_u32 AvpRedirectHostUsage)) as_unsigned32)
       redirect_host_usage_from_u32"

definition create_response :: "command \<Rightarrow> command" where
  "create_response c =
     (let r0 = command_new (c_code c) ((c_flags c AND 0x7F) OR 0) (c_application_id c)
                 (c_hop_by_hop_id c) (c_end_to_end_id c) [];
          r1 = (case get_destination_host c of Some h \<Rightarrow> set_origin_host r0 h | None \<Rightarrow> r0)
      in case get_destination_realm c of Some r \<Rightarrow> set_origin_realm r1 r | None \<Rightarrow> r1)"

section \<open>Encoding and decoding\<close>

definition command_length :: "command \<Rightarrow> nat" where
  "command_length c = 20 + sum_list (map (\<lambda>a. unat (total_length_including_padding a)) (c_avps c))"

definition command_encode :: "command \<Rightarrow> bytes" where
  "command_encode c =
     to_be 4 (0x01000000 OR (of_nat (command_length c) AND 0x00FFFFFF) :: u32)
     @ to_be 4 (push_bit 24 (ucast (c_flags c)) OR (c_code c AND 0x00FFFFFF))
     @ to_be 4 (c_application_id c)
     @ to_be 4 (c_hop_by_hop_id c)
     @ to_be 4 (c_end_to_end_id c)
     @ concat (map avp_encode (c_avps c))"

definition length_field :: "bytes \<Rightarrow> u32" where
  "length_field data = from_be (slice data 0 4) AND 0x00FFFFFF"

definition command_decode :: "bytes \<Rightarrow> (string, command) outcome" where
  "command_decode data =
     (if length data < 20 then Err ''Data too short for Diameter header''
      else let len = unat (length_field data) in
        if length data < len then Err ''Data length mismatch''
        else
          (case decode_loop data len 20 [] of
             Ok avps \<Rightarrow> Ok (command_new (from_be (slice data 4 8) AND 0x00FFFFFF) (data ! 4)
               (from_be (slice data 8 12)) (from_be (slice data 12 16)) (from_be (slice data 16 20)) avps)
           | Err (offset, e) \<Rightarrow>
               Err (''Failed to decode AVP at offset '' @ show_nat offset @ '': '' @ e)
           | Panic \<Rightarrow> Panic))"

section \<open>The command buffer\<close>

text \<open>\<open>CommandBuffer\<close> holds the bytes received and not yet consumed.\<close>

type_synonym command_buffer = bytes

definition buffer_append :: "command_buffer \<Rightarrow> bytes \<Rightarrow> command_buffer" where
  "buffer_append buf data = buf @ data"

definition buffer_read_command :: "command_buffer \<Rightarrow> command option \<times> command_buffer" where
  "buffer_read_command buf =
     (if length buf < 20 then (None, buf)
      else let len = unat (length_field buf) in
        if length buf < len then (None, buf)
        else (case command_decode (take len buf) of
                Ok c \<Rightarrow> (Some c, drop len buf)
              | _ \<Rightarrow> (None, drop len buf)))"

lemma buffer_read_command_shrinks:
  "buffer_read_command buf = (Some c, rest) \<Longrightarrow> length rest < length buf"
  by (auto simp: buffer_read_command_def command_decode_def Let_def split: if_splits outcome.splits)

function buffer_read_commands :: "command_buffer \<Rightarrow> command list \<times> command_buffer" where
  "buffer_read_commands buf =
     (case buffer_read_command buf of
        (Some c, rest) \<Rightarrow> (let (cs, rest') = buffer_read_commands rest in (c # cs, rest'))
      | (None, rest) \<Rightarrow> ([], rest))"
  by pat_completeness auto
termination
  by (relation "measure length") (auto dest: buffer_read_command_shrinks [OF sym])

declare buffer_read_commands.simps [simp del]

section \<open>Reading from a stream\<close>

text \<open>
  \<open>read_command\<close> of \<open>command_handler.rs\<close> on the bytes the peer sends before it closes
  the connection: \<open>read_exact\<close> fails when the stream ends early. A length field below four
  makes \<open>message_length as usize - 4\<close> wrap and the allocation panic.
\<close>

datatype read_error = Length_Not_Read | Body_Not_Read | Not_Parsed

definition read_command :: "bytes \<Rightarrow> (read_error, command) outcome \<times> bytes" where
  "read_command stream =
     (if length stream < 4 then (Err Length_Not_Read, [])
      else let message_length = unat (length_field stream); body = drop 4 stream in
        if message_length < 4 then (Panic, body)
        else if length body < message_length - 4 then (Err Body_Not_Read, [])
        else (case buffer_read_command (take 4 stream @ take (message_length - 4) body) of
                (Some c, _) \<Rightarrow> (Ok c, drop (message_length - 4) body)
              | (None, _) \<Rightarrow> (Err Not_Parsed, drop (message_length - 4) body)))"

section \<open>The message round trip\<close>

text \<open>
  Well-formed for the wire: a 24-bit command code, well-formed AVPs, a total length below
  \<open>2 ^ 24\<close>. \<open>command_raw\<close> is what a receiver reconstructs.
\<close>

definition wf_command :: "command \<Rightarrow> bool" where
  "wf_command c \<longleftrightarrow> unat (c_code c) < 2 ^ 24 \<and> list_all wf_avp (c_avps c) \<and> command_length c < 2 ^ 24"

definition command_raw :: "command \<Rightarrow> command" where
  "command_raw c = c\<lparr>c_avps := map avp_raw (c_avps c)\<rparr>"

lemma mask24: "(w :: u32) AND 0x00FFFFFF = take_bit 24 w"
  by (simp add: take_bit_eq_mask mask_eq_exp_minus_1)

lemma length_encoded_avps:
  "list_all wf_avp avps \<Longrightarrow> length (concat (map avp_encode avps))
     = sum_list (map (\<lambda>a. unat (total_length_including_padding a)) avps)"
  by (induction avps) (simp_all add: avp_encode_length(1))

lemma length_command_encode [wire_len]:
  "list_all wf_avp (c_avps c) \<Longrightarrow> length (command_encode c) = command_length c"
  by (simp add: command_encode_def command_length_def length_encoded_avps)

lemma length_field_encode:
  assumes "command_length c < 2 ^ 24"
  shows "unat (length_field (command_encode c @ rest)) = command_length c"
proof -
  have "length_field (command_encode c @ rest)
      = take_bit 24 (0x01000000 OR take_bit 24 (of_nat (command_length c)) :: u32)"
    by (simp add: length_field_def command_encode_def slice_prefix mask24)
  also have "\<dots> = of_nat (command_length c)"
    using take_bit_24_small [of "of_nat (command_length c)"] unat_small32 [OF assms] assms by simp
  finally show ?thesis using unat_small32 [OF assms] by simp
qed

lemma length_field_prefix: "4 \<le> length p \<Longrightarrow> length_field (p @ q) = length_field p"
  by (simp add: length_field_def slice_0)

lemma flags_code_word:
  fixes f :: u8 and c :: u32
  assumes "unat c < 2 ^ 24"
  defines "w \<equiv> push_bit 24 (ucast f) OR (c AND 0x00FFFFFF)"
  shows "to_be 4 w ! 0 = f" "w AND 0x00FFFFFF = c"
proof -
  have c: "c AND 0x00FFFFFF = c" using take_bit_24_small [OF assms(1)] by (simp add: mask24)
  have low: "i < 24" if "bit c i" for i
    using that take_bit_24_small [OF assms(1)] by (metis bit_take_bit_iff)
  show "w AND 0x00FFFFFF = c"
    unfolding w_def c mask24
    by (rule bit_word_eqI) (auto simp: bit_simps dest: low)
  have "to_be 4 w ! 0 = ucast (drop_bit 24 w)" by (simp add: to_be_numeral)
  also have "\<dots> = f"
    unfolding w_def c
    by (rule bit_word_eqI) (auto simp: bit_simps dest: low)
  finally show "to_be 4 w ! 0 = f" .
qed

lemma command_decode_encode:
  assumes "wf_command c"
  shows "command_decode (command_encode c @ rest) = Ok (command_raw c)"
proof -
  let ?data = "command_encode c @ rest"
  let ?w = "push_bit 24 (ucast (c_flags c)) OR (c_code c AND 0x00FFFFFF) :: u32"
  let ?l = "0x01000000 OR (of_nat (command_length c) AND 0x00FFFFFF) :: u32"
  have wf: "list_all wf_avp (c_avps c)" "command_length c < 2 ^ 24" "unat (c_code c) < 2 ^ 24"
    using assms by (simp_all add: wf_command_def)
  have data: "?data = to_be 4 ?l @ to_be 4 ?w @ to_be 4 (c_application_id c) @ to_be 4 (c_hop_by_hop_id c)
      @ to_be 4 (c_end_to_end_id c) @ concat (map avp_encode (c_avps c)) @ rest"
    by (simp add: command_encode_def)
  have len: "unat (length_field ?data) = command_length c" by (rule length_field_encode [OF wf(2)])
  have fits: "command_length c \<le> length ?data" by (simp add: length_command_encode [OF wf(1)])
  have "decode_loop ?data (command_length c) 20 [] = Ok ([] @ map avp_raw (c_avps c))"
    by (rule decode_loop_encoded [where rest = rest])
       (use wf in \<open>simp_all add: list_all_iff command_encode_def command_length_def length_encoded_avps\<close>)
  moreover have "slice ?data 4 8 = to_be 4 ?w" "slice ?data 8 12 = to_be 4 (c_application_id c)"
    "slice ?data 12 16 = to_be 4 (c_hop_by_hop_id c)" "slice ?data 16 20 = to_be 4 (c_end_to_end_id c)"
    "?data ! 4 = to_be 4 ?w ! 0"
    unfolding data by (simp_all add: slice_prefix nth_append)
  moreover have "20 \<le> length ?data" unfolding data by simp
  ultimately show ?thesis
    using fits flags_code_word [OF wf(3), of "c_flags c"]
    by (simp add: command_decode_def Let_def len command_raw_def command_new_def not_less)
qed

lemma buffer_read_encoded:
  assumes "wf_command c"
  shows "buffer_read_command (command_encode c @ rest) = (Some (command_raw c), rest)"
proof -
  have len: "unat (length_field (command_encode c @ rest)) = command_length c"
    and l: "length (command_encode c) = command_length c"
    using assms by (simp_all add: wf_command_def length_field_encode length_command_encode)
  have "20 \<le> command_length c" by (simp add: command_length_def)
  then show ?thesis
    using command_decode_encode [OF assms, of "[]"] l
    by (simp add: buffer_read_command_def Let_def len)
qed

lemma buffer_read_partial:
  assumes "wf_command c" and "strict_prefix p (command_encode c)"
  shows "buffer_read_command p = (None, p)"
proof -
  obtain q where q: "command_encode c = p @ q" "q \<noteq> []"
    using assms(2) by (auto elim: strict_prefixE')
  have "length (command_encode c) = command_length c"
    using assms(1) by (simp add: wf_command_def length_command_encode)
  then have "length p < command_length c" using q by (cases q) simp_all
  moreover have "unat (length_field p) = command_length c" if "20 \<le> length p"
    using length_field_encode [of c "[]"] assms(1) q that length_field_prefix [of p q]
    by (simp add: wf_command_def)
  ultimately show ?thesis by (simp add: buffer_read_command_def Let_def)
qed

section \<open>Reassembly of a stream\<close>

text \<open>
  The contract between a transport that delivers bytes in arbitrary chunks and a framed buffer:
  \<open>take1\<close> removes one complete message, leaves an incomplete one alone, and
  \<open>take_all\<close> repeats it. The client appends a chunk and drains the buffer, chunk by chunk.
\<close>

locale framed_stream =
  fixes take1 :: "'b list \<Rightarrow> 'm option \<times> 'b list"
    and take_all :: "'b list \<Rightarrow> 'm list \<times> 'b list"
    and enc :: "'c \<Rightarrow> 'b list" and view :: "'c \<Rightarrow> 'm" and valid :: "'c \<Rightarrow> bool"
  assumes take1_complete: "valid c \<Longrightarrow> take1 (enc c @ rest) = (Some (view c), rest)"
    and take1_partial: "valid c \<Longrightarrow> strict_prefix p (enc c) \<Longrightarrow> take1 p = (None, p)"
    and take1_empty: "take1 [] = (None, [])"
    and enc_nonempty: "valid c \<Longrightarrow> enc c \<noteq> []"
    and take_all_step: "take_all buf = (case take1 buf of
          (Some m, rest) \<Rightarrow> (let (ms, rest') = take_all rest in (m # ms, rest'))
        | (None, rest) \<Rightarrow> ([], rest))"
begin

text \<open>The bytes that may be left in the buffer between two chunks.\<close>

definition pending :: "'b list \<Rightarrow> 'c list \<Rightarrow> bool" where
  "pending p cs = (case cs of [] \<Rightarrow> p = [] | c # _ \<Rightarrow> strict_prefix p (enc c))"

primrec drain :: "'b list \<Rightarrow> 'b list list \<Rightarrow> 'm list \<times> 'b list" where
  "drain buf [] = ([], buf)"
| "drain buf (chunk # chunks) =
     (let (ms, buf') = take_all (buf @ chunk); (ms', buf'') = drain buf' chunks in (ms @ ms', buf''))"

lemma take_all_encoded:
  assumes "\<forall>c\<in>set cs. valid c" and "pending p ds" and "\<forall>c\<in>set ds. valid c"
  shows "take_all (concat (map enc cs) @ p) = (map view cs, p)"
  using assms(1)
proof (induction cs)
  case Nil
  have "take1 p = (None, p)"
    using assms(2,3) take1_partial take1_empty by (auto simp: pending_def split: list.splits)
  then show ?case by (subst take_all_step) simp
next
  case (Cons c cs)
  then show ?case by (subst take_all_step) (simp add: take1_complete)
qed

lemma prefix_of_stream:
  assumes "prefix xs (concat (map enc cs))" and "\<forall>c\<in>set cs. valid c"
  shows "\<exists>as bs p. cs = as @ bs \<and> xs = concat (map enc as) @ p \<and> pending p bs"
  using assms
proof (induction cs arbitrary: xs)
  case Nil
  then show ?case by (auto simp: pending_def)
next
  case (Cons c cs)
  consider (inside) "strict_prefix xs (enc c)"
    | (past) ys where "xs = enc c @ ys" "prefix ys (concat (map enc cs))"
    using Cons.prems(1) by (cases "xs = enc c") (auto simp: prefix_append strict_prefix_def)
  then show ?case
  proof cases
    case inside
    then show ?thesis by (intro exI [of _ "[]"] exI [of _ "c # cs"] exI [of _ xs]) (simp add: pending_def)
  next
    case past
    then obtain as bs p where "cs = as @ bs" "ys = concat (map enc as) @ p" "pending p bs"
      using Cons.IH [of ys] Cons.prems(2) by auto
    then show ?thesis using past(1)
      by (intro exI [of _ "c # as"] exI [of _ bs] exI [of _ p]) simp
  qed
qed

theorem chunking_irrelevant:
  assumes "buf @ concat chunks = concat (map enc cs)" and "\<forall>c\<in>set cs. valid c" and "pending buf cs"
  shows "drain buf chunks = (map view cs, [])"
  using assms
proof (induction chunks arbitrary: buf cs)
  case Nil
  then have "cs = []"
    using enc_nonempty by (cases cs) (auto simp: pending_def strict_prefix_def prefix_def)
  then show ?case using Nil by (simp add: pending_def)
next
  case (Cons chunk chunks)
  have "prefix (buf @ chunk) (concat (map enc cs))"
    using Cons.prems(1) by (metis append.assoc concat.simps(2) prefixI)
  then obtain as bs p where cs: "cs = as @ bs" and b: "buf @ chunk = concat (map enc as) @ p"
    and p: "pending p bs"
    using prefix_of_stream Cons.prems(2) by blast
  have "take_all (buf @ chunk) = (map view as, p)"
    unfolding b using Cons.prems(2) cs p by (intro take_all_encoded [of _ _ bs]) auto
  moreover have "p @ concat chunks = concat (map enc bs)"
    using Cons.prems(1) b cs by (simp flip: append_assoc) (simp add: append_assoc)
  ultimately show ?case
    using Cons.IH [of p bs] Cons.prems(2) cs p by simp
qed

end

interpretation command_stream: framed_stream
  buffer_read_command buffer_read_commands command_encode command_raw wf_command
proof
  show "buffer_read_command [] = (None, [])" by (simp add: buffer_read_command_def)
  show "command_encode c \<noteq> []" for c by (simp add: command_encode_def to_be_numeral)
  show "buffer_read_commands buf = (case buffer_read_command buf of
          (Some m, rest) \<Rightarrow> (let (ms, rest') = buffer_read_commands rest in (m # ms, rest'))
        | (None, rest) \<Rightarrow> ([], rest))" for buf
    by (rule buffer_read_commands.simps)
qed (simp_all add: buffer_read_encoded buffer_read_partial)

text \<open>What a receiver does with the chunks of a connection: append, then drain.\<close>

primrec receive_chunks :: "command_buffer \<Rightarrow> bytes list \<Rightarrow> command list \<times> command_buffer" where
  "receive_chunks buf [] = ([], buf)"
| "receive_chunks buf (chunk # chunks) =
     (let (cs, buf') = buffer_read_commands (buffer_append buf chunk);
          (cs', buf'') = receive_chunks buf' chunks in (cs @ cs', buf''))"

lemma pending_start: "\<forall>c\<in>set cs. wf_command c \<Longrightarrow> command_stream.pending [] cs"
  using command_stream.enc_nonempty
  by (cases cs) (simp_all add: command_stream.pending_def prefix_bot.bot_less)

lemma receive_chunks_drain: "receive_chunks buf chunks = command_stream.drain buf chunks"
  by (induction chunks arbitrary: buf) (simp_all add: buffer_append_def)

lemma read_command_encoded:
  assumes "wf_command c"
  shows "read_command (command_encode c @ rest) = (Ok (command_raw c), rest)"
proof -
  have len: "unat (length_field (command_encode c @ rest)) = command_length c"
    and l: "length (command_encode c) = command_length c" and ge: "20 \<le> command_length c"
    using assms by (simp_all add: wf_command_def length_field_encode length_command_encode)
      (simp add: command_length_def)
  let ?s = "command_encode c @ rest" and ?n = "command_length c"
  have "take 4 ?s @ take (?n - 4) (drop 4 ?s) = take ?n ?s"
    using take_add [of 4 "?n - 4" ?s] ge by simp
  then have "take 4 ?s @ take (?n - 4) (drop 4 ?s) = command_encode c" using l by simp
  moreover have "drop (?n - 4) (drop 4 ?s) = rest" using l ge by simp
  ultimately show ?thesis
    using buffer_read_encoded [OF assms, of "[]"] l ge
    by (simp add: read_command_def Let_def len del: drop_append take_append drop_drop)
qed

lemma read_command_truncated:
  assumes "wf_command c" and "n < length (command_encode c)"
  shows "\<exists>e. read_command (take n (command_encode c)) = (Err e, [])"
proof -
  let ?p = "take n (command_encode c)"
  have "length (command_encode c) = command_length c"
    using assms(1) by (simp add: wf_command_def length_command_encode)
  then have p: "length ?p = n" "n < command_length c" using assms(2) by simp_all
  have "unat (length_field ?p) = command_length c" if "4 \<le> n"
    using length_field_encode [of c "[]"] assms(1) that p(1)
      length_field_prefix [of ?p "drop n (command_encode c)"] by (simp add: wf_command_def)
  moreover have "20 \<le> command_length c" by (simp add: command_length_def)
  ultimately show ?thesis using p by (auto simp: read_command_def Let_def)
qed

section \<open>Header accessors\<close>

lemma find_set_or_push_same:
  "(\<And>a. a_code (upd a) = a_code a) \<Longrightarrow> a_code fresh = code \<Longrightarrow>
   find (\<lambda>a. a_code a = code) (set_or_push code upd fresh as)
   = Some (case find (\<lambda>a. a_code a = code) as of Some a \<Rightarrow> upd a | None \<Rightarrow> fresh)"
  by (induction as) auto

lemma find_set_or_push_other:
  "(\<And>a. a_code (upd a) = a_code a) \<Longrightarrow> a_code fresh = code \<Longrightarrow> k \<noteq> code \<Longrightarrow>
   find (\<lambda>a. a_code a = k) (set_or_push code upd fresh as) = find (\<lambda>a. a_code a = k) as"
  by (induction as) auto

lemma codes_set_or_push:
  "(\<And>a. a_code (upd a) = a_code a) \<Longrightarrow> a_code fresh = code \<Longrightarrow>
   map a_code (set_or_push code upd fresh as)
   = map a_code as @ (if code \<in> a_code ` set as then [] else [code])"
  by (induction as) auto

lemma set_data_code [simp]: "a_code (set_data a bs) = a_code a"
  by (cases a) simp

lemma set_data_data [simp]: "a_data (set_data a bs) = Some bs"
  by (cases a) simp

text \<open>
  An accessor pair for one header AVP: the setter changes the first AVP with the code or pushes a
  fresh one, the getter reads the first. The five pairs of \<open>Command\<close> share the contract.
\<close>

locale header_avp =
  fixes code :: u32 and getter :: "command \<Rightarrow> 'v option" and setter :: "command \<Rightarrow> 'v \<Rightarrow> command"
    and dec :: "avp \<Rightarrow> 'v option" and enc :: "'v \<Rightarrow> bytes" and ok :: "'v \<Rightarrow> bool"
  assumes getter_find: "getter c = Option.bind (get_avp c code) dec"
    and setter_push: "setter c x = c\<lparr>c_avps :=
          set_or_push code (\<lambda>a. set_data a (enc x)) (avp_new code 0x40 None (enc x)) (c_avps c)\<rparr>"
    and dec_data: "ok x \<Longrightarrow> a_data a = Some (enc x) \<Longrightarrow> dec a = Some x"
begin

lemma get_set: "ok x \<Longrightarrow> getter (setter c x) = Some x"
  by (simp add: getter_find setter_push get_avp_def find_set_or_push_same dec_data
      split: option.splits)

lemma get_avp_other: "k \<noteq> code \<Longrightarrow> get_avp (setter c x) k = get_avp c k"
  by (simp add: setter_push get_avp_def find_set_or_push_other)

lemma codes: "map a_code (c_avps (setter c x))
    = map a_code (c_avps c) @ (if code \<in> a_code ` set (c_avps c) then [] else [code])"
  by (simp add: setter_push codes_set_or_push)

lemma header: "c_code (setter c x) = c_code c" "c_flags (setter c x) = c_flags c"
  "c_application_id (setter c x) = c_application_id c"
  "c_hop_by_hop_id (setter c x) = c_hop_by_hop_id c" "c_end_to_end_id (setter c x) = c_end_to_end_id c"
  by (simp_all add: setter_push)

end

lemmas header_defs =
  get_result_code_def set_result_code_def get_origin_host_def set_origin_host_def
  get_origin_realm_def set_origin_realm_def get_destination_host_def set_destination_host_def
  get_destination_realm_def set_destination_realm_def set_unsigned32_def set_utf8_string_def
  from_unsigned32_def from_utf8_string_def

interpretation result_code: header_avp 268 get_result_code set_result_code as_unsigned32 "to_be 4" "\<lambda>_. True"
  by unfold_locales (simp_all add: header_defs unsigned32.get_Some_iff)

interpretation origin_host: header_avp 264 get_origin_host set_origin_host as_utf8_string as_bytes rust_string
  by unfold_locales (simp_all add: header_defs as_utf8_string_def)

interpretation origin_realm: header_avp 296 get_origin_realm set_origin_realm as_utf8_string as_bytes rust_string
  by unfold_locales (simp_all add: header_defs as_utf8_string_def)

interpretation destination_host: header_avp 293 get_destination_host set_destination_host as_utf8_string as_bytes rust_string
  by unfold_locales (simp_all add: header_defs as_utf8_string_def)

interpretation destination_realm: header_avp 283 get_destination_realm set_destination_realm as_utf8_string as_bytes rust_string
  by unfold_locales (simp_all add: header_defs as_utf8_string_def)

lemmas header_kept [simp] =
  result_code.header origin_host.header origin_realm.header destination_host.header destination_realm.header

lemma as_utf8_rust_string: "as_utf8_string a = Some s \<Longrightarrow> rust_string s"
  by (auto simp: as_utf8_string_def from_utf8_Some rust_string_def split: option.splits)

lemma get_destination_rust_string:
  "get_destination_host c = Some h \<Longrightarrow> rust_string h" "get_destination_realm c = Some r \<Longrightarrow> rust_string r"
  by (auto simp: get_destination_host_def get_destination_realm_def Option.bind_eq_Some_conv
      dest: as_utf8_rust_string)

lemma get_origin_realm_set_host [simp]: "get_origin_realm (set_origin_host c h) = get_origin_realm c"
  by (simp add: get_origin_realm_def origin_host.get_avp_other)

lemma get_origin_host_set_realm [simp]: "get_origin_host (set_origin_realm c r) = get_origin_host c"
  by (simp add: get_origin_host_def origin_realm.get_avp_other)

lemma get_origin_host_set_result: "get_origin_host (set_result_code c r) = get_origin_host c"
  by (simp add: get_origin_host_def result_code.get_avp_other)

lemma get_destination_realm_set_host:
  "get_destination_realm (set_destination_host c h) = get_destination_realm c"
  by (simp add: get_destination_realm_def destination_host.get_avp_other)

lemma get_destination_host_set_realm:
  "get_destination_host (set_destination_realm c r) = get_destination_host c"
  by (simp add: get_destination_host_def destination_realm.get_avp_other)

lemma create_response_header [simp]:
  "c_code (create_response c) = c_code c" "c_flags (create_response c) = c_flags c AND 0x7F"
  "c_application_id (create_response c) = c_application_id c"
  "c_hop_by_hop_id (create_response c) = c_hop_by_hop_id c"
  "c_end_to_end_id (create_response c) = c_end_to_end_id c"
  by (simp_all add: create_response_def Let_def command_new_def split: option.splits)

lemma create_response_is_answer: "is_answer (create_response c)"
  by (simp add: is_answer_def is_request_def vendor_flag_clear)

lemma create_response_origin:
  "get_origin_host (create_response c) = get_destination_host c"
  "get_origin_realm (create_response c) = get_destination_realm c"
proof -
  note no_avps = get_origin_host_def get_origin_realm_def get_avp_def command_new_def
  show "get_origin_host (create_response c) = get_destination_host c"
    "get_origin_realm (create_response c) = get_destination_realm c"
    using get_destination_rust_string [of c]
    by (auto simp: create_response_def Let_def origin_host.get_set origin_realm.get_set split: option.splits)
       (simp_all add: no_avps)
qed

lemma single_flag: "(f :: u8) AND 2 ^ n = (if bit f n then 2 ^ n else 0)"
  by (rule bit_word_eqI) (auto simp: bit_and_iff bit_exp_iff)

lemma flag_bits:
  fixes f :: u8
  shows "f AND 0x80 = (if bit f 7 then 0x80 else 0)" "f AND 0x40 = (if bit f 6 then 0x40 else 0)"
    "f AND 0x20 = (if bit f 5 then 0x20 else 0)" "f AND 0x10 = (if bit f 4 then 0x10 else 0)"
  using single_flag [of f 7] single_flag [of f 6] single_flag [of f 5] single_flag [of f 4]
  by simp_all

lemma flag_nibble:
  fixes f :: u8
  shows "f AND 0xF0 = (if bit f 7 then 0x80 else 0) OR (if bit f 6 then 0x40 else 0)
     OR (if bit f 5 then 0x20 else 0) OR (if bit f 4 then 0x10 else 0)"
proof -
  have "(0xF0 :: u8) = 0x80 OR 0x40 OR 0x20 OR 0x10" by simp
  then have "f AND 0xF0 = f AND 0x80 OR f AND 0x40 OR f AND 0x20 OR f AND 0x10"
    by (simp only: bit.conj_disj_distrib)
  then show ?thesis by (simp only: flag_bits)
qed

lemma flag_of_letter:
  "flag_of_char (lower_char CHR ''R'') = Some FlagRequest" "flag_of_char (lower_char CHR ''P'') = Some FlagProxiable"
  "flag_of_char (lower_char CHR ''E'') = Some FlagError"
  "flag_of_char (lower_char CHR ''T'') = Some FlagPotentiallyRetransmitted"
  by code_simp+

lemma u8_from_letters:
  "u8_from_str ((if r then ''R'' else []) @ (if p then ''P'' else []) @ (if e then ''E'' else [])
       @ (if t then ''T'' else []))
   = (let w = (if r then 0x80 else 0) OR (if p then 0x40 else 0)
       OR (if e then 0x20 else 0) OR (if t then 0x10 else 0) in if w = 0 then None else Some w)"
  by (cases r; cases p; cases e; cases t)
     (simp_all add: u8_from_str_def to_lowercase_def flag_of_letter)

lemma u8_from_str_from_u8:
  "u8_from_str (str_from_u8 f) = (if f AND 0xF0 = 0 then None else Some (f AND 0xF0))"
proof -
  have "str_from_u8 f = (if bit f 7 then ''R'' else []) @ (if bit f 6 then ''P'' else [])
      @ (if bit f 5 then ''E'' else []) @ (if bit f 4 then ''T'' else [])"
    by (simp add: str_from_u8_def flag_bits)
  then show ?thesis by (simp only: u8_from_letters flag_nibble Let_def)
qed

section \<open>Properties\<close>

text \<open>C3. A command survives the wire: decoding an encoded command gives its header fields and its
  AVPs, and the length announced in the header is the number of bytes sent.\<close>

theorem command_roundtrip:
  assumes "wf_command c"
  shows "command_decode (command_encode c) = Ok (command_raw c)
         \<and> length (command_encode c) = unat (length_field (command_encode c))"
  using command_decode_encode [OF assms, of "[]"] assms length_field_encode [of c "[]"]
  by (simp add: wf_command_def length_command_encode)

theorem command_roundtrip_witness:
  "let c = command_new 280 0x80 0 1 2 [from_utf8_string 264 0x40 None ''dra''] in
     command_decode (command_encode c) = Ok c"
proof -
  let ?a = "from_utf8_string 264 0x40 None ''dra''"
  have "wf_avp ?a" unfolding from_utf8_string_def by (rule wf_avp_new) simp
  then have "wf_command (command_new 280 0x80 0 1 2 [?a])"
    by (simp add: wf_command_def command_new_def command_length_def total_length_including_padding_def
        from_utf8_string_def avp_new_def pad4_def)
  then show ?thesis
    using command_roundtrip [of "command_new 280 0x80 0 1 2 [?a]"]
    by (simp add: Let_def command_raw_def command_new_def from_utf8_string_def)
qed

text \<open>C1. However the transport cuts a stream of commands into chunks, a receiver that appends each
  chunk and drains the buffer gets exactly the commands that were sent, in order, and ends with
  an empty buffer.\<close>

theorem stream_reassembly:
  assumes "\<forall>c\<in>set cs. wf_command c" and "concat chunks = concat (map command_encode cs)"
  shows "receive_chunks [] chunks = (map command_raw cs, [])"
  unfolding receive_chunks_drain using assms pending_start [OF assms(1)]
  by (intro command_stream.chunking_irrelevant) simp_all

theorem stream_reassembly_witness:
  "let c = command_new 280 0x80 0 1 2 []; bs = command_encode c in
     receive_chunks [] [take 3 bs, drop 3 bs @ take 7 bs, drop 7 bs] = ([c, c], [])"
proof -
  let ?c = "command_new 280 0x80 0 1 2 []"
  let ?bs = "command_encode ?c"
  have "wf_command ?c" by (simp add: wf_command_def command_new_def command_length_def)
  moreover have "concat [take 3 ?bs, drop 3 ?bs @ take 7 ?bs, drop 7 ?bs] = concat (map command_encode [?c, ?c])"
    by (simp flip: append_assoc) (simp add: append_assoc)
  ultimately show ?thesis
    using stream_reassembly [of "[?c, ?c]" "[take 3 ?bs, drop 3 ?bs @ take 7 ?bs, drop 7 ?bs]"]
    unfolding Let_def by (simp add: command_raw_def command_new_def del: receive_chunks.simps)
qed

text \<open>C26. A frame whose length field is zero blocks the connection for good: nothing is consumed,
  and no command that arrives later is ever delivered.\<close>

theorem zero_length_frame_blocks:
  assumes "20 \<le> length buf" and "length_field buf = 0"
  shows "receive_chunks buf chunks = ([], buf @ concat chunks)"
  using assms
proof (induction chunks arbitrary: buf)
  case Nil
  then show ?case by simp
next
  case (Cons chunk chunks)
  have l: "20 \<le> length (buf @ chunk)" "length_field (buf @ chunk) = 0"
    using Cons.prems length_field_prefix [of buf chunk] by simp_all
  then have "buffer_read_command (buf @ chunk) = (None, buf @ chunk)"
    by (simp add: buffer_read_command_def command_decode_def)
  then have "buffer_read_commands (buf @ chunk) = ([], buf @ chunk)"
    by (subst buffer_read_commands.simps) simp
  then show ?case using Cons.IH [OF l] by (simp add: buffer_append_def)
qed

theorem zero_length_frame_blocks_witness:
  "let c = command_encode (command_new 280 0x80 0 1 2 []) in
     receive_chunks (replicate 20 0) [c, c] = ([], replicate 20 0 @ c @ c)"
proof -
  have "length_field (replicate 20 0) = 0" by code_simp
  then show ?thesis
    using zero_length_frame_blocks [of "replicate 20 0"] by (simp add: Let_def del: receive_chunks.simps)
qed

text \<open>Reading a command off a TCP stream returns it and leaves the rest of the stream
  untouched; a stream that ends inside the command gives an error, never a command.\<close>

theorem read_command_sequence:
  assumes "wf_command c"
  shows "read_command (command_encode c @ rest) = (Ok (command_raw c), rest)
         \<and> list_all (\<lambda>n. \<exists>e. read_command (take n (command_encode c)) = (Err e, []))
             [0..<length (command_encode c)]"
  using read_command_encoded [OF assms] read_command_truncated [OF assms] by (simp add: list_all_iff)

theorem read_command_sequence_witness:
  "let c = command_new 257 0x80 0 1 2 [] in read_command (command_encode c @ [7, 7]) = (Ok c, [7, 7])"
proof -
  have "wf_command (command_new 257 0x80 0 1 2 [])"
    by (simp add: wf_command_def command_new_def command_length_def)
  then show ?thesis
    using read_command_sequence [of "command_new 257 0x80 0 1 2 []" "[7, 7]"]
    by (simp add: Let_def command_raw_def command_new_def)
qed

text \<open>\<open>read_command\<close> panics exactly when a peer announces a length below four.\<close>

theorem read_command_panics:
  "fst (read_command stream) = Panic \<longleftrightarrow> 4 \<le> length stream \<and> unat (length_field stream) < 4"
  by (auto simp: read_command_def Let_def split: prod.splits option.splits)

text \<open>\<open>Command::decode\<close> is total: on any bytes it returns a command or an error; the
  command has a 24-bit code, the flags octet of the header, and only well-formed AVPs.\<close>

theorem command_decode_total:
  "(\<exists>e. command_decode data = Err e) \<or>
   (\<exists>c. command_decode data = Ok c \<and> unat (c_code c) < 2 ^ 24 \<and> c_flags c = data ! 4
        \<and> list_all wf_avp (c_avps c))"
proof (cases "decode_loop data (unat (length_field data)) 20 []")
  case (Ok avps)
  have "unat (take_bit 24 w) < 2 ^ 24" for w :: u32
    unfolding unsigned_take_bit_eq by (rule take_bit_nat_less_exp)
  moreover have "list_all wf_avp avps" using decode_loop_wf [OF Ok] by (simp add: list_all_iff)
  ultimately show ?thesis
    using Ok by (auto simp: command_decode_def Let_def mask24 command_new_def)
qed (auto simp: command_decode_def Let_def)

text \<open>Setting a header value makes the getter return it and leaves the other header values
  alone.\<close>

theorem header_accessors:
  assumes "rust_string h"
  shows "get_result_code (set_result_code c r) = Some r
    \<and> get_origin_host (set_origin_host c h) = Some h \<and> get_origin_realm (set_origin_realm c h) = Some h
    \<and> get_destination_host (set_destination_host c h) = Some h
    \<and> get_destination_realm (set_destination_realm c h) = Some h
    \<and> get_origin_host (set_result_code c r) = get_origin_host c
    \<and> get_destination_realm (set_destination_host c h) = get_destination_realm c
    \<and> get_destination_host (set_destination_realm c h) = get_destination_host c"
  using assms
  by (simp add: result_code.get_set origin_host.get_set origin_realm.get_set destination_host.get_set
      destination_realm.get_set get_origin_host_set_result get_destination_realm_set_host
      get_destination_host_set_realm)

theorem header_accessors_witness:
  "get_origin_host (set_origin_host (command_new 280 0x80 0 1 2 []) ''a'') = Some ''a''"
proof -
  have "rust_string ''a''" by (rule ascii_rust_string) (simp add: ascii_def byte_of_char_def)
  then show ?thesis using header_accessors by blast
qed

text \<open>The answer to a request carries its command code, application and identifiers, has the
  Request bit cleared and the other flags kept, and its origin is the request's destination.\<close>

theorem create_response_correct:
  "is_answer (create_response c) \<and> c_code (create_response c) = c_code c
   \<and> c_application_id (create_response c) = c_application_id c
   \<and> c_hop_by_hop_id (create_response c) = c_hop_by_hop_id c
   \<and> c_end_to_end_id (create_response c) = c_end_to_end_id c
   \<and> c_flags (create_response c) = c_flags c AND 0x7F
   \<and> get_origin_host (create_response c) = get_destination_host c
   \<and> get_origin_realm (create_response c) = get_destination_realm c"
  by (simp add: create_response_is_answer create_response_origin)

text \<open>Route-Record bookkeeping: an added host is found, a removed host is not, and no other
  host's record is affected by either.\<close>

theorem record_route_laws:
  assumes "rust_string h"
  shows "has_record_route (add_record_route c h) g = (g = h \<or> has_record_route c g)
         \<and> has_record_route (remove_record_route c h) g = (g \<noteq> h \<and> has_record_route c g)"
proof -
  have "is_route_record g (from_utf8_string (avp_code_u32 AvpRouteRecord) 0x40 None h) = (g = h)"
    using as_utf8_from_utf8 [OF assms] by (auto simp: is_route_record_def from_utf8_string_def)
  then show ?thesis
    by (auto simp: has_record_route_def add_record_route_def remove_record_route_def list_ex_iff
        is_route_record_def)
qed

theorem record_route_laws_witness:
  "let c = command_new 272 0xC0 4 1 2 [] in
     has_record_route (add_record_route c ''a'') ''a'' \<and> \<not> has_record_route (add_record_route c ''a'') ''b''"
proof -
  have "rust_string ''a''" by (rule ascii_rust_string) (simp add: ascii_def byte_of_char_def)
  then show ?thesis
    using record_route_laws [of "''a''" "command_new 272 0xC0 4 1 2 []"]
    by (simp add: Let_def has_record_route_def command_new_def)
qed

text \<open>The flag letters of the JSON form lose nothing but the reserved bits.\<close>

theorem flag_letters_roundtrip:
  "u8_from_str (str_from_u8 f) = (if f AND 0xF0 = 0 then None else Some (f AND 0xF0))"
  by (rule u8_from_str_from_u8)

end
