(* ===== verification/Json.thy ===== *)
theory Json
  imports Prelude "HOL-Library.Char_ord" "HOL-Library.List_Lexorder"
begin

text \<open>
  The data types of \<open>serde_json\<close> and \<open>serde_yaml\<close> the program works on, with the
  accessors it calls, as the crates document them. A JSON object is a map that iterates in the
  order of its keys (\<open>serde_json::Map\<close> without the \<open>preserve_order\<close> feature, which
  \<open>Cargo.toml\<close> does not enable): an association list sorted by the bytes of its keys. Numbers
  keep the three documented forms; signed integers and floats are bit patterns. Parsing and
  printing of JSON and YAML text stay outside the model.
\<close>

section \<open>JSON values\<close>

datatype number = PosInt u64 | NegInt u64 | Float u64

datatype json =
  JNull
| JBool bool
| JNumber number
| JString string
| JArray "json list"
| JObject "(string \<times> json) list"

fun number_as_u64 :: "number \<Rightarrow> u64 option" where
  "number_as_u64 (PosInt n) = Some n"
| "number_as_u64 (NegInt n) = None"
| "number_as_u64 (Float x) = None"

fun number_as_i64 :: "number \<Rightarrow> u64 option" where
  "number_as_i64 (PosInt n) = (if n < 0x8000000000000000 then Some n else None)"
| "number_as_i64 (NegInt n) = Some n"
| "number_as_i64 (Float x) = None"

text \<open>\<open>Number::from\<close> of an unsigned and of a signed integer; the sign decides the form.\<close>

definition number_of_u32 :: "u32 \<Rightarrow> number" where
  "number_of_u32 w = PosInt (ucast w)"

definition number_of_i32 :: "u32 \<Rightarrow> number" where
  "number_of_i32 w = (if sint w < 0 then NegInt (scast w) else PosInt (ucast w))"

definition number_of_i64 :: "u64 \<Rightarrow> number" where
  "number_of_i64 w = (if sint w < 0 then NegInt w else PosInt w)"

text \<open>\<open>Value::from(f64)\<close>: only a finite float is a number, the others become \<open>null\<close>.\<close>

definition f64_finite :: "u64 \<Rightarrow> bool" where
  "f64_finite x = (drop_bit 52 x AND 0x7FF \<noteq> 0x7FF)"

definition f32_finite :: "u32 \<Rightarrow> bool" where
  "f32_finite x = (drop_bit 23 x AND 0xFF \<noteq> 0xFF)"

definition json_of_f64 :: "u64 \<Rightarrow> json" where
  "json_of_f64 x = (if f64_finite x then JNumber (Float x) else JNull)"

fun json_of_option :: "('a \<Rightarrow> json) \<Rightarrow> 'a option \<Rightarrow> json" where
  "json_of_option f (Some x) = f x"
| "json_of_option f None = JNull"

fun as_str :: "json \<Rightarrow> string option" where
  "as_str (JString s) = Some s"
| "as_str _ = None"

fun as_u64 :: "json \<Rightarrow> u64 option" where
  "as_u64 (JNumber n) = number_as_u64 n"
| "as_u64 _ = None"

fun as_bool :: "json \<Rightarrow> bool option" where
  "as_bool (JBool b) = Some b"
| "as_bool _ = None"

fun as_object :: "json \<Rightarrow> (string \<times> json) list option" where
  "as_object (JObject m) = Some m"
| "as_object _ = None"

fun is_array :: "json \<Rightarrow> bool" where
  "is_array (JArray xs) = True"
| "is_array _ = False"

text \<open>The forms of a number that survive a conversion to 32 bits and back.\<close>

fun number_fits_u32 :: "number \<Rightarrow> bool" where
  "number_fits_u32 (PosInt u) = (unat u < 2 ^ 32)"
| "number_fits_u32 _ = False"

fun number_fits_i32 :: "number \<Rightarrow> bool" where
  "number_fits_i32 (PosInt u) = (unat u < 2 ^ 31)"
| "number_fits_i32 (NegInt i) = (- (2 ^ 31) \<le> sint i \<and> sint i < 0)"
| "number_fits_i32 (Float x) = False"

fun number_fits_i64 :: "number \<Rightarrow> bool" where
  "number_fits_i64 (PosInt u) = (unat u < 2 ^ 63)"
| "number_fits_i64 (NegInt i) = (sint i < 0)"
| "number_fits_i64 (Float x) = False"

lemma ucast_u32_back: "unat (u :: u64) < 2 ^ 32 \<Longrightarrow> ucast (ucast u :: u32) = u"
  by (rule word_unat_eq_iff [THEN iffD2])
     (simp add: unsigned_ucast_eq unsigned_take_bit_eq take_bit_nat_eq_self)

lemma number_u32_roundtrip:
  "number_fits_u32 n \<Longrightarrow> \<exists>u. number_as_u64 n = Some u \<and> number_of_u32 (ucast u) = n"
  by (cases n) (simp_all add: number_of_u32_def ucast_u32_back)

lemma sint_ucast_u32:
  assumes "- (2 ^ 31) \<le> sint (i :: u64)" and "sint i < 2 ^ 31"
  shows "sint (ucast i :: u32) = sint i"
proof -
  have "uint i = take_bit 64 (sint i)" by (simp add: uint_sint)
  then have "sint (ucast i :: u32) = signed_take_bit 31 (sint i)"
    by (simp add: signed_ucast_eq signed_take_bit_take_bit)
  also have "\<dots> = sint i" using assms by (simp add: signed_take_bit_int_eq_self)
  finally show ?thesis .
qed

lemma uint_ge_neg: "- (2 ^ k) \<le> uint (u :: u64)"
  by (rule order_trans [OF _ uint_ge_0]) simp

lemma sint_small:
  assumes "unat (u :: u64) < 2 ^ k" and "k \<le> 63"
  shows "sint u = uint u" "0 \<le> uint u" "uint u < 2 ^ k"
proof -
  show less: "uint u < 2 ^ k"
    using assms(1) by (metis of_nat_less_iff of_nat_numeral of_nat_power uint_nat)
  show ge: "0 \<le> uint u" by (rule uint_ge_0)
  have "uint u < 2 ^ 63" using less power_increasing [OF assms(2), of "2 :: int"] by linarith
  then have "signed_take_bit (LENGTH(64) - 1) (uint u) = uint u"
    by (intro signed_take_bit_int_eq_self uint_ge_neg) simp
  then show "sint u = uint u" by (simp only: sint_uint One_nat_def)
qed

lemma number_i32_roundtrip:
  assumes "number_fits_i32 n"
  shows "\<exists>i. number_as_i64 n = Some i \<and> number_of_i32 (ucast i) = n"
proof (cases n)
  case (PosInt u)
  then have u: "unat u < 2 ^ 31" using assms by simp
  note s = sint_small [OF u]
  have "sint (ucast u :: u32) = sint u" by (rule sint_ucast_u32) (simp_all only: s(1) uint_ge_neg, use s(3) in simp)
  then have "\<not> sint (ucast u :: u32) < 0" using s by simp
  moreover have "u < 0x8000000000000000" using u by (simp add: word_less_nat_alt)
  ultimately show ?thesis using PosInt u ucast_u32_back [of u] by (simp add: number_of_i32_def)
next
  case (NegInt i)
  then have "sint (ucast i :: u32) = sint i" "sint i < 0" using assms sint_ucast_u32 [of i] by simp_all
  moreover have "(scast (ucast i :: u32) :: u64) = i"
    unfolding scast_eq calculation(1) by simp
  ultimately show ?thesis using NegInt by (simp add: number_of_i32_def)
qed (use assms in simp)

lemma number_i64_roundtrip:
  assumes "number_fits_i64 n"
  shows "\<exists>i. number_as_i64 n = Some i \<and> number_of_i64 i = n"
proof (cases n)
  case (PosInt u)
  then have u: "unat u < 2 ^ 63" using assms by simp
  then have "u < 0x8000000000000000" by (simp add: word_less_nat_alt)
  moreover have "\<not> sint u < 0" using sint_small [OF u] by simp
  ultimately show ?thesis using PosInt by (simp add: number_of_i64_def)
qed (use assms in \<open>simp_all add: number_of_i64_def\<close>)

section \<open>Objects\<close>

fun obj_insert :: "string \<Rightarrow> 'v \<Rightarrow> (string \<times> 'v) list \<Rightarrow> (string \<times> 'v) list" where
  "obj_insert k v [] = [(k, v)]"
| "obj_insert k v ((k', v') # m) =
     (if k < k' then (k, v) # (k', v') # m
      else if k = k' then (k, v) # m
      else (k', v') # obj_insert k v m)"

definition obj_get :: "(string \<times> 'v) list \<Rightarrow> string \<Rightarrow> 'v option" where
  "obj_get m k = map_of m k"

text \<open>The invariant of the map: strictly ascending keys.\<close>

definition obj_wf :: "(string \<times> 'v) list \<Rightarrow> bool" where
  "obj_wf m = sorted_wrt (<) (map fst m)"

text \<open>The contract of an ordered map, as the clients of \<open>serde_json::Map\<close> use it.\<close>

locale ordered_map =
  fixes ins :: "string \<Rightarrow> 'v \<Rightarrow> (string \<times> 'v) list \<Rightarrow> (string \<times> 'v) list"
    and get :: "(string \<times> 'v) list \<Rightarrow> string \<Rightarrow> 'v option"
    and inv :: "(string \<times> 'v) list \<Rightarrow> bool"
  assumes inv_empty: "inv []"
    and inv_ins: "inv m \<Longrightarrow> inv (ins k v m)"
    and get_empty: "get [] k = None"
    and get_ins: "inv m \<Longrightarrow> get (ins k v m) k' = (if k' = k then Some v else get m k')"
    and ins_last: "inv (m @ [(k, v)]) \<Longrightarrow> ins k v m = m @ [(k, v)]"
    and inv_prefix: "inv (m @ m') \<Longrightarrow> inv m"
begin

definition of_pairs :: "(string \<times> 'v) list \<Rightarrow> (string \<times> 'v) list" where
  "of_pairs kvs = foldl (\<lambda>m (k, v). ins k v m) [] kvs"

lemma inv_of_pairs: "inv (of_pairs kvs)"
  by (induction kvs rule: rev_induct) (auto simp: of_pairs_def inv_empty inv_ins)

lemma get_of_pairs: "get (of_pairs kvs) k = map_of (rev kvs) k"
proof (induction kvs rule: rev_induct)
  case (snoc kv kvs)
  then show ?case using inv_of_pairs [of kvs]
    by (cases kv) (auto simp: of_pairs_def get_ins)
qed (simp add: of_pairs_def get_empty)

lemma of_pairs_id: "inv kvs \<Longrightarrow> of_pairs kvs = kvs"
proof (induction kvs rule: rev_induct)
  case (snoc kv kvs)
  then have "of_pairs kvs = kvs" using inv_prefix by blast
  then show ?case using snoc.prems by (cases kv) (simp add: of_pairs_def ins_last)
qed (simp add: of_pairs_def)

end

lemma set_obj_insert: "fst ` set (obj_insert k v m) = insert k (fst ` set m)"
  by (induction k v m rule: obj_insert.induct) (auto simp: insert_commute)

lemma obj_wf_Cons: "obj_wf (kv # m) \<longleftrightarrow> (\<forall>k'\<in>fst ` set m. fst kv < k') \<and> obj_wf m"
  by (auto simp: obj_wf_def)

lemma obj_wf_insert: "obj_wf m \<Longrightarrow> obj_wf (obj_insert k v m)"
proof (induction k v m rule: obj_insert.induct)
  case (2 k v k' v' m)
  then show ?case
    by (auto simp: obj_wf_Cons set_obj_insert)
qed (simp add: obj_wf_def)

lemma map_of_none_less: "\<forall>k'\<in>fst ` set m. k < k' \<Longrightarrow> map_of m (k :: string) = None"
  by (metis less_irrefl map_of_eq_None_iff)

lemma obj_get_insert:
  "obj_wf m \<Longrightarrow> obj_get (obj_insert k v m) k' = (if k' = k then Some v else obj_get m k')"
  by (induction k v m rule: obj_insert.induct) (auto simp: obj_get_def obj_wf_Cons)

lemma obj_insert_last: "obj_wf (m @ [(k, v)]) \<Longrightarrow> obj_insert k v m = m @ [(k, v)]"
proof (induction m)
  case (Cons kv m)
  then have "fst kv < k" by (auto simp: obj_wf_Cons)
  with Cons show ?case by (cases kv) (auto simp: obj_wf_Cons)
qed simp

interpretation object: ordered_map obj_insert obj_get obj_wf
proof
  show "obj_wf (m @ m') \<Longrightarrow> obj_wf m" for m m' :: "(string \<times> 'a) list"
    by (simp add: obj_wf_def sorted_wrt_append)
qed (simp_all add: obj_wf_insert obj_get_insert obj_insert_last, simp_all add: obj_wf_def obj_get_def)

section \<open>YAML values\<close>

text \<open>Tags, which the program's files do not use, are not modelled.\<close>

datatype yaml =
  YNull
| YBool bool
| YNumber number
| YString string
| YSequence "yaml list"
| YMapping "(yaml \<times> yaml) list"

fun yaml_get :: "yaml \<Rightarrow> string \<Rightarrow> yaml option" where
  "yaml_get (YMapping m) k = map_of m (YString k)"
| "yaml_get _ k = None"

fun yaml_as_str :: "yaml \<Rightarrow> string option" where
  "yaml_as_str (YString s) = Some s"
| "yaml_as_str _ = None"

fun yaml_as_u64 :: "yaml \<Rightarrow> u64 option" where
  "yaml_as_u64 (YNumber n) = number_as_u64 n"
| "yaml_as_u64 _ = None"

fun yaml_as_bool :: "yaml \<Rightarrow> bool option" where
  "yaml_as_bool (YBool b) = Some b"
| "yaml_as_bool _ = None"

end
