(* ===== verification/Avp_Dict.thy ===== *)
theory Avp_Dict
  imports Avp_Codec Json
begin

text \<open>
  The AVP dictionary of \<open>avp.rs\<close>: AVP types, descriptors, the standard dictionary, the
  lookup map, the YAML loader, and the two translations between an AVP and a JSON name-value
  pair. The lemmas give the lookup laws, the safety of the translation for received AVPs, and the
  round trip from JSON through the wire and back.
\<close>

section \<open>AVP types\<close>

datatype avp_type =
  TAddress
| TEnumerated
| TOctetString
| TTime
| TUTF8String
| TDiameterIdentity
| TDiameterURI
| TIPFilterRule
| TInteger32
| TUnsigned32
| TInteger64
| TUnsigned64
| TFloat32
| TFloat64
| TGrouped

definition avp_type_from :: "string \<Rightarrow> avp_type" where
  "avp_type_from s =
     (let l = to_lowercase s in
      if l = ''address'' then TAddress
      else if l = ''enumerated'' then TEnumerated
      else if l = ''octetstring'' then TOctetString
      else if l = ''time'' then TTime
      else if l = ''utf8string'' then TUTF8String
      else if l = ''diameteridentity'' then TDiameterIdentity
      else if l = ''diameteruri'' then TDiameterURI
      else if l = ''ipfilterrule'' then TIPFilterRule
      else if l = ''integer32'' then TInteger32
      else if l = ''unsigned32'' then TUnsigned32
      else if l = ''integer64'' then TInteger64
      else if l = ''unsigned64'' then TUnsigned64
      else if l = ''float32'' then TFloat32
      else if l = ''float64'' then TFloat64
      else if l = ''grouped'' then TGrouped
      else TOctetString)"

fun string_from_avp_type :: "avp_type \<Rightarrow> string" where
  "string_from_avp_type TAddress = ''Address''"
| "string_from_avp_type TEnumerated = ''Enumerated''"
| "string_from_avp_type TOctetString = ''OctetString''"
| "string_from_avp_type TTime = ''Time''"
| "string_from_avp_type TUTF8String = ''UTF8String''"
| "string_from_avp_type TDiameterIdentity = ''DiameterIdentity''"
| "string_from_avp_type TDiameterURI = ''DiameterURI''"
| "string_from_avp_type TIPFilterRule = ''IPFilterRule''"
| "string_from_avp_type TInteger32 = ''Integer32''"
| "string_from_avp_type TUnsigned32 = ''Unsigned32''"
| "string_from_avp_type TInteger64 = ''Integer64''"
| "string_from_avp_type TUnsigned64 = ''Unsigned64''"
| "string_from_avp_type TFloat32 = ''Float32''"
| "string_from_avp_type TFloat64 = ''Float64''"
| "string_from_avp_type TGrouped = ''Grouped''"

section \<open>Descriptors and the dictionary\<close>

record avp_json =
  j_name :: string
  j_code :: u32
  j_avp_type :: avp_type
  j_mandatory :: bool
  j_vendor_id :: "u32 option"

definition avp_json_new :: "string \<Rightarrow> u32 \<Rightarrow> avp_type \<Rightarrow> bool \<Rightarrow> u32 option \<Rightarrow> avp_json" where
  "avp_json_new name code avp_type mandatory vendor_id =
     \<lparr>j_name = name, j_code = code, j_avp_type = avp_type, j_mandatory = mandatory,
      j_vendor_id = vendor_id\<rparr>"

definition standard_avp_json :: "avp_json list" where
  "standard_avp_json = [
    avp_json_new ''Acct-Interim-Interval'' (avp_code_u32 AvpAcctInterimInterval) TUnsigned32 True None,
    avp_json_new ''Accounting-Realtime-Required'' (avp_code_u32 AvpAccountingRealtimeRequired) TEnumerated True None,
    avp_json_new ''Acct-Multi-Session-Id'' (avp_code_u32 AvpAcctMultiSessionId) TUTF8String True None,
    avp_json_new ''Accounting-Record-Number'' (avp_code_u32 AvpAccountingRecordNumber) TUnsigned32 True None,
    avp_json_new ''Accounting-Record-Type'' (avp_code_u32 AvpAccountingRecordType) TEnumerated True None,
    avp_json_new ''Acct-Session-Id'' (avp_code_u32 AvpAcctSessionId) TUTF8String True None,
    avp_json_new ''Accounting-Sub-Session-Id'' (avp_code_u32 AvpAccountingSubSessionId) TUnsigned64 True None,
    avp_json_new ''Acct-Application-Id'' (avp_code_u32 AvpAcctApplicationId) TUnsigned32 True None,
    avp_json_new ''Auth-Application-Id'' (avp_code_u32 AvpAuthApplicationId) TUnsigned32 True None,
    avp_json_new ''Auth-Request-Type'' (avp_code_u32 AvpAuthRequestType) TEnumerated True None,
    avp_json_new ''Authorization-Lifetime'' (avp_code_u32 AvpAuthorizationLifetime) TUnsigned32 True None,
    avp_json_new ''Auth-Grace-Period'' (avp_code_u32 AvpAuthGracePeriod) TUnsigned32 True None,
    avp_json_new ''Auth-Session-State'' (avp_code_u32 AvpAuthSessionState) TEnumerated True None,
    avp_json_new ''Re-Auth-Request-Type'' (avp_code_u32 AvpReAuthRequestType) TEnumerated True None,
    avp_json_new ''Class'' (avp_code_u32 AvpClass) TOctetString False None,
    avp_json_new ''Destination-Host'' (avp_code_u32 AvpDestinationHost) TDiameterIdentity True None,
    avp_json_new ''Destination-Realm'' (avp_code_u32 AvpDestinationRealm) TDiameterIdentity True None,
    avp_json_new ''Disconnect-Cause'' (avp_code_u32 AvpDisconnectCause) TEnumerated True None,
    avp_json_new ''Error-Message'' (avp_code_u32 AvpErrorMessage) TUTF8String False None,
    avp_json_new ''Error-Reporting-Host'' (avp_code_u32 AvpErrorReportingHost) TDiameterIdentity False None,
    avp_json_new ''Event-Timestamp'' (avp_code_u32 AvpEventTimestamp) TTime True None,
    avp_json_new ''Experimental-Result'' (avp_code_u32 AvpExperimentalResult) TGrouped True None,
    avp_json_new ''Experimental-Result-Code'' (avp_code_u32 AvpExperimentalResultCode) TUnsigned32 True None,
    avp_json_new ''Failed-AVP'' (avp_code_u32 AvpFailedAvp) TGrouped True None,
    avp_json_new ''Firmware-Revision'' (avp_code_u32 AvpFirmwareRevision) TUnsigned32 False None,
    avp_json_new ''Host-IP-Address'' (avp_code_u32 AvpHostIpAddress) TAddress True None,
    avp_json_new ''Inband-Security-Id'' (avp_code_u32 AvpInbandSecurityId) TUnsigned32 True None,
    avp_json_new ''Multi-Round-Time-Out'' (avp_code_u32 AvpMultiRoundTimeOut) TUnsigned32 True None,
    avp_json_new ''Origin-Host'' (avp_code_u32 AvpOriginHost) TDiameterIdentity True None,
    avp_json_new ''Origin-Realm'' (avp_code_u32 AvpOriginRealm) TDiameterIdentity True None,
    avp_json_new ''Origin-State-Id'' (avp_code_u32 AvpOriginStateId) TUnsigned32 True None,
    avp_json_new ''Product-Name'' (avp_code_u32 AvpProductName) TUTF8String False None,
    avp_json_new ''Proxy-Host'' (avp_code_u32 AvpProxyHost) TDiameterIdentity True None,
    avp_json_new ''Proxy-Info'' (avp_code_u32 AvpProxyInfo) TGrouped True None,
    avp_json_new ''Proxy-State'' (avp_code_u32 AvpProxyState) TOctetString True None,
    avp_json_new ''Redirect-Host'' (avp_code_u32 AvpRedirectHost) TDiameterIdentity True None,
    avp_json_new ''Redirect-Host-Usage'' (avp_code_u32 AvpRedirectHostUsage) TEnumerated True None,
    avp_json_new ''Redirect-Max-Cache-Time'' (avp_code_u32 AvpRedirectMaxCacheTime) TUnsigned32 True None,
    avp_json_new ''Result-Code'' (avp_code_u32 AvpResultCode) TUnsigned32 True None,
    avp_json_new ''Route-Record'' (avp_code_u32 AvpRouteRecord) TDiameterIdentity True None,
    avp_json_new ''Session-Id'' (avp_code_u32 AvpSessionId) TUTF8String True None,
    avp_json_new ''Session-Timeout'' (avp_code_u32 AvpSessionTimeout) TUnsigned32 True None,
    avp_json_new ''Session-Binding'' (avp_code_u32 AvpSessionBinding) TUnsigned32 True None,
    avp_json_new ''Session-Server-Failover'' (avp_code_u32 AvpSessionServerFailover) TEnumerated True None,
    avp_json_new ''Supported-Vendor-Id'' (avp_code_u32 AvpSupportedVendorId) TUnsigned32 True None,
    avp_json_new ''Termination-Cause'' (avp_code_u32 AvpTerminationCause) TEnumerated True None,
    avp_json_new ''User-Name'' (avp_code_u32 AvpUserName) TUTF8String True None,
    avp_json_new ''Vendor-Id'' (avp_code_u32 AvpVendorId) TUnsigned32 True None,
    avp_json_new ''Vendor-Specific-Application-Id'' (avp_code_u32 AvpVendorSpecificApplicationId) TGrouped True None]"

record avp_map =
  code_to_avp :: "u32 \<rightharpoonup> avp_json"
  name_to_avp :: "string \<rightharpoonup> avp_json"

definition avp_map_add :: "avp_map \<Rightarrow> avp_json \<Rightarrow> avp_map" where
  "avp_map_add m j =
     m\<lparr>code_to_avp := (code_to_avp m)(j_code j \<mapsto> j), name_to_avp := (name_to_avp m)(j_name j \<mapsto> j)\<rparr>"

definition avp_map_new :: "avp_json list \<Rightarrow> avp_map" where
  "avp_map_new avps =
     foldl avp_map_add (foldl avp_map_add \<lparr>code_to_avp = Map.empty, name_to_avp = Map.empty\<rparr> standard_avp_json)
       avps"

definition avp_get_by_code :: "avp_map \<Rightarrow> u32 \<Rightarrow> avp_json option" where
  "avp_get_by_code m code = code_to_avp m code"

definition avp_get_by_name :: "avp_map \<Rightarrow> string \<Rightarrow> avp_json option" where
  "avp_get_by_name m name = name_to_avp m name"

section \<open>Loading definitions\<close>

definition avp_definition_of_yaml :: "yaml \<Rightarrow> avp_json option" where
  "avp_definition_of_yaml avp =
     (case (Option.bind (yaml_get avp ''name'') yaml_as_str, Option.bind (yaml_get avp ''code'') yaml_as_u64,
            Option.bind (yaml_get avp ''type'') yaml_as_str,
            Option.bind (yaml_get avp ''mandatory'') yaml_as_bool) of
        (Some name, Some code, Some avp_type, Some mandatory) \<Rightarrow>
          Some (avp_json_new name (ucast code) (avp_type_from avp_type) mandatory
                  (map_option ucast (Option.bind (yaml_get avp ''vendor_id'') yaml_as_u64)))
      | _ \<Rightarrow> None)"

definition load_avp_definition_from_yaml :: "yaml \<Rightarrow> (string, avp_json list) outcome" where
  "load_avp_definition_from_yaml y =
     (case y of
        YMapping m \<Rightarrow>
          (case map_of m (YString ''avps'') of
             None \<Rightarrow> Err (''Missing '' @ [CHR 0x27] @ ''avps'' @ [CHR 0x27] @ '' key in YAML'')
           | Some (YSequence avp_list) \<Rightarrow> Ok (List.map_filter avp_definition_of_yaml avp_list)
           | Some _ \<Rightarrow> Err (''Invalid YAML structure: '' @ [CHR 0x27] @ ''avps'' @ [CHR 0x27] @ '' should be a sequence''))
      | _ \<Rightarrow> Err ''Invalid YAML structure'')"

text \<open>
  The files are loaded in order and the first failure ends the load. Finding, reading and parsing
  a file is the parameter \<open>read_yaml\<close>.
\<close>

fun load_avp_definition_from_yaml_files ::
  "(string \<Rightarrow> (string, yaml) outcome) \<Rightarrow> string list \<Rightarrow> (string, avp_json list) outcome" where
  "load_avp_definition_from_yaml_files read_yaml [] = Ok []"
| "load_avp_definition_from_yaml_files read_yaml (f # fs) =
     bind_ok (bind_ok (read_yaml f) load_avp_definition_from_yaml)
       (\<lambda>avps. map_ok (\<lambda>more. avps @ more) (load_avp_definition_from_yaml_files read_yaml fs))"

section \<open>From an AVP to JSON\<close>

text \<open>
  The loop over the members of a group: a member that cannot be named is skipped, a later member
  with the same name replaces an earlier one.
\<close>

fun collect_members ::
  "(string \<times> json) list \<Rightarrow> (unit, string \<times> json) outcome list \<Rightarrow> (unit, (string \<times> json) list) outcome" where
  "collect_members m [] = Ok m"
| "collect_members m (Ok (name, v) # rs) = collect_members (obj_insert name v m) rs"
| "collect_members m (Err e # rs) = collect_members m rs"
| "collect_members m (Panic # rs) = Panic"

fun avp_weight :: "avp \<Rightarrow> nat" where
  "avp_weight (Avp c f v d subs) =
     Suc ((case d of Some bs \<Rightarrow> length bs | None \<Rightarrow> 0) + sum_list (map avp_weight subs))"

lemma avp_weight_flat: "a_data a = Some d \<Longrightarrow> a_sub_avps a = [] \<Longrightarrow> avp_weight a = Suc (length d)"
  by (cases a) simp

lemma decode_loop_weight:
  assumes "decode_loop data limit offset acc = Ok res" and "limit \<le> length data" and "8 \<le> length data"
    and "\<forall>a\<in>set acc. avp_weight a < length data"
  shows "\<forall>a\<in>set res. avp_weight a < length data"
  using assms
proof (induction data limit offset acc rule: decode_loop.induct)
  case (1 data limit offset acc)
  show ?case
  proof (cases "offset + 8 \<le> limit")
    case True
    then obtain a where d: "avp_decode (drop offset data) = Ok a"
      and r: "decode_loop data limit (offset + unat (total_length_including_padding a)) (acc @ [a]) = Ok res"
      using "1.prems"(1) by (subst (asm) decode_loop.simps) (auto split: outcome.splits)
    note ok = avp_decode_Ok [OF d]
    have "hdr_len a \<le> unat (total_length a)" using avp_wire_lengths [OF ok(1)] by linarith
    then have "avp_weight a = Suc (unat (total_length a) - hdr_len a)"
      using avp_weight_flat [OF ok(6,5)] length_slice [OF _ ok(4)] by metis
    also have "\<dots> < length data"
      using ok(2,4) hdr_len_ge [of a] "1.prems"(3) unfolding length_drop by linarith
    finally have "\<forall>b\<in>set (acc @ [a]). avp_weight b < length data" using "1.prems"(4) by auto
    then show ?thesis by (rule "1.IH" [OF True d r "1.prems"(2,3)])
  next
    case False
    then show ?thesis using "1.prems" by (subst (asm) decode_loop.simps) simp
  qed
qed

lemma as_grouped_weight:
  assumes "as_grouped a = Some subs" and "s \<in> set subs"
  shows "avp_weight s < avp_weight a"
proof (cases a)
  case (Avp c f v d ss)
  consider (bytes) bs where "d = Some bs" "decode_loop bs (length bs) 0 [] = Ok subs" "8 \<le> length bs"
    | (members) "d = None" "subs = ss"
    using assms(1) Avp by (auto simp: as_grouped_def is_grouped_def split: option.splits outcome.splits if_splits)
  then show ?thesis
  proof cases
    case bytes
    then show ?thesis using decode_loop_weight [OF bytes(2)] assms(2) Avp by fastforce
  next
    case members
    then have "avp_weight s \<le> sum_list (map avp_weight ss)"
      using assms(2) member_le_sum_list [of "avp_weight s" "map avp_weight ss"] by simp
    then show ?thesis using members Avp by simp
  qed
qed

function avp_to_name_value :: "platform \<Rightarrow> avp_map \<Rightarrow> avp \<Rightarrow> (unit, string \<times> json) outcome" where
  "avp_to_name_value p m a =
     (case avp_get_by_code m (a_code a) of
        None \<Rightarrow>
          (case a_data a of
             None \<Rightarrow> Panic
           | Some d \<Rightarrow> Ok (''AVP-'' @ show_u32 (a_code a), JString (b64_encode p d)))
      | Some j \<Rightarrow>
          (case j_avp_type j of
             TOctetString \<Rightarrow>
               (case a_data a of None \<Rightarrow> Panic | Some d \<Rightarrow> Ok (j_name j, JString (b64_encode p d)))
           | TAddress \<Rightarrow>
               (case as_address p a of Some s \<Rightarrow> Ok (j_name j, JString s) | None \<Rightarrow> Err ())
           | TTime \<Rightarrow>
               (case as_time a of Some t \<Rightarrow> Ok (j_name j, JNumber (number_of_u32 t)) | None \<Rightarrow> Err ())
           | TInteger32 \<Rightarrow> Ok (j_name j, json_of_option (\<lambda>w. JNumber (number_of_i32 w)) (as_integer32 a))
           | TEnumerated \<Rightarrow> Ok (j_name j, json_of_option (\<lambda>w. JNumber (number_of_i32 w)) (as_integer32 a))
           | TUnsigned32 \<Rightarrow> Ok (j_name j, json_of_option (\<lambda>w. JNumber (number_of_u32 w)) (as_unsigned32 a))
           | TInteger64 \<Rightarrow> Ok (j_name j, json_of_option (\<lambda>w. JNumber (number_of_i64 w)) (as_integer64 a))
           | TUnsigned64 \<Rightarrow> Ok (j_name j, json_of_option (\<lambda>w. JNumber (PosInt w)) (as_unsigned64 a))
           | TFloat32 \<Rightarrow>
               Ok (j_name j, json_of_option
                     (\<lambda>x. if f32_finite x then JNumber (Float (f64_of_f32 p x)) else JNull) (as_float32 a))
           | TFloat64 \<Rightarrow> Ok (j_name j, json_of_option json_of_f64 (as_float64 a))
           | TGrouped \<Rightarrow>
               (case as_grouped a of
                  None \<Rightarrow> Err ()
                | Some subs \<Rightarrow>
                    map_ok (\<lambda>obj. (j_name j, JObject obj))
                      (collect_members [] (map (avp_to_name_value p m) subs)))
           | _ \<Rightarrow>
               (case a_data a of
                  None \<Rightarrow> Panic
                | Some d \<Rightarrow>
                    (case from_utf8 d of Some s \<Rightarrow> Ok (j_name j, JString s) | None \<Rightarrow> Err ()))))"
  by auto
termination
  by (relation "measure (\<lambda>(p, m, a). avp_weight a)") (auto intro: as_grouped_weight)

declare avp_to_name_value.simps [simp del]

section \<open>From JSON to an AVP\<close>

definition number_as_f64 :: "platform \<Rightarrow> number \<Rightarrow> u64" where
  "number_as_f64 p n =
     (case n of PosInt u \<Rightarrow> f64_of_u64 p u | NegInt i \<Rightarrow> f64_of_i64 p i | Float x \<Rightarrow> x)"

definition b64_or_bytes :: "platform \<Rightarrow> string \<Rightarrow> bytes" where
  "b64_or_bytes p s = (case b64_decode p s of Some d \<Rightarrow> d | None \<Rightarrow> as_bytes s)"

definition scalar_to_avp :: "platform \<Rightarrow> avp_json \<Rightarrow> json \<Rightarrow> avp option" where
  "scalar_to_avp p j v =
     (let flags = (if j_mandatory j then 0x40 else 0);
          mk = avp_new (j_code j) flags (j_vendor_id j) in
      case (j_avp_type j, v) of
        (TOctetString, JString s) \<Rightarrow> Some (mk (b64_or_bytes p s))
      | (TAddress, JString s) \<Rightarrow> Some (from_address p (j_code j) flags (j_vendor_id j) s)
      | (TTime, JNumber n) \<Rightarrow>
          map_option (\<lambda>u. from_time (j_code j) flags (j_vendor_id j) (ucast u)) (number_as_u64 n)
      | (TInteger32, JNumber n) \<Rightarrow> map_option (\<lambda>i. mk (to_be 4 (ucast i :: u32))) (number_as_i64 n)
      | (TEnumerated, JNumber n) \<Rightarrow> map_option (\<lambda>i. mk (to_be 4 (ucast i :: u32))) (number_as_i64 n)
      | (TUnsigned32, JNumber n) \<Rightarrow> map_option (\<lambda>u. mk (to_be 4 (ucast u :: u32))) (number_as_u64 n)
      | (TInteger64, JNumber n) \<Rightarrow> map_option (\<lambda>i. mk (to_be 8 i)) (number_as_i64 n)
      | (TUnsigned64, JNumber n) \<Rightarrow> map_option (\<lambda>u. mk (to_be 8 u)) (number_as_u64 n)
      | (TFloat32, JNumber n) \<Rightarrow> Some (mk (to_be 4 (f32_of_f64 p (number_as_f64 p n))))
      | (TFloat64, JNumber n) \<Rightarrow> Some (mk (to_be 8 (number_as_f64 p n)))
      | (TUTF8String, JString s) \<Rightarrow> Some (mk (as_bytes s))
      | (TDiameterIdentity, JString s) \<Rightarrow> Some (mk (as_bytes s))
      | (TDiameterURI, JString s) \<Rightarrow> Some (mk (as_bytes s))
      | (TIPFilterRule, JString s) \<Rightarrow> Some (mk (as_bytes s))
      | _ \<Rightarrow> None)"

lemma size_member: "kv \<in> set obj \<Longrightarrow> size (snd kv) \<le> size_list (size_prod (\<lambda>_. 0) size) obj"
  by (induction obj) auto

function name_value_to_avp :: "platform \<Rightarrow> avp_map \<Rightarrow> string \<Rightarrow> json \<Rightarrow> avp option" where
  "name_value_to_avp p m name v =
     (case avp_get_by_name m name of
        Some j \<Rightarrow>
          (if j_avp_type j = TGrouped then
             (case v of
                JObject obj \<Rightarrow>
                  map_option (from_grouped (j_code j) (if j_mandatory j then 0x40 else 0) (j_vendor_id j))
                    (those (map (\<lambda>kv. name_value_to_avp p m (fst kv) (snd kv)) obj))
              | _ \<Rightarrow> None)
           else scalar_to_avp p j v)
      | None \<Rightarrow>
          (if take 4 name = ''AVP-'' then
             (case (parse_u32 (drop 4 name), v) of
                (Some code, JString s) \<Rightarrow> Some (avp_new code 0 None (b64_or_bytes p s))
              | _ \<Rightarrow> None)
           else None))"
  by auto
termination
  by (relation "measure (\<lambda>(p, m, name, v). size v)")
     (auto simp: less_Suc_eq_le dest: size_member)

declare name_value_to_avp.simps [simp del]

section \<open>Lookup laws\<close>

text \<open>
  A dictionary filled entry by entry, in which a later entry replaces an earlier one with the
  same key. Both indexes of \<open>AvpMap\<close> are of this kind.
\<close>

locale last_wins_index =
  fixes add :: "'m \<Rightarrow> 'e \<Rightarrow> 'm" and lookup :: "'m \<Rightarrow> 'k \<Rightarrow> 'e option" and key :: "'e \<Rightarrow> 'k"
  assumes lookup_add: "lookup (add m e) k = (if k = key e then Some e else lookup m k)"
begin

lemma lookup_foldl:
  "lookup (foldl add m es) k
   = (case find (\<lambda>e. key e = k) (rev es) of Some e \<Rightarrow> Some e | None \<Rightarrow> lookup m k)"
  by (induction es rule: rev_induct) (auto simp: lookup_add)

lemma lookup_key: "(\<And>k. lookup m k = None) \<Longrightarrow> lookup (foldl add m es) k = Some e \<Longrightarrow> key e = k \<and> e \<in> set es"
  by (auto simp: lookup_foldl find_Some_iff split: option.splits)
     (metis nth_mem rev_rev_ident set_rev length_rev)

end

interpretation by_code: last_wins_index avp_map_add avp_get_by_code j_code
  by unfold_locales (simp add: avp_map_add_def avp_get_by_code_def)

interpretation by_name: last_wins_index avp_map_add avp_get_by_name j_name
  by unfold_locales (simp add: avp_map_add_def avp_get_by_name_def)

abbreviation empty_avp_map :: avp_map where
  "empty_avp_map \<equiv> \<lparr>code_to_avp = Map.empty, name_to_avp = Map.empty\<rparr>"

lemma avp_map_new_foldl: "avp_map_new avps = foldl avp_map_add empty_avp_map (standard_avp_json @ avps)"
  by (simp add: avp_map_new_def)

lemma empty_avp_map_lookup [simp]:
  "avp_get_by_code empty_avp_map c = None" "avp_get_by_name empty_avp_map n = None"
  by (simp_all add: avp_get_by_code_def avp_get_by_name_def)

lemma avp_map_new_lookup:
  "avp_get_by_name (avp_map_new avps) n = find (\<lambda>j. j_name j = n) (rev (standard_avp_json @ avps))"
  "avp_get_by_code (avp_map_new avps) c = find (\<lambda>j. j_code j = c) (rev (standard_avp_json @ avps))"
  by (simp_all add: avp_map_new_foldl by_name.lookup_foldl by_code.lookup_foldl split: option.splits
      del: foldl_append rev_append)

lemma avp_type_roundtrip: "avp_type_from (string_from_avp_type t) = t"
  by (cases t; simp only: string_from_avp_type.simps; code_simp)

section \<open>Received AVPs translate without a panic\<close>

lemma collect_members_no_Panic:
  "Panic \<notin> set rs \<Longrightarrow> collect_members m rs \<noteq> Panic"
proof (induction rs arbitrary: m)
  case (Cons r rs)
  then show ?case by (cases r) auto
qed simp

lemma as_grouped_has_data:
  assumes "as_grouped a = Some subs" and "a_data a \<noteq> None"
  shows "\<forall>s\<in>set subs. a_data s \<noteq> None"
proof -
  obtain d where "decode_loop d (length d) 0 [] = Ok subs"
    using assms by (auto simp: as_grouped_def is_grouped_def split: option.splits outcome.splits if_splits)
  then show ?thesis using decode_loop_has_data by fastforce
qed

lemma avp_to_name_value_no_Panic: "a_data a \<noteq> None \<Longrightarrow> avp_to_name_value p m a \<noteq> Panic"
proof (induction p m a rule: avp_to_name_value.induct)
  case (1 p m a)
  then obtain d where d: "a_data a = Some d" by blast
  have g: "collect_members [] (map (avp_to_name_value p m) subs) \<noteq> Panic"
    if "avp_get_by_code m (a_code a) = Some j" "j_avp_type j = TGrouped" "as_grouped a = Some subs" for j subs
  proof (rule collect_members_no_Panic)
    show "Panic \<notin> set (map (avp_to_name_value p m) subs)"
      using "1.IH" [OF that] as_grouped_has_data [OF that(3)] d by force
  qed
  show ?case
    by (subst avp_to_name_value.simps) (auto simp: d g split: option.splits avp_type.splits)
qed

text \<open>
  An AVP that is read from JSON has no data when its name is that of a grouped type. It is rendered
  by its code, so it is rendered without a panic when the dictionary leads the codes of grouped
  names to grouped types.
\<close>

definition groups_coherent :: "avp_map \<Rightarrow> bool" where
  "groups_coherent m \<longleftrightarrow> (\<forall>n j. avp_get_by_name m n = Some j \<longrightarrow> j_avp_type j = TGrouped \<longrightarrow>
     (\<exists>j'. avp_get_by_code m (j_code j) = Some j' \<and> j_avp_type j' = TGrouped))"

lemma scalar_to_avp_has_data: "scalar_to_avp p j v = Some a \<Longrightarrow> a_data a \<noteq> None"
  by (auto simp: scalar_to_avp_def Let_def avp_new_def from_address_def from_time_def from_unsigned32_def
      split: avp_type.splits json.splits option.splits)

lemma those_Some: "those xs = Some ys \<Longrightarrow> map Some ys = xs"
  by (induction xs arbitrary: ys) (auto split: option.splits)

lemma from_grouped_renders:
  assumes "avp_get_by_code m c = Some j" "j_avp_type j = TGrouped"
    and "\<forall>s\<in>set subs. avp_to_name_value p m s \<noteq> Panic"
  shows "avp_to_name_value p m (from_grouped c f v subs) \<noteq> Panic"
proof -
  have "collect_members [] (map (avp_to_name_value p m) subs) \<noteq> Panic"
    using assms(3) by (intro collect_members_no_Panic) force
  then show ?thesis
    using assms(1,2)
    by (subst avp_to_name_value.simps) (simp add: from_grouped_def as_grouped_def is_grouped_def)
qed

lemma name_value_to_avp_renders:
  "groups_coherent m \<Longrightarrow> name_value_to_avp p m n v = Some a \<Longrightarrow> avp_to_name_value p m a \<noteq> Panic"
proof (induction p m n v arbitrary: a rule: name_value_to_avp.induct)
  case (1 p m n v)
  show ?case
  proof (cases "\<exists>j obj. avp_get_by_name m n = Some j \<and> j_avp_type j = TGrouped \<and> v = JObject obj")
    case True
    then obtain j obj where j: "avp_get_by_name m n = Some j" "j_avp_type j = TGrouped" "v = JObject obj" by blast
    obtain subs where subs: "those (map (\<lambda>kv. name_value_to_avp p m (fst kv) (snd kv)) obj) = Some subs"
      "a = from_grouped (j_code j) (if j_mandatory j then 0x40 else 0) (j_vendor_id j) subs"
      using "1.prems"(2) j by (auto simp: name_value_to_avp.simps [of p m n])
    have "\<exists>kv\<in>set obj. name_value_to_avp p m (fst kv) (snd kv) = Some s" if "s \<in> set subs" for s
    proof -
      have "Some s \<in> set (map (\<lambda>kv. name_value_to_avp p m (fst kv) (snd kv)) obj)"
        unfolding those_Some [OF subs(1), symmetric] using that by simp
      then show ?thesis unfolding set_map image_iff by metis
    qed
    then have "\<forall>s\<in>set subs. avp_to_name_value p m s \<noteq> Panic"
      using "1.IH" [OF j(1,2,3) _ "1.prems"(1)] by blast
    moreover obtain j' where "avp_get_by_code m (j_code j) = Some j'" "j_avp_type j' = TGrouped"
      using "1.prems"(1) j(1,2) by (auto simp: groups_coherent_def)
    ultimately show ?thesis unfolding subs(2) by (intro from_grouped_renders)
  next
    case False
    then have "a_data a \<noteq> None"
      using "1.prems"(2) scalar_to_avp_has_data
      by (auto simp: name_value_to_avp.simps [of p m n] avp_new_def split: option.splits if_splits json.splits)
    then show ?thesis by (rule avp_to_name_value_no_Panic)
  qed
qed

section \<open>JSON through the wire and back\<close>

text \<open>
  The JSON values a scalar AVP type can represent exactly: numbers within the range of the type,
  text in the canonical form the printer produces.
\<close>

definition scalar_fits :: "platform \<Rightarrow> avp_type \<Rightarrow> json \<Rightarrow> bool" where
  "scalar_fits p t v =
     (case (t, v) of
        (TOctetString, JString s) \<Rightarrow>
          (case b64_decode p s of Some d \<Rightarrow> b64_encode p d = s \<and> length d < 2 ^ 24 - 12 | None \<Rightarrow> False)
      | (TAddress, JString s) \<Rightarrow>
          (case v4_parse s of
             Some ip \<Rightarrow> s = v4_show (ip ! 0) (ip ! 1) (ip ! 2) (ip ! 3)
           | None \<Rightarrow>
              (case v6_parse p s of Some ip \<Rightarrow> length ip = 16 \<and> v6_show p ip = s | None \<Rightarrow> False))
      | (TTime, JNumber n) \<Rightarrow> number_fits_u32 n
      | (TInteger32, JNumber n) \<Rightarrow> number_fits_i32 n
      | (TEnumerated, JNumber n) \<Rightarrow> number_fits_i32 n
      | (TUnsigned32, JNumber n) \<Rightarrow> number_fits_u32 n
      | (TInteger64, JNumber n) \<Rightarrow> number_fits_i64 n
      | (TUnsigned64, JNumber (PosInt u)) \<Rightarrow> True
      | (TFloat32, JNumber (Float x)) \<Rightarrow> f32_finite (f32_of_f64 p x) \<and> f64_of_f32 p (f32_of_f64 p x) = x
      | (TFloat64, JNumber (Float x)) \<Rightarrow> f64_finite x
      | (TUTF8String, JString s) \<Rightarrow> rust_string s \<and> length s < 2 ^ 24 - 12
      | (TDiameterIdentity, JString s) \<Rightarrow> rust_string s \<and> length s < 2 ^ 24 - 12
      | (TDiameterURI, JString s) \<Rightarrow> rust_string s \<and> length s < 2 ^ 24 - 12
      | (TIPFilterRule, JString s) \<Rightarrow> rust_string s \<and> length s < 2 ^ 24 - 12
      | _ \<Rightarrow> False)"

lemma v4_parse_length: "v4_parse s = Some ip \<Longrightarrow> length ip = 4"
  by (auto simp: v4_parse_def split: list.splits option.splits)

lemma v4_fits:
  assumes "v4_parse s = Some ip" and "s = v4_show (ip ! 0) (ip ! 1) (ip ! 2) (ip ! 3)"
  shows "as_address p (from_address p c f v s) = Some s"
  using as_address_from_v4 [of p c f v "ip ! 0" "ip ! 1" "ip ! 2" "ip ! 3"] assms(2) by simp

lemma scalar_to_avp_is_new:
  "scalar_to_avp p j v = Some a \<Longrightarrow> \<exists>f d. a = avp_new (j_code j) f (j_vendor_id j) d"
  by (auto simp: scalar_to_avp_def from_address_def from_time_def from_unsigned32_def Let_def
      split: avp_type.splits json.splits)

lemmas scalar_getters = integer32.get_new unsigned32.get_new float32.get_new integer64.get_new
  unsigned64.get_new float64.get_new

lemma a_code_from [simp]:
  "a_code (from_time c f v t) = c" "a_code (from_address p c f v s) = c"
  by (simp_all add: from_time_def from_unsigned32_def from_address_def)

lemma scalar_json_roundtrip:
  assumes "scalar_fits p (j_avp_type j) v" and "avp_get_by_code m (j_code j) = Some j"
  shows "case scalar_to_avp p j v of
           Some a \<Rightarrow> avp_to_name_value p m a = Ok (j_name j, v) | None \<Rightarrow> False"
  using assms
  by (cases "j_avp_type j"; cases v)
     (auto simp: scalar_fits_def scalar_to_avp_def Let_def avp_to_name_value.simps [of p m] scalar_getters
        as_time_from_time v4_fits as_address_from_v6 b64_or_bytes_def number_as_f64_def json_of_f64_def
        dest!: number_u32_roundtrip number_i32_roundtrip number_i64_roundtrip
        split: option.split_asm number.split_asm)

text \<open>
  The name-value pairs the dictionary can represent: a scalar of the right type, an object whose
  members are representable under a grouped entry, and the generic name of an unknown code. The
  two indexes of the dictionary must agree on the entry.
\<close>

inductive representable :: "platform \<Rightarrow> avp_map \<Rightarrow> string \<Rightarrow> json \<Rightarrow> bool" for p m where
  scalar: "avp_get_by_name m name = Some j \<Longrightarrow> avp_get_by_code m (j_code j) = Some j \<Longrightarrow> j_name j = name
    \<Longrightarrow> j_avp_type j \<noteq> TGrouped \<Longrightarrow> scalar_fits p (j_avp_type j) v \<Longrightarrow> representable p m name v"
| grouped: "avp_get_by_name m name = Some j \<Longrightarrow> avp_get_by_code m (j_code j) = Some j \<Longrightarrow> j_name j = name
    \<Longrightarrow> j_avp_type j = TGrouped \<Longrightarrow> obj \<noteq> [] \<Longrightarrow> obj_wf obj
    \<Longrightarrow> \<forall>kv\<in>set obj. representable p m (fst kv) (snd kv) \<Longrightarrow> representable p m name (JObject obj)"
| unknown: "avp_get_by_name m (''AVP-'' @ show_u32 code) = None \<Longrightarrow> avp_get_by_code m code = None
    \<Longrightarrow> b64_decode p s = Some d \<Longrightarrow> b64_encode p d = s
    \<Longrightarrow> representable p m (''AVP-'' @ show_u32 code) (JString s)"

lemma collect_members_Ok:
  "collect_members acc (map Ok kvs) = Ok (foldl (\<lambda>m (k, v). obj_insert k v m) acc kvs)"
  by (induction kvs arbitrary: acc) auto

lemma those_Some_iff: "those xs = Some ys \<longleftrightarrow> xs = map Some ys"
proof (induction xs arbitrary: ys)
  case (Cons x xs)
  then show ?case by (cases x; cases ys) auto
qed auto

lemma those_exists: "\<forall>x\<in>set xs. x \<noteq> None \<Longrightarrow> \<exists>ys. those xs = Some ys"
  by (induction xs) auto

lemma representable_roundtrip:
  assumes "representable p m name v"
  shows "\<exists>a. name_value_to_avp p m name v = Some a
           \<and> (wf_avp a \<longrightarrow> avp_to_name_value p m (avp_raw a) = Ok (name, v))"
  using assms
proof induction
  case (scalar name j v)
  obtain a where a: "scalar_to_avp p j v = Some a" "avp_to_name_value p m a = Ok (j_name j, v)"
    using scalar_json_roundtrip [OF scalar(5,2)] by (auto split: option.splits)
  have "avp_raw a = a" using scalar_to_avp_is_new [OF a(1)] by auto
  then show ?case using a scalar by (subst name_value_to_avp.simps) simp
next
  case (unknown code s d)
  then show ?case
    by (subst name_value_to_avp.simps) (simp add: b64_or_bytes_def avp_to_name_value.simps)
next
  case (grouped name j obj)
  let ?tr = "\<lambda>kv. name_value_to_avp p m (fst kv) (snd kv)"
  have "\<forall>x\<in>set (map ?tr obj). x \<noteq> None" using grouped.IH by fastforce
  then obtain subs where subs: "those (map ?tr obj) = Some subs" using those_exists by blast
  let ?a = "from_grouped (j_code j) (if j_mandatory j then 0x40 else 0) (j_vendor_id j) subs"
  have tr: "name_value_to_avp p m name (JObject obj) = Some ?a"
    using grouped subs by (subst name_value_to_avp.simps) simp
  have len: "length subs = length obj" and nth: "\<And>i. i < length obj \<Longrightarrow> ?tr (obj ! i) = Some (subs ! i)"
    using subs by (auto simp: those_Some_iff list_eq_iff_nth_eq)
  have "avp_to_name_value p m (avp_raw ?a) = Ok (name, JObject obj)" if wf: "wf_avp ?a"
  proof -
    have "as_grouped (avp_raw ?a) = Some (map avp_raw subs)"
    proof -
      have "subs \<noteq> []" using grouped(5) len by auto
      then have "is_grouped ?a" by (simp add: from_grouped_def is_grouped_def)
      then show ?thesis using as_grouped_raw [OF wf] by (simp only: from_grouped_def avp.sel)
    qed
    moreover have "map (avp_to_name_value p m) (map avp_raw subs) = map Ok obj"
    proof (rule nth_equalityI)
      fix i assume "i < length (map (avp_to_name_value p m) (map avp_raw subs))"
      then have i: "i < length obj" using len by simp
      have "wf_avp (subs ! i)" using wf i len by (simp add: from_grouped_def list_all_length)
      moreover have "obj ! i \<in> set obj" using i by simp
      ultimately have "avp_to_name_value p m (avp_raw (subs ! i)) = Ok (fst (obj ! i), snd (obj ! i))"
        using grouped.IH nth [OF i] by fastforce
      then show "map (avp_to_name_value p m) (map avp_raw subs) ! i = map Ok obj ! i"
        using i len by simp
    qed (simp add: len)
    moreover have "foldl (\<lambda>m (k, v). obj_insert k v m) [] obj = obj"
      using object.of_pairs_id [OF grouped(6)] by (simp add: object.of_pairs_def)
    moreover have "a_code (avp_raw ?a) = j_code j" by (simp add: avp_raw_def from_grouped_def)
    ultimately show ?thesis
      using grouped(2-4)
      by (subst avp_to_name_value.simps) (simp add: collect_members_Ok del: map_map)
  qed
  then show ?case using tr by blast
qed

section \<open>Properties\<close>

text \<open>C27. A JSON name-value pair the dictionary can represent is translated to an AVP, and after
  encoding, transmission and decoding the same name and value come back: scalars within the range
  of their type, nested groups, and unknown codes under their generic name.\<close>

theorem json_wire_roundtrip:
  assumes "representable p m name v"
  shows "\<exists>a. name_value_to_avp p m name v = Some a
           \<and> (wf_avp a \<longrightarrow> (\<exists>b. avp_decode (avp_encode a @ rest) = Ok b
                              \<and> avp_to_name_value p m b = Ok (name, v)))"
  using representable_roundtrip [OF assms] avp_decode_encode by blast

theorem json_wire_roundtrip_witness:
  "\<forall>p. let name = ''Vendor-Specific-Application-Id'';
         v = JObject [(''Auth-Application-Id'', JNumber (PosInt 4)), (''Vendor-Id'', JNumber (PosInt 10415))] in
     \<exists>a b. name_value_to_avp p (avp_map_new []) name v = Some a
           \<and> avp_decode (avp_encode a @ []) = Ok b \<and> avp_to_name_value p (avp_map_new []) b = Ok (name, v)"
proof
  fix p :: platform
  let ?m = "avp_map_new []" and ?n = "''Vendor-Specific-Application-Id''"
  let ?v = "JObject [(''Auth-Application-Id'', JNumber (PosInt 4)), (''Vendor-Id'', JNumber (PosInt 10415))]"
  let ?a = "from_grouped 260 0x40 None [avp_new 258 0x40 None [0, 0, 0, 4], avp_new 266 0x40 None [0, 0, 40, 175]]"
  have look: "avp_get_by_name ?m ?n = Some (avp_json_new ?n 260 TGrouped True None)"
    "avp_get_by_code ?m 260 = Some (avp_json_new ?n 260 TGrouped True None)"
    "avp_get_by_name ?m ''Auth-Application-Id'' = Some (avp_json_new ''Auth-Application-Id'' 258 TUnsigned32 True None)"
    "avp_get_by_code ?m 258 = Some (avp_json_new ''Auth-Application-Id'' 258 TUnsigned32 True None)"
    "avp_get_by_name ?m ''Vendor-Id'' = Some (avp_json_new ''Vendor-Id'' 266 TUnsigned32 True None)"
    "avp_get_by_code ?m 266 = Some (avp_json_new ''Vendor-Id'' 266 TUnsigned32 True None)"
    by code_simp+
  have "representable p ?m ''Auth-Application-Id'' (JNumber (PosInt 4))"
    by (rule representable.scalar [OF look(3)]) (simp_all add: look avp_json_new_def scalar_fits_def)
  moreover have "representable p ?m ''Vendor-Id'' (JNumber (PosInt 10415))"
    by (rule representable.scalar [OF look(5)]) (simp_all add: look avp_json_new_def scalar_fits_def)
  moreover have "obj_wf [(''Auth-Application-Id'', JNumber (PosInt 4)), (''Vendor-Id'', JNumber (PosInt 10415))]"
    by code_simp
  ultimately have rep: "representable p ?m ?n ?v"
    by (intro representable.grouped [OF look(1)]) (simp_all add: look avp_json_new_def)
  have tr: "name_value_to_avp p ?m ?n ?v = Some ?a" by code_simp
  have "wf_avp (avp_new 258 0x40 None [0, 0, 0, 4])" "wf_avp (avp_new 266 0x40 None [0, 0, 40, 175])"
    by (simp_all add: wf_avp_new)
  then have "wf_avp ?a"
    by (simp add: from_grouped_def avp_encode_length total_length_including_padding_def avp_new_def pad4_def)
  then show "let name = ?n; v = ?v in \<exists>a b. name_value_to_avp p ?m name v = Some a
           \<and> avp_decode (avp_encode a @ []) = Ok b \<and> avp_to_name_value p ?m b = Ok (name, v)"
    using json_wire_roundtrip [OF rep, of "[]"] tr unfolding Let_def by auto
qed

text \<open>Whatever a peer sends, translating a received AVP to JSON does not panic: every
  \<open>unwrap\<close> in \<open>avp_to_name_value\<close> finds data, through every level of grouping.\<close>

theorem received_avp_no_panic:
  assumes "avp_decode bs = Ok a"
  shows "avp_to_name_value p m a \<noteq> Panic"
  using avp_to_name_value_no_Panic avp_decode_has_data [OF assms] by blast

theorem received_avp_no_panic_witness:
  "\<forall>p. avp_to_name_value p (avp_map_new []) (Avp 264 0x40 None (Some [1, 2, 3]) []) \<noteq> Panic"
proof -
  have "avp_decode [0,0,1,8, 0x40, 0,0,11, 1,2,3] = Ok (Avp 264 0x40 None (Some [1,2,3]) [])"
    by code_simp
  then show ?thesis using received_avp_no_panic by blast
qed

text \<open>In the dictionary the last definition of a name or a code wins, the standard AVPs come
  first, and nothing else is found.\<close>

theorem dictionary_lookup:
  "avp_get_by_name (avp_map_new avps) n = find (\<lambda>j. j_name j = n) (rev (standard_avp_json @ avps))
   \<and> avp_get_by_code (avp_map_new avps) c = find (\<lambda>j. j_code j = c) (rev (standard_avp_json @ avps))"
  using avp_map_new_lookup by blast

text \<open>The standard dictionary is coherent: its names and its codes are distinct, so that name and
  code identify the same entry.\<close>

theorem standard_dictionary_coherent:
  "distinct (map j_name standard_avp_json) \<and> distinct (map j_code standard_avp_json)
   \<and> list_all (\<lambda>j. avp_get_by_name (avp_map_new []) (j_name j) = Some j
                  \<and> avp_get_by_code (avp_map_new []) (j_code j) = Some j) standard_avp_json"
  by code_simp

lemma groups_coherent_standard: "groups_coherent (avp_map_new [])"
proof -
  have "avp_get_by_code (avp_map_new []) (j_code j) = Some j" if "avp_get_by_name (avp_map_new []) n = Some j" for n j
  proof -
    have "j \<in> set standard_avp_json"
      using that by (auto simp: avp_map_new_lookup find_Some_iff) (metis length_rev nth_mem set_rev)
    then show ?thesis using standard_dictionary_coherent by (simp add: list_all_iff)
  qed
  then show ?thesis unfolding groups_coherent_def by blast
qed

text \<open>Repeated members of a grouped AVP are not all kept: a group with two members of the same
  code becomes a JSON object with the last one only.\<close>

theorem repeated_member_lost:
  "avp_to_name_value p (avp_map_new [])
     (from_grouped 284 0x40 None [from_utf8_string 280 0x40 None ''a'', from_utf8_string 280 0x40 None ''b''])
   = Ok (''Proxy-Info'', JObject [(''Proxy-Host'', JString ''b'')])"
  by code_simp

end
