(* ===== verification/Command_Json.thy ===== *)
theory Command_Json
  imports Command_Codec Avp_Dict "HOL-Library.Multiset"
begin

text \<open>
  The command dictionary and the JSON form of a command (\<open>command.rs\<close>): command
  descriptors, the standard commands, the lookup map, the canonical AVP order, and the two
  translations \<open>from_json_value\<close> and \<open>to_json\<close> between the REST side and the Diameter
  side.
\<close>

section \<open>Command descriptors\<close>

record command_json =
  d_long_name :: string
  d_short_name :: string
  d_code :: u32
  d_application_id :: u32
  d_request :: bool
  d_proxiable :: bool
  d_error :: bool
  d_avps :: "string list"

definition command_json_new ::
  "string \<Rightarrow> string \<Rightarrow> u32 \<Rightarrow> u32 \<Rightarrow> bool \<Rightarrow> bool \<Rightarrow> bool \<Rightarrow> string list \<Rightarrow> command_json" where
  "command_json_new long short code app request proxiable error avps =
     \<lparr>d_long_name = long, d_short_name = short, d_code = code, d_application_id = app,
      d_request = request, d_proxiable = proxiable, d_error = error, d_avps = avps\<rparr>"

definition command_json_flags :: "command_json \<Rightarrow> u8" where
  "command_json_flags d =
     (if d_request d then 0x80 else 0) OR (if d_proxiable d then 0x40 else 0) OR (if d_error d then 0x20 else 0)"

text \<open>
  The key of the stable sort: the position of the AVP's name in the command's AVP list, or
  \<open>usize::MAX\<close>.
\<close>

definition avp_position :: "command_json \<Rightarrow> avp_map \<Rightarrow> avp \<Rightarrow> nat" where
  "avp_position d m a =
     (case List.extract (\<lambda>name. case avp_get_by_code m (a_code a) of
                                Some j \<Rightarrow> j_name j = name | None \<Rightarrow> False) (d_avps d) of
        Some (before, _, _) \<Rightarrow> length before
      | None \<Rightarrow> 2 ^ 64 - 1)"

definition sort_avps :: "command_json \<Rightarrow> avp_map \<Rightarrow> avp list \<Rightarrow> avp list" where
  "sort_avps d m avps = sort_key (avp_position d m) avps"

text \<open>\<open>STANDARD_COMMANDS\<close> in three parts: sessions aborted and accounting, the base protocol between
  peers, authorisation and the end of sessions.\<close>

definition accounting_commands :: "command_json list" where
  "accounting_commands = [
    command_json_new ''Abort-Session-Request'' ''ASR'' (command_code_u32 AbortSession) 0 True True False
      [''Session-Id'', ''Origin-Host'', ''Origin-Realm'', ''Destination-Realm'',
       ''Destination-Host'', ''Auth-Application-Id'', ''User-Name'', ''Origin-State-Id'',
       ''Proxy-Info'', ''Route-Record''],
    command_json_new ''Abort-Session-Answer'' ''ASA'' (command_code_u32 AbortSession) 0 False True False
      [''Session-Id'', ''Result-Code'', ''Origin-Host'', ''Origin-Realm'', ''User-Name'',
       ''Origin-State-Id'', ''Error-Message'', ''Error-Reporting-Host'', ''Failed-AVP'',
       ''Redirect-Host'', ''Redirect-Host-Usage'', ''Redirect-Max-Cache-Time'', ''Proxy-Info''],
    command_json_new ''Accounting-Request'' ''ACR'' (command_code_u32 Accounting) 0 True True False
      [''Session-Id'', ''Origin-Host'', ''Origin-Realm'', ''Destination-Realm'',
       ''Accounting-Record-Type'', ''Accounting-Record-Number'', ''Acct-Application-Id'',
       ''Vendor-Specific-Application-Id'', ''User-Name'', ''Destination-Host'',
       ''Accounting-Sub-Session-Id'', ''Accounting-Session-Id'', ''Acct-Multi-Session-Id'',
       ''Acct-Interim-Interval'', ''Accounting-Realtime-Required'', ''Origin-State-Id'',
       ''Event-Timestamp'', ''Proxy-Info'', ''Route-Record''],
    command_json_new ''Accounting-Answer'' ''ACA'' (command_code_u32 Accounting) 0 False True False
      [''Session-Id'', ''Result-Code'', ''Origin-Host'', ''Origin-Realm'',
       ''Accounting-Record-Type'', ''Accounting-Record-Number'', ''Acct-Application-Id'',
       ''Vendor-Specific-Application-Id'', ''User-Name'', ''Accounting-Sub-Session-Id'',
       ''Acct-Session-Id'', ''Acct-Multi-Session-Id'', ''Error-Message'',
       ''Error-Reporting-Host'', ''Failed-AVP'', ''Acct-Interim-Interval'',
       ''Accounting-Realtime-Required'', ''Origin-State-Id'', ''Event-Timestamp'',
       ''Proxy-Info'']]"

definition peer_commands :: "command_json list" where
  "peer_commands = [
    command_json_new ''Capabilities-Exchange-Request'' ''CER'' (command_code_u32 CapabilitiesExchange) 0 True True False
      [''Origin-Host'', ''Origin-Realm'', ''Host-IP-Address'', ''Vendor-Id'', ''Product-Name'',
       ''Origin-State-Id'', ''Supported-Vendor-Id'', ''Auth-Application-Id'',
       ''Inband-Security-Id'', ''Acct-Application-Id'', ''Vendor-Specific-Application-Id'',
       ''Firmware-Revision''],
    command_json_new ''Capabilities-Exchange-Answer'' ''CEA'' (command_code_u32 CapabilitiesExchange) 0 False True False
      [''Result-Code'', ''Origin-Host'', ''Origin-Realm'', ''Host-IP-Address'', ''Vendor-Id'',
       ''Product-Name'', ''Origin-State-Id'', ''Error-Message'', ''Failed-AVP'',
       ''Supported-Vendor-Id'', ''Auth-Application-Id'', ''Inband-Security-Id'',
       ''Acct-Application-Id'', ''Vendor-Specific-Application-Id'', ''Firmware-Revision''],
    command_json_new ''Device-Watchdog-Request'' ''DWR'' (command_code_u32 DeviceWatchdog) 0 True True False
      [''Origin-Host'', ''Origin-Realm'', ''Origin-State-Id''],
    command_json_new ''Device-Watchdog-Answer'' ''DWA'' (command_code_u32 DeviceWatchdog) 0 False True False
      [''Result-Code'', ''Origin-Host'', ''Origin-Realm'', ''Error-Message'', ''Failed-AVP'',
       ''Origin-State-Id''],
    command_json_new ''Disconnect-Peer-Request'' ''DPR'' (command_code_u32 DisconnectPeer) 0 True True False
      [''Origin-Host'', ''Origin-Realm'', ''Disconnect-Cause''],
    command_json_new ''Disconnect-Peer-Answer'' ''DPA'' (command_code_u32 DisconnectPeer) 0 False True False
      [''Result-Code'', ''Origin-Host'', ''Origin-Realm'', ''Error-Message'', ''Failed-AVP'']]"

definition session_commands :: "command_json list" where
  "session_commands = [
    command_json_new ''Re-Auth-Request'' ''RAR'' (command_code_u32 ReAuth) 0 True True False
      [''Session-Id'', ''Origin-Host'', ''Origin-Realm'', ''Destination-Realm'',
       ''Destination-Host'', ''Auth-Application-Id'', ''Re-Auth-Request-Type'', ''User-Name'',
       ''Origin-State-Id'', ''Proxy-Info'', ''Route-Record''],
    command_json_new ''Re-Auth-Answer'' ''RAA'' (command_code_u32 ReAuth) 0 False True False
      [''Session-Id'', ''Result-Code'', ''Origin-Host'', ''Origin-Realm'', ''User-Name'',
       ''Origin-State-Id'', ''Error-Message'', ''Error-Reporting-Host'', ''Failed-AVP'',
       ''Redirect-Host'', ''Redirect-Host-Usage'', ''Redirect-Max-Cache-Time'', ''Proxy-Info''],
    command_json_new ''Session-Termination-Request'' ''STR'' (command_code_u32 SessionTermination) 0 True True False
      [''Session-Id'', ''Origin-Host'', ''Origin-Realm'', ''Destination-Realm'',
       ''Auth-Application-Id'', ''Termination-Cause'', ''User-Name'', ''Destination-Host'',
       ''Class'', ''Origin-State-Id'', ''Proxy-Info'', ''Route-Record''],
    command_json_new ''Session-Termination-Answer'' ''STA'' (command_code_u32 SessionTermination) 0 False True False
      [''Session-Id'', ''Result-Code'', ''Origin-Host'', ''Origin-Realm'', ''User-Name'',
       ''Class'', ''Error-Message'', ''Error-Reporting-Host'', ''Failed-AVP'',
       ''Origin-State-Id'', ''Redirect-Host'', ''Redirect-Host-Usage'',
       ''Redirect-Max-Cache-Time'', ''Proxy-Info'']]"

definition standard_commands :: "command_json list" where
  "standard_commands = accounting_commands @ peer_commands @ session_commands"

section \<open>The command map\<close>

record command_map =
  code_to_command :: "u32 \<rightharpoonup> command_json list"
  name_to_command :: "string \<rightharpoonup> command_json"

definition command_map_add :: "command_map \<Rightarrow> command_json \<Rightarrow> command_map" where
  "command_map_add m d =
     m\<lparr>code_to_command := (code_to_command m)(d_code d \<mapsto>
          (case code_to_command m (d_code d) of Some ds \<Rightarrow> ds | None \<Rightarrow> []) @ [d]),
       name_to_command := (name_to_command m)(to_lowercase (d_long_name d) \<mapsto> d,
                                              to_lowercase (d_short_name d) \<mapsto> d)\<rparr>"

definition command_map_new :: "command_json list \<Rightarrow> command_map" where
  "command_map_new commands =
     foldl command_map_add
       (foldl command_map_add \<lparr>code_to_command = Map.empty, name_to_command = Map.empty\<rparr> standard_commands)
       commands"

definition command_get_by_code :: "command_map \<Rightarrow> u32 \<Rightarrow> bool \<Rightarrow> command_json option" where
  "command_get_by_code m code request =
     Option.bind (code_to_command m code) (find (\<lambda>d. d_request d = request))"

definition command_get_by_name :: "command_map \<Rightarrow> string \<Rightarrow> command_json option" where
  "command_get_by_name m name = name_to_command m (to_lowercase name)"

text \<open>
  Loading definitions. The derived deserializer of \<open>CommandJson\<close> is the parameter
  \<open>from_value\<close>; one entry it refuses fails the whole load.
\<close>

definition load_command_definition_from_yaml ::
  "(yaml \<Rightarrow> (string, command_json) outcome) \<Rightarrow> yaml \<Rightarrow> (string, command_json list) outcome" where
  "load_command_definition_from_yaml from_value y =
     (case y of
        YMapping m \<Rightarrow>
          (case map_of m (YString ''commands'') of
             None \<Rightarrow> Err (''Missing '' @ [CHR 0x27] @ ''commands'' @ [CHR 0x27] @ '' key in YAML'')
           | Some (YSequence items) \<Rightarrow>
               foldr (\<lambda>item acc. bind_ok (from_value item) (\<lambda>d. map_ok (\<lambda>ds. d # ds) acc)) items (Ok [])
           | Some _ \<Rightarrow> Err (''Expected '' @ [CHR 0x27] @ ''commands'' @ [CHR 0x27] @ '' to be a sequence''))
      | _ \<Rightarrow> Err ''Invalid YAML format: expected a mapping at the top level'')"

section \<open>From JSON to a command\<close>

definition get_command_define :: "(string \<times> json) list \<Rightarrow> command_map \<Rightarrow> command_json option" where
  "get_command_define obj m =
     (case Option.bind (obj_get obj ''code'') as_u64 of
        Some code \<Rightarrow>
          command_get_by_code m (ucast code)
            (case Option.bind (obj_get obj ''request'') as_bool of Some b \<Rightarrow> b | None \<Rightarrow> True)
      | None \<Rightarrow>
          (case Option.bind (obj_get obj ''name'') as_str of
             Some name \<Rightarrow> command_get_by_name m name
           | None \<Rightarrow> None))"

text \<open>The variables the loop over the members of the object assigns.\<close>

record json_scan =
  s_avps :: "avp list"
  s_application_id :: u32
  s_hop_by_hop_id :: u32
  s_end_to_end_id :: u32
  s_flags :: u8

definition scan_member :: "platform \<Rightarrow> avp_map \<Rightarrow> json_scan \<Rightarrow> string \<times> json \<Rightarrow> json_scan" where
  "scan_member p m st kv =
     (let k = fst kv; v = snd kv in
      if k = ''code'' \<or> k = ''name'' then st
      else if k = ''application_id'' then
        (case as_u64 v of Some a \<Rightarrow> st\<lparr>s_application_id := ucast a\<rparr> | None \<Rightarrow> st)
      else if k = ''hop_by_hop_id'' then
        st\<lparr>s_hop_by_hop_id := (case as_u64 v of Some h \<Rightarrow> ucast h | None \<Rightarrow> 0)\<rparr>
      else if k = ''end_to_end_id'' then
        st\<lparr>s_end_to_end_id := (case as_u64 v of Some e \<Rightarrow> ucast e | None \<Rightarrow> 0)\<rparr>
      else if k = ''callback-url'' then st
      else if k = ''flags'' then
        st\<lparr>s_flags := foldl (\<lambda>f flag. f OR command_flag_u8 flag) (s_flags st)
             (case command_flags_from_str (case as_str v of Some s \<Rightarrow> s | None \<Rightarrow> []) of
                Some fs \<Rightarrow> fs | None \<Rightarrow> [])\<rparr>
      else
        (case v of
           JArray items \<Rightarrow> st\<lparr>s_avps := s_avps st @ List.map_filter (name_value_to_avp p m k) items\<rparr>
         | _ \<Rightarrow>
            (case name_value_to_avp p m k v of
               Some a \<Rightarrow> st\<lparr>s_avps := s_avps st @ [a]\<rparr>
             | None \<Rightarrow> st)))"

definition from_json_value :: "platform \<Rightarrow> json \<Rightarrow> command_map \<Rightarrow> avp_map \<Rightarrow> (string, command) outcome" where
  "from_json_value p v cm am =
     (case as_object v of
        None \<Rightarrow> Err ''Invalid JSON format''
      | Some obj \<Rightarrow>
          (case get_command_define obj cm of
             None \<Rightarrow> Err ''Command not found in command map''
           | Some d \<Rightarrow>
               (let st = foldl (scan_member p am)
                           \<lparr>s_avps = [], s_application_id = d_application_id d, s_hop_by_hop_id = 0,
                            s_end_to_end_id = 0, s_flags = 0\<rparr> obj in
                Ok (command_new (d_code d) (command_json_flags d OR s_flags st) (s_application_id st)
                      (s_hop_by_hop_id st) (s_end_to_end_id st) (sort_avps d am (s_avps st))))))"

section \<open>From a command to JSON\<close>

text \<open>
  \<open>avp_to_name_value\<close> per AVP, an untranslatable one under a generic name; a panic in it
  propagates.
\<close>

fun named_avps :: "platform \<Rightarrow> avp_map \<Rightarrow> avp list \<Rightarrow> (string, (string \<times> json) list) outcome" where
  "named_avps p m [] = Ok []"
| "named_avps p m (a # as) =
     (case avp_to_name_value p m a of
        Panic \<Rightarrow> Panic
      | Ok nv \<Rightarrow> map_ok (\<lambda>nvs. nv # nvs) (named_avps p m as)
      | Err _ \<Rightarrow> map_ok (\<lambda>nvs. (''Unknown-AVP-'' @ show_u32 (a_code a), JString ''Unknown'') # nvs)
                   (named_avps p m as))"

text \<open>A second value under a name turns the member into an array.\<close>

definition add_named :: "(string \<times> json) list \<Rightarrow> string \<times> json \<Rightarrow> (string \<times> json) list" where
  "add_named r nv =
     (case obj_get r (fst nv) of
        Some (JArray xs) \<Rightarrow> obj_insert (fst nv) (JArray (xs @ [snd nv])) r
      | Some old \<Rightarrow> obj_insert (fst nv) (JArray [old, snd nv]) r
      | None \<Rightarrow> obj_insert (fst nv) (snd nv) r)"

definition header_json :: "command \<Rightarrow> command_map \<Rightarrow> (string \<times> json) list" where
  "header_json c cm =
     obj_insert ''flags'' (JString (str_from_u8 (c_flags c)))
      (obj_insert ''end_to_end_id'' (JNumber (number_of_u32 (c_end_to_end_id c)))
       (obj_insert ''hop_by_hop_id'' (JNumber (number_of_u32 (c_hop_by_hop_id c)))
        (obj_insert ''application_id'' (JNumber (number_of_u32 (c_application_id c)))
         (obj_insert ''code'' (JNumber (number_of_u32 (c_code c)))
          (case command_get_by_code cm (c_code c) (is_request c) of
             Some d \<Rightarrow> obj_insert ''name'' (JString (d_long_name d)) []
           | None \<Rightarrow> [])))))"

definition to_json :: "platform \<Rightarrow> command \<Rightarrow> command_map \<Rightarrow> avp_map \<Rightarrow> (string, json) outcome" where
  "to_json p c cm am =
     map_ok (\<lambda>nvs. JObject (foldl add_named (header_json c cm) nvs)) (named_avps p am (c_avps c))"

section \<open>The canonical AVP order\<close>

lemma sort_avps_mset: "mset (sort_avps d m avps) = mset avps"
  by (simp add: sort_avps_def)

lemma sort_avps_sorted: "sorted (map (avp_position d m) (sort_avps d m avps))"
  by (simp add: sort_avps_def)

lemma sort_avps_stable:
  "filter (\<lambda>a. avp_position d m a = k) (sort_avps d m avps) = filter (\<lambda>a. avp_position d m a = k) avps"
  by (simp add: sort_avps_def sort_key_stable)

section \<open>The command map\<close>

text \<open>
  By code the commands of one code are searched in the order they were added; by name the last
  one added is found.
\<close>

definition commands_of :: "command_map \<Rightarrow> u32 \<Rightarrow> command_json list" where
  "commands_of m c = (case code_to_command m c of Some ds \<Rightarrow> ds | None \<Rightarrow> [])"

lemma commands_of_add: "commands_of (command_map_add m d) c = commands_of m c @ (if d_code d = c then [d] else [])"
  by (simp add: commands_of_def command_map_add_def split: option.split)

lemma commands_of_foldl: "commands_of (foldl command_map_add m ds) c = commands_of m c @ filter (\<lambda>d. d_code d = c) ds"
  by (induction ds arbitrary: m) (simp_all add: commands_of_add)

lemma find_filter: "find P (filter Q xs) = find (\<lambda>x. Q x \<and> P x) xs"
  by (induction xs) auto

lemma get_by_code_find: "command_get_by_code m c r = find (\<lambda>d. d_request d = r) (commands_of m c)"
  by (simp add: command_get_by_code_def commands_of_def split: option.split)

lemma command_map_new_get_by_code:
  "command_get_by_code (command_map_new ds) c r
   = find (\<lambda>d. d_code d = c \<and> d_request d = r) (standard_commands @ ds)"
proof -
  have "commands_of (command_map_new ds) c = filter (\<lambda>d. d_code d = c) (standard_commands @ ds)"
    unfolding command_map_new_def commands_of_foldl by (simp add: commands_of_def)
  then show ?thesis by (simp only: get_by_code_find find_filter)
qed

lemma name_to_command_foldl:
  "name_to_command (foldl command_map_add m ds) n =
     (case find (\<lambda>d. n = to_lowercase (d_long_name d) \<or> n = to_lowercase (d_short_name d)) (rev ds) of
        Some d \<Rightarrow> Some d | None \<Rightarrow> name_to_command m n)"
  by (induction ds rule: rev_induct) (auto simp: command_map_add_def)

lemma command_map_new_get_by_name:
  "command_get_by_name (command_map_new ds) n
   = find (\<lambda>d. to_lowercase n = to_lowercase (d_long_name d) \<or> to_lowercase n = to_lowercase (d_short_name d))
       (rev (standard_commands @ ds))"
proof -
  have "command_map_new ds
      = foldl command_map_add \<lparr>code_to_command = Map.empty, name_to_command = Map.empty\<rparr> (standard_commands @ ds)"
    by (simp add: command_map_new_def)
  then show ?thesis
    by (simp add: command_get_by_name_def name_to_command_foldl del: foldl_append rev_append split: option.split)
qed

lemma command_get_by_code_sound:
  assumes "command_get_by_code (command_map_new ds) code r = Some d"
  shows "d_code d = code" "d_request d = r"
  using assms unfolding command_map_new_get_by_code by (auto simp: find_Some_iff simp del: append_assoc)

lemma foldl_invariant: "P s \<Longrightarrow> (\<And>s x. P s \<Longrightarrow> P (f s x)) \<Longrightarrow> P (foldl f s xs)"
  by (induction xs arbitrary: s) auto

section \<open>Scanning the members of the object\<close>

definition header_names :: "string list" where
  "header_names = [''code'', ''name'', ''application_id'', ''hop_by_hop_id'', ''end_to_end_id'', ''callback-url'', ''flags'']"

definition member_avps :: "platform \<Rightarrow> avp_map \<Rightarrow> string \<times> json \<Rightarrow> avp list" where
  "member_avps p m kv =
     (if fst kv \<in> set header_names then []
      else case snd kv of
             JArray items \<Rightarrow> List.map_filter (name_value_to_avp p m (fst kv)) items
           | v \<Rightarrow> (case name_value_to_avp p m (fst kv) v of Some a \<Rightarrow> [a] | None \<Rightarrow> []))"

lemma scan_member_avps: "s_avps (scan_member p m st kv) = s_avps st @ member_avps p m kv"
  by (auto simp: scan_member_def member_avps_def header_names_def Let_def split: json.splits option.splits)

lemma scan_avps: "s_avps (foldl (scan_member p m) st obj) = s_avps st @ concat (map (member_avps p m) obj)"
  by (induction obj arbitrary: st) (simp_all add: scan_member_avps)

text \<open>
  A variable the loop assigns from the member of one name. With distinct names its final value
  depends on that member alone, in whatever order the members are visited.
\<close>

locale scanned_field =
  fixes field :: "json_scan \<Rightarrow> 'v" and key :: string and upd :: "json \<Rightarrow> 'v \<Rightarrow> 'v"
  assumes field_step: "field (scan_member p m st kv) = (if fst kv = key then upd (snd kv) (field st) else field st)"
begin

lemma field_scan:
  "distinct (map fst obj) \<Longrightarrow> field (foldl (scan_member p m) st obj)
     = (case map_of obj key of Some v \<Rightarrow> upd v (field st) | None \<Rightarrow> field st)"
proof (induction obj arbitrary: st)
  case (Cons kv obj)
  have "map_of obj key = None" if "fst kv = key" using Cons.prems that by (simp add: map_of_eq_None_iff)
  then show ?case using Cons by (cases kv) (auto simp: field_step split: option.splits)
qed simp

end

interpretation app_field: scanned_field s_application_id "''application_id''"
  "\<lambda>v x. case as_u64 v of Some a \<Rightarrow> ucast a | None \<Rightarrow> x"
  by unfold_locales (auto simp: scan_member_def Let_def split: json.splits option.splits)

interpretation hbh_field: scanned_field s_hop_by_hop_id "''hop_by_hop_id''"
  "\<lambda>v x. case as_u64 v of Some a \<Rightarrow> ucast a | None \<Rightarrow> 0"
  by unfold_locales (auto simp: scan_member_def Let_def split: json.splits option.splits)

interpretation e2e_field: scanned_field s_end_to_end_id "''end_to_end_id''"
  "\<lambda>v x. case as_u64 v of Some a \<Rightarrow> ucast a | None \<Rightarrow> 0"
  by unfold_locales (auto simp: scan_member_def Let_def split: json.splits option.splits)

interpretation flags_field: scanned_field s_flags "''flags''"
  "\<lambda>v x. foldl (\<lambda>f flag. f OR command_flag_u8 flag) x
             (case command_flags_from_str (case as_str v of Some s \<Rightarrow> s | None \<Rightarrow> []) of
                Some fs \<Rightarrow> fs | None \<Rightarrow> [])"
  by unfold_locales (auto simp: scan_member_def Let_def split: json.splits option.splits)

lemma obj_wf_distinct: "obj_wf m \<Longrightarrow> distinct (map fst m)"
  by (simp add: obj_wf_def strict_sorted_iff)

section \<open>Building the object\<close>

lemma add_named_wf: "obj_wf r \<Longrightarrow> obj_wf (add_named r nv)"
  by (auto simp: add_named_def obj_wf_insert split: option.splits json.splits)

lemma obj_get_add_named: "obj_wf r \<Longrightarrow> k \<noteq> fst nv \<Longrightarrow> obj_get (add_named r nv) k = obj_get r k"
  by (auto simp: add_named_def obj_get_insert split: option.splits json.splits)

lemma foldl_add_named_wf: "obj_wf r \<Longrightarrow> obj_wf (foldl add_named r nvs)"
  by (rule foldl_invariant) (simp_all add: add_named_wf)

lemma foldl_add_named_other:
  "obj_wf r \<Longrightarrow> k \<notin> fst ` set nvs \<Longrightarrow> obj_get (foldl add_named r nvs) k = obj_get r k"
  by (induction nvs arbitrary: r) (auto simp: add_named_wf obj_get_add_named)

lemma header_json_wf: "obj_wf (header_json c cm)"
  by (auto simp: header_json_def obj_wf_def split: option.splits)

lemma header_json_get:
  "obj_get (header_json c cm) ''code'' = Some (JNumber (number_of_u32 (c_code c)))"
  "obj_get (header_json c cm) ''application_id'' = Some (JNumber (number_of_u32 (c_application_id c)))"
  "obj_get (header_json c cm) ''hop_by_hop_id'' = Some (JNumber (number_of_u32 (c_hop_by_hop_id c)))"
  "obj_get (header_json c cm) ''end_to_end_id'' = Some (JNumber (number_of_u32 (c_end_to_end_id c)))"
  "obj_get (header_json c cm) ''flags'' = Some (JString (str_from_u8 (c_flags c)))"
  "obj_get (header_json c cm) ''request'' = None"
  by (simp_all add: header_json_def obj_get_def split: option.split)

lemma header_json_names: "fst ` set (header_json c cm) \<subseteq> set header_names"
  by (auto simp: header_json_def header_names_def set_obj_insert split: option.splits)

section \<open>From a command to JSON and back\<close>

text \<open>The name-value pairs of an object, with the elements of an array counted one by one.\<close>

definition flat_member :: "string \<times> json \<Rightarrow> (string \<times> json) list" where
  "flat_member kv = (case snd kv of JArray xs \<Rightarrow> map (Pair (fst kv)) xs | v \<Rightarrow> [(fst kv, v)])"

definition flat_pairs :: "(string \<times> json) list \<Rightarrow> (string \<times> json) multiset" where
  "flat_pairs obj = sum_list (map (\<lambda>kv. mset (flat_member kv)) obj)"

lemma flat_pairs_insert_new:
  "obj_get m k = None \<Longrightarrow> flat_pairs (obj_insert k v m) = mset (flat_member (k, v)) + flat_pairs m"
  by (induction k v m rule: obj_insert.induct) (auto simp: flat_pairs_def obj_get_def split: if_splits)

lemma flat_pairs_insert_old:
  assumes "obj_wf m" and "obj_get m k = Some old"
  shows "flat_pairs (obj_insert k v m) + mset (flat_member (k, old))
       = mset (flat_member (k, v)) + flat_pairs m"
  using assms
  by (induction k v m rule: obj_insert.induct)
     (auto simp: flat_pairs_def obj_get_def obj_wf_Cons split: if_splits dest!: map_of_SomeD)

lemma flat_pairs_add_named:
  assumes "obj_wf r" and "\<not> is_array (snd nv)"
  shows "flat_pairs (add_named r nv) = add_mset nv (flat_pairs r)"
proof -
  have single: "flat_member (k, v) = [(k, v)]" if "\<not> is_array v" for k v
    using that by (cases v) (simp_all add: flat_member_def)
  obtain k v where nv: "nv = (k, v)" and v: "\<not> is_array v" using assms(2) by (cases nv) auto
  show ?thesis
  proof (cases "obj_get r k")
    case None
    then show ?thesis using v by (simp add: nv add_named_def flat_pairs_insert_new single)
  next
    case (Some old)
    have eq: "add_named r nv = obj_insert k (JArray ((case old of JArray xs \<Rightarrow> xs | _ \<Rightarrow> [old]) @ [v])) r"
      using Some by (cases old) (simp_all add: nv add_named_def)
    have "mset (flat_member (k, JArray ((case old of JArray xs \<Rightarrow> xs | _ \<Rightarrow> [old]) @ [v])))
        = add_mset nv (mset (flat_member (k, old)))"
      by (cases old) (simp_all add: flat_member_def nv)
    then show ?thesis
      using flat_pairs_insert_old [OF assms(1) Some, of "JArray ((case old of JArray xs \<Rightarrow> xs | _ \<Rightarrow> [old]) @ [v])"]
      unfolding eq by simp
  qed
qed

lemma flat_pairs_foldl:
  "obj_wf r \<Longrightarrow> \<forall>nv\<in>set nvs. \<not> is_array (snd nv) \<Longrightarrow>
   flat_pairs (foldl add_named r nvs) = mset nvs + flat_pairs r"
  by (induction nvs arbitrary: r) (simp_all add: add_named_wf flat_pairs_add_named)

text \<open>The AVPs the scan finds are those of the flattened pairs.\<close>

definition pair_avps :: "platform \<Rightarrow> avp_map \<Rightarrow> string \<times> json \<Rightarrow> avp list" where
  "pair_avps p m kv =
     (if fst kv \<in> set header_names then []
      else case name_value_to_avp p m (fst kv) (snd kv) of Some a \<Rightarrow> [a] | None \<Rightarrow> [])"

lemma member_avps_flat: "member_avps p m kv = concat (map (pair_avps p m) (flat_member kv))"
proof -
  have "concat (map (\<lambda>x. case f x of Some a \<Rightarrow> [a] | None \<Rightarrow> []) xs) = List.map_filter f xs"
    for f :: "json \<Rightarrow> avp option" and xs
    by (induction xs) (auto split: option.splits)
  then show ?thesis
    by (cases "snd kv") (auto simp: member_avps_def flat_member_def pair_avps_def comp_def)
qed

lemma mset_concat_pairs: "mset (concat (map (pair_avps p m) kvs)) = (\<Sum>kv\<in>#mset kvs. mset (pair_avps p m kv))"
  by (induction kvs) simp_all

lemma scanned_avps_mset:
  "mset (concat (map (member_avps p m) obj)) = (\<Sum>kv\<in>#flat_pairs obj. mset (pair_avps p m kv))"
  by (induction obj) (simp_all add: flat_pairs_def member_avps_flat mset_concat_pairs)

text \<open>
  An AVP the dictionary renders faithfully: its JSON name is not one of the reserved member names
  and translating the pair back gives the same AVP.
\<close>

definition reserved_names :: "string list" where
  "reserved_names = ''request'' # header_names"

definition faithful_avp :: "platform \<Rightarrow> avp_map \<Rightarrow> avp \<Rightarrow> bool" where
  "faithful_avp p m a =
     (case avp_to_name_value p m a of
        Ok nv \<Rightarrow> fst nv \<notin> set reserved_names \<and> name_value_to_avp p m (fst nv) (snd nv) = Some a
      | _ \<Rightarrow> False)"

lemma json_of_option_not_array: "(\<And>x. \<not> is_array (f x)) \<Longrightarrow> \<not> is_array (json_of_option f opt)"
  by (cases opt) simp_all

lemma avp_to_name_value_not_array:
  assumes "avp_to_name_value p m a = Ok (n, v)"
  shows "\<not> is_array v"
proof (cases "avp_get_by_code m (a_code a)")
  case None
  then show ?thesis
    using assms by (subst (asm) avp_to_name_value.simps) (auto split: option.splits)
next
  case (Some j)
  then show ?thesis
    using assms by (subst (asm) avp_to_name_value.simps, cases "j_avp_type j")
      (auto simp: json_of_f64_def intro!: json_of_option_not_array split: option.split_asm if_split_asm)
qed

lemma faithful_named:
  "list_all (faithful_avp p m) as \<Longrightarrow> \<exists>nvs. named_avps p m as = Ok nvs
     \<and> (\<forall>nv\<in>set nvs. \<not> is_array (snd nv) \<and> fst nv \<notin> set reserved_names)
     \<and> (\<Sum>nv\<in>#mset nvs. mset (pair_avps p m nv)) = mset as"
proof (induction as)
  case (Cons a as)
  then obtain nvs where nvs: "named_avps p m as = Ok nvs"
    "\<forall>nv\<in>set nvs. \<not> is_array (snd nv) \<and> fst nv \<notin> set reserved_names"
    "(\<Sum>nv\<in>#mset nvs. mset (pair_avps p m nv)) = mset as"
    by auto
  obtain n v where nv: "avp_to_name_value p m a = Ok (n, v)" "n \<notin> set reserved_names"
    "name_value_to_avp p m n v = Some a"
    using Cons.prems by (auto simp: faithful_avp_def split: outcome.splits)
  moreover have "\<not> is_array v" by (rule avp_to_name_value_not_array [OF nv(1)])
  moreover have "pair_avps p m (n, v) = [a]" using nv(2,3) by (simp add: pair_avps_def reserved_names_def)
  ultimately show ?case using nvs by (intro exI [of _ "(n, v) # nvs"]) simp
qed simp

lemma flags_from_letters:
  "foldl (\<lambda>f flag. f OR command_flag_u8 flag) 0
     (case command_flags_from_str (str_from_u8 f) of Some fs \<Rightarrow> fs | None \<Rightarrow> []) = f AND 0xF0"
proof -
  have "str_from_u8 f = (if bit f 7 then ''R'' else []) @ (if bit f 6 then ''P'' else [])
      @ (if bit f 5 then ''E'' else []) @ (if bit f 4 then ''T'' else [])"
    by (simp add: str_from_u8_def flag_bits)
  moreover have "foldl (\<lambda>f flag. f OR command_flag_u8 flag) (0 :: u8)
      (case command_flags_from_str ((if r then ''R'' else []) @ (if p then ''P'' else []) @ (if e then ''E'' else [])
         @ (if t then ''T'' else [])) of Some fs \<Rightarrow> fs | None \<Rightarrow> [])
      = (if r then 0x80 else 0) OR (if p then 0x40 else 0) OR (if e then 0x20 else 0) OR (if t then 0x10 else 0)"
    for r p e t
    by (cases r; cases p; cases e; cases t)
       (simp_all add: command_flags_from_str_def to_lowercase_def flag_of_letter map_filter_simps)
  ultimately show ?thesis by (simp only: flag_nibble)
qed

text \<open>The header members alone determine the header of the command read back.\<close>

lemma header_pairs_no_avps: "(\<Sum>kv\<in>#flat_pairs (header_json c cm). mset (pair_avps p m kv)) = {#}"
proof -
  have "member_avps p m kv = []" if "kv \<in> set (header_json c cm)" for kv
    using that header_json_names [of c cm] by (auto simp: member_avps_def)
  then have "concat (map (member_avps p m) (header_json c cm)) = []" by simp
  then show ?thesis using scanned_avps_mset [of p m "header_json c cm"] by (metis mset.simps(1))
qed

lemma json_object_roundtrip:
  assumes c: "list_all (faithful_avp p am) (c_avps c)"
    and d: "command_get_by_code (command_map_new ds) (c_code c) True = Some d"
  shows "\<exists>v c'. to_json p c (command_map_new ds) am = Ok v
       \<and> from_json_value p v (command_map_new ds) am = Ok c'
       \<and> c_code c' = c_code c \<and> c_application_id c' = c_application_id c
       \<and> c_hop_by_hop_id c' = c_hop_by_hop_id c \<and> c_end_to_end_id c' = c_end_to_end_id c
       \<and> c_flags c' = command_json_flags d OR (c_flags c AND 0xF0)
       \<and> c_avps c' = sort_avps d am (c_avps c') \<and> mset (c_avps c') = mset (c_avps c)"
proof -
  let ?cm = "command_map_new ds"
  obtain nvs where nvs: "named_avps p am (c_avps c) = Ok nvs"
    and ok: "\<forall>nv\<in>set nvs. \<not> is_array (snd nv) \<and> fst nv \<notin> set reserved_names"
    and av: "(\<Sum>nv\<in>#mset nvs. mset (pair_avps p am nv)) = mset (c_avps c)"
    using faithful_named [OF c] by blast
  let ?obj = "foldl add_named (header_json c ?cm) nvs"
  have wf: "obj_wf ?obj" by (rule foldl_add_named_wf [OF header_json_wf])
  have get: "obj_get ?obj k = obj_get (header_json c ?cm) k" if "k \<in> set reserved_names" for k
    using ok that by (intro foldl_add_named_other header_json_wf) auto
  note gets = get [unfolded reserved_names_def header_names_def, simplified]
  have rt: "ucast (ucast w :: u64) = w" for w :: u32
    by (rule bit_word_eqI) (simp add: bit_simps)
  have defn: "get_command_define ?obj ?cm = Some d"
    using d by (simp add: get_command_define_def gets header_json_get number_of_u32_def rt)
  let ?st = "foldl (scan_member p am) \<lparr>s_avps = [], s_application_id = d_application_id d, s_hop_by_hop_id = 0,
               s_end_to_end_id = 0, s_flags = 0\<rparr> ?obj"
  have dist: "distinct (map fst ?obj)" by (rule obj_wf_distinct [OF wf])
  note look = gets [unfolded obj_get_def] header_json_get [unfolded obj_get_def]
  have "s_application_id ?st = c_application_id c" "s_hop_by_hop_id ?st = c_hop_by_hop_id c"
    "s_end_to_end_id ?st = c_end_to_end_id c" "s_flags ?st = c_flags c AND 0xF0"
    by (simp_all add: app_field.field_scan [OF dist] hbh_field.field_scan [OF dist] e2e_field.field_scan [OF dist]
        flags_field.field_scan [OF dist] look number_of_u32_def rt flags_from_letters)
  moreover have "mset (s_avps ?st) = mset (c_avps c)"
    using flat_pairs_foldl [OF header_json_wf, of nvs c ?cm] ok av
    by (simp add: scan_avps scanned_avps_mset header_pairs_no_avps)
  moreover have "sort_avps d am (sort_avps d am (s_avps ?st)) = sort_avps d am (s_avps ?st)"
    by (simp add: sort_avps_def sort_key_id_if_sorted)
  ultimately show ?thesis
    using nvs defn command_get_by_code_sound(1) [OF d]
    by (intro exI [of _ "JObject ?obj"] exI [of _ "command_new (d_code d) (command_json_flags d OR s_flags ?st)
          (s_application_id ?st) (s_hop_by_hop_id ?st) (s_end_to_end_id ?st) (sort_avps d am (s_avps ?st))"])
       (simp add: to_json_def from_json_value_def Let_def command_new_def sort_avps_mset)
qed

lemma named_avps_no_Panic: "\<forall>a\<in>set as. a_data a \<noteq> None \<Longrightarrow> \<exists>nvs. named_avps p m as = Ok nvs"
proof (induction as)
  case (Cons a as)
  then obtain nvs where "named_avps p m as = Ok nvs" by auto
  moreover have "avp_to_name_value p m a \<noteq> Panic" using Cons.prems by (intro avp_to_name_value_no_Panic) simp
  ultimately show ?case by (cases "avp_to_name_value p m a") auto
qed simp

lemma named_avps_renders: "\<forall>a\<in>set as. avp_to_name_value p m a \<noteq> Panic \<Longrightarrow> named_avps p m as \<noteq> Panic"
proof (induction as)
  case (Cons a as)
  then show ?case by (cases "avp_to_name_value p m a") auto
qed simp

text \<open>A command that was read from JSON, with a host and a realm set on it, is rendered.\<close>

lemma from_json_value_avps:
  assumes "from_json_value p v cm am = Ok c" "a \<in> set (c_avps c)"
  shows "\<exists>n w. name_value_to_avp p am n w = Some a"
proof -
  obtain kv where "a \<in> set (member_avps p am kv)"
    using assms by (auto simp: from_json_value_def command_new_def Let_def scan_avps sort_avps_def split: option.splits)
  then show ?thesis
    by (cases "snd kv"; auto simp: member_avps_def map_filter_def split: if_splits option.splits; blast)
qed

lemma set_or_push_renders:
  assumes "\<forall>a\<in>set as. avp_to_name_value p m a \<noteq> Panic" "\<And>a. a_data (f a) \<noteq> None" "a_data b \<noteq> None"
  shows "\<forall>a\<in>set (set_or_push code f b as). avp_to_name_value p m a \<noteq> Panic"
proof -
  have "avp_to_name_value p m b \<noteq> Panic" "avp_to_name_value p m (f a) \<noteq> Panic" for a
    using assms(2,3) by (simp_all only: avp_to_name_value_no_Panic not_False_eq_True)
  then show ?thesis using assms(1) by (induction as) auto
qed

lemma set_origin_renders:
  "\<forall>a\<in>set (c_avps c). avp_to_name_value p m a \<noteq> Panic \<Longrightarrow>
   \<forall>a\<in>set (c_avps (set_origin_host c h)). avp_to_name_value p m a \<noteq> Panic"
  "\<forall>a\<in>set (c_avps c). avp_to_name_value p m a \<noteq> Panic \<Longrightarrow>
   \<forall>a\<in>set (c_avps (set_origin_realm c h)). avp_to_name_value p m a \<noteq> Panic"
proof -
  have f: "a_data (set_utf8_string a h) \<noteq> None" "a_data (from_utf8_string k 0x40 None h) \<noteq> None" for a k
    by (cases a, simp_all add: set_utf8_string_def from_utf8_string_def avp_new_def)
  show "\<forall>a\<in>set (c_avps c). avp_to_name_value p m a \<noteq> Panic \<Longrightarrow>
      \<forall>a\<in>set (c_avps (set_origin_host c h)). avp_to_name_value p m a \<noteq> Panic"
    using set_or_push_renders [OF _ f] by (simp add: set_origin_host_def)
  show "\<forall>a\<in>set (c_avps c). avp_to_name_value p m a \<noteq> Panic \<Longrightarrow>
      \<forall>a\<in>set (c_avps (set_origin_realm c h)). avp_to_name_value p m a \<noteq> Panic"
    using set_or_push_renders [OF _ f] by (simp add: set_origin_realm_def)
qed

lemma to_json_renders: "\<forall>a\<in>set (c_avps c). avp_to_name_value p m a \<noteq> Panic \<Longrightarrow> to_json p c cm m \<noteq> Panic"
  by (simp add: to_json_def named_avps_renders)

lemma from_json_value_renders:
  "groups_coherent am \<Longrightarrow> from_json_value p v cm am = Ok c \<Longrightarrow> \<forall>a\<in>set (c_avps c). avp_to_name_value p am a \<noteq> Panic"
  using from_json_value_avps name_value_to_avp_renders by blast

lemma command_decode_has_data: "command_decode data = Ok c \<Longrightarrow> \<forall>a\<in>set (c_avps c). a_data a \<noteq> None"
  by (auto simp: command_decode_def command_new_def Let_def split: if_splits outcome.splits
      dest: decode_loop_has_data)

lemma is_request_or: "x AND 0x80 \<noteq> 0 \<Longrightarrow> (x OR y) AND 0x80 \<noteq> (0 :: u8)"
  unfolding vendor_flag_bit by (simp add: bit_or_iff)

lemma request_definition_flags: "d_request d \<Longrightarrow> command_json_flags d AND 0x80 \<noteq> 0"
  unfolding command_json_flags_def by (rule is_request_or) simp

section \<open>Properties\<close>

text \<open>C14. A command whose AVPs the dictionary renders faithfully and whose code has a request
  definition, rendered as JSON and read back, has the same code, application and identifiers and
  exactly its AVPs, in the order the definition prescribes; repeated AVPs go through a JSON array and
  are all kept. Its flags are those of the definition together with its own, so an answer comes back
  as a request; a command that has the flags of the definition comes back with nothing changed but
  the order of its AVPs.\<close>

theorem command_json_roundtrip:
  assumes "list_all (faithful_avp p am) (c_avps c)"
    and "command_get_by_code (command_map_new ds) (c_code c) True = Some d"
  shows "\<exists>v c'. to_json p c (command_map_new ds) am = Ok v
       \<and> from_json_value p v (command_map_new ds) am = Ok c'
       \<and> c_code c' = c_code c \<and> c_application_id c' = c_application_id c
       \<and> c_hop_by_hop_id c' = c_hop_by_hop_id c \<and> c_end_to_end_id c' = c_end_to_end_id c
       \<and> c_flags c' = command_json_flags d OR (c_flags c AND 0xF0)
       \<and> c_avps c' = sort_avps d am (c_avps c') \<and> mset (c_avps c') = mset (c_avps c)
       \<and> is_request c'
       \<and> (command_json_flags d OR (c_flags c AND 0xF0) = c_flags c \<longrightarrow> c' = c\<lparr>c_avps := c_avps c'\<rparr>)"
proof -
  from json_object_roundtrip [OF assms] obtain v c' where c': "to_json p c (command_map_new ds) am = Ok v"
    "from_json_value p v (command_map_new ds) am = Ok c'"
    "c_code c' = c_code c" "c_application_id c' = c_application_id c" "c_hop_by_hop_id c' = c_hop_by_hop_id c"
    "c_end_to_end_id c' = c_end_to_end_id c" "c_flags c' = command_json_flags d OR (c_flags c AND 0xF0)"
    "c_avps c' = sort_avps d am (c_avps c')" "mset (c_avps c') = mset (c_avps c)"
    by blast
  have "d_request d" using command_get_by_code_sound [OF assms(2)] by simp
  then have "is_request c'"
    using is_request_or [OF request_definition_flags] c'(7) by (simp add: is_request_def)
  moreover have "c' = c\<lparr>c_avps := c_avps c'\<rparr>" if "command_json_flags d OR (c_flags c AND 0xF0) = c_flags c"
    using that c'(3-7) by (intro command.equality) simp_all
  ultimately show ?thesis using c' by blast
qed

theorem command_json_roundtrip_witness:
  "\<forall>p. let c = command_new 282 0xC0 0 7 9 [from_unsigned32 273 0x40 None 1, from_utf8_string 264 0x40 None ''dra''] in
     \<exists>v c'. to_json p c (command_map_new []) (avp_map_new []) = Ok v
       \<and> from_json_value p v (command_map_new []) (avp_map_new []) = Ok c'
       \<and> c' = c\<lparr>c_avps := c_avps c'\<rparr> \<and> mset (c_avps c') = mset (c_avps c)"
proof
  fix p :: platform
  let ?as = "[from_unsigned32 273 0x40 None 1, from_utf8_string 264 0x40 None ''dra'']"
  let ?c = "command_new 282 0xC0 0 7 9 ?as"
  have f: "list_all (faithful_avp p (avp_map_new [])) (c_avps ?c)" by code_simp
  have "map_option command_json_flags (find (\<lambda>d. d_code d = 282 \<and> d_request d = True) (standard_commands @ [])) = Some 0xC0"
    by code_simp
  then obtain d where d: "command_get_by_code (command_map_new []) (c_code ?c) True = Some d" "command_json_flags d = 0xC0"
    by (auto simp: command_map_new_get_by_code command_new_def)
  have "command_json_flags d OR (c_flags ?c AND 0xF0) = c_flags ?c" by (simp add: d(2) command_new_def)
  then show "let c = ?c in \<exists>v c'. to_json p c (command_map_new []) (avp_map_new []) = Ok v
       \<and> from_json_value p v (command_map_new []) (avp_map_new []) = Ok c'
       \<and> c' = c\<lparr>c_avps := c_avps c'\<rparr> \<and> mset (c_avps c') = mset (c_avps c)"
    using command_json_roundtrip [OF f d(1)] unfolding Let_def by blast
qed

text \<open>The JSON form does not record whether a command is an answer: an answer rendered as JSON
  and read back is a request, because the reader takes the code with a missing
  \<open>request\<close> member for a request.\<close>

theorem answer_read_back_as_request:
  assumes "is_answer c" and "list_all (faithful_avp p am) (c_avps c)"
    and "command_get_by_code (command_map_new ds) (c_code c) True = Some d"
  shows "\<exists>v c'. to_json p c (command_map_new ds) am = Ok v
       \<and> from_json_value p v (command_map_new ds) am = Ok c' \<and> is_request c'"
proof -
  have "command_json_flags d AND 0x80 \<noteq> 0"
    using command_get_by_code_sound(2) [OF assms(3)] by (simp add: request_definition_flags)
  then have "(command_json_flags d OR x) AND 0x80 \<noteq> 0" for x by (rule is_request_or)
  then show ?thesis using json_object_roundtrip [OF assms(2,3)] unfolding is_request_def by metis
qed

theorem answer_read_back_as_request_witness:
  "\<forall>p. let c = command_new 280 0 0 7 9 [] in is_answer c \<and>
     (\<exists>v c'. to_json p c (command_map_new []) (avp_map_new []) = Ok v
       \<and> from_json_value p v (command_map_new []) (avp_map_new []) = Ok c' \<and> is_request c')"
proof
  fix p :: platform
  let ?c = "command_new 280 0 0 7 9 []"
  have a: "is_answer ?c" by (simp add: is_answer_def is_request_def command_new_def)
  have f: "list_all (faithful_avp p (avp_map_new [])) (c_avps ?c)" by (simp add: command_new_def)
  have "find (\<lambda>d. d_code d = 280 \<and> d_request d = True) (standard_commands @ []) \<noteq> None" by code_simp
  then obtain d where "command_get_by_code (command_map_new []) (c_code ?c) True = Some d"
    by (auto simp: command_map_new_get_by_code command_new_def)
  from answer_read_back_as_request [OF a f this] a
  show "let c = ?c in is_answer c \<and> (\<exists>v c'. to_json p c (command_map_new []) (avp_map_new []) = Ok v
       \<and> from_json_value p v (command_map_new []) (avp_map_new []) = Ok c' \<and> is_request c')"
    unfolding Let_def by blast
qed

text \<open>Every command decoded from the wire can be rendered as JSON: the translation does not
  panic, and its result is an object with strictly ascending member names.\<close>

theorem received_command_to_json:
  assumes "command_decode data = Ok c"
  shows "\<exists>obj. to_json p c cm am = Ok (JObject obj) \<and> obj_wf obj"
  using named_avps_no_Panic [OF command_decode_has_data [OF assms], of p am]
  by (auto simp: to_json_def intro!: foldl_add_named_wf header_json_wf)

theorem received_command_to_json_witness:
  "\<forall>p. \<exists>obj. to_json p (command_new 280 0x80 0 1 2 []) (command_map_new []) (avp_map_new []) = Ok (JObject obj)
            \<and> obj_wf obj"
proof -
  have "wf_command (command_new 280 0x80 0 1 2 [])"
    by (simp add: wf_command_def command_new_def command_length_def)
  then have "command_decode (command_encode (command_new 280 0x80 0 1 2 [])) = Ok (command_new 280 0x80 0 1 2 [])"
    using command_decode_encode [of _ "[]"] by (fastforce simp: command_raw_def command_new_def)
  then show ?thesis using received_command_to_json by blast
qed

text \<open>\<open>sort_avps\<close> is a stable sort by the position the command definition gives each AVP:
  nothing is lost or invented, and AVPs of one position, in particular those the definition does
  not list, keep their order.\<close>

theorem sort_avps_correct:
  "mset (sort_avps d m avps) = mset avps \<and> sorted (map (avp_position d m) (sort_avps d m avps))
   \<and> filter (\<lambda>a. avp_position d m a = k) (sort_avps d m avps) = filter (\<lambda>a. avp_position d m a = k) avps"
  using sort_avps_mset sort_avps_sorted sort_avps_stable by blast

text \<open>Looking a command up by code finds the first definition added with that code and direction,
  standard commands before loaded ones; looking it up by name, in any letter case, finds the
  last. A loaded definition of a standard command is therefore used by name but not by code.\<close>

theorem command_lookup:
  "command_get_by_code (command_map_new ds) c r
     = find (\<lambda>d. d_code d = c \<and> d_request d = r) (standard_commands @ ds)
   \<and> command_get_by_name (command_map_new ds) n
     = find (\<lambda>d. to_lowercase n = to_lowercase (d_long_name d) \<or> to_lowercase n = to_lowercase (d_short_name d))
         (rev (standard_commands @ ds))"
  using command_map_new_get_by_code command_map_new_get_by_name by blast

end
