(* ===== verification/Pending_Tables.thy ===== *)
theory Pending_Tables
  imports Command_Codec
begin

text \<open>
  The tables that match answers with requests: \<open>transport/id_generator.rs\<close>,
  \<open>transport/hop_by_hop_id_mapper.rs\<close> and \<open>transport/answer_manager.rs\<close>. Every operation
  that reads the clock takes the instant as an argument; the reads of one call are taken as one.
  Each operation holds the table's mutex, so an execution is a sequence of operations.
\<close>

section \<open>The id generator\<close>

type_synonym id_generator = u32

definition id_generator_new :: id_generator where
  "id_generator_new = 0"

definition next_id :: "id_generator \<Rightarrow> u32 \<times> id_generator" where
  "next_id g = (g, g + 1)"

text \<open>The ids of \<open>n\<close> consecutive calls.\<close>

primrec take_ids :: "nat \<Rightarrow> id_generator \<Rightarrow> u32 list" where
  "take_ids 0 g = []"
| "take_ids (Suc n) g = (let (i, g') = next_id g in i # take_ids n g')"

lemma take_ids_map: "take_ids n g = map (\<lambda>k. g + of_nat k) [0..<n]"
proof (induction n arbitrary: g)
  case (Suc n)
  have "[0..<Suc n] = 0 # map Suc [0..<n]" by (simp add: map_Suc_upt upt_conv_Cons)
  then show ?case by (simp add: Suc next_id_def comp_def algebra_simps del: upt_Suc)
qed simp

lemma of_nat_u32_inj:
  assumes "j < 2 ^ 32" and "k < 2 ^ 32" and "(of_nat j :: u32) = of_nat k"
  shows "j = k"
proof -
  have "unat (of_nat j :: u32) = j" "unat (of_nat k :: u32) = k" using assms(1,2) by (simp_all add: unat_of_nat)
  then show ?thesis using assms(3) by metis
qed

lemma distinct_take_ids: "n \<le> 2 ^ 32 \<Longrightarrow> distinct (take_ids n g)"
proof -
  assume n: "n \<le> 2 ^ 32"
  have "inj_on (\<lambda>k. g + of_nat k :: u32) {0..<n}"
  proof (rule inj_onI)
    fix j k assume "j \<in> {0..<n}" "k \<in> {0..<n}" and eq: "g + of_nat j = g + (of_nat k :: u32)"
    then have "j < 2 ^ 32" "k < 2 ^ 32" using n by (meson atLeastLessThan_iff less_le_trans)+
    then show "j = k" using eq by (intro of_nat_u32_inj) (simp_all only: add_left_cancel)
  qed
  then show ?thesis by (simp add: take_ids_map distinct_map)
qed

section \<open>The hop-by-hop id mapper\<close>

record hbh_mapper =
  hm_map :: "u32 \<rightharpoonup> u32 \<times> instant"
  hm_next_cleanup :: instant

definition hbh_mapper_new :: "instant \<Rightarrow> hbh_mapper" where
  "hbh_mapper_new now = \<lparr>hm_map = Map.empty, hm_next_cleanup = now + 30\<rparr>"

definition hm_clean_expired_entries :: "hbh_mapper \<Rightarrow> instant \<Rightarrow> hbh_mapper" where
  "hm_clean_expired_entries s now =
     (if now < hm_next_cleanup s then s
      else s\<lparr>hm_next_cleanup := now + 30,
             hm_map := retain (\<lambda>_ (orig, timeout). \<not> timeout < now) (hm_map s)\<rparr>)"

definition add_mapping :: "hbh_mapper \<Rightarrow> instant \<Rightarrow> u32 \<Rightarrow> u32 \<Rightarrow> hbh_mapper" where
  "add_mapping s now new_id orig_id =
     (let s' = hm_clean_expired_entries s now in
      s'\<lparr>hm_map := (hm_map s')(new_id \<mapsto> (orig_id, now + 300))\<rparr>)"

definition remove_mapping :: "hbh_mapper \<Rightarrow> instant \<Rightarrow> u32 \<Rightarrow> u32 option \<times> hbh_mapper" where
  "remove_mapping s now new_id =
     (case hm_map s new_id of
        Some (orig, timeout) \<Rightarrow>
          (if timeout < now then None else Some orig, s\<lparr>hm_map := (hm_map s)(new_id := None)\<rparr>)
      | None \<Rightarrow> (None, s))"

definition get_original_id :: "hbh_mapper \<Rightarrow> instant \<Rightarrow> u32 \<Rightarrow> u32 option" where
  "get_original_id s now new_id =
     (case hm_map s new_id of
        Some (orig, timeout) \<Rightarrow> if timeout < now then None else Some orig
      | None \<Rightarrow> None)"

section \<open>The answer manager\<close>

text \<open>
  An \<open>AnswerInfo\<close> is shared between the table and the task that waits for it (an
  \<open>Arc\<close>), so it lives in a store and is named by its index. \<open>ai_permit\<close> is the permit
  \<open>notify_one\<close> leaves and \<open>notified\<close> consumes.
\<close>

record answer_info =
  ai_connection_id :: string
  ai_answer_host :: string
  ai_answer_realm :: string
  ai_permit :: bool
  ai_answer :: "command option"
  ai_timeout :: instant

record answer_manager =
  am_map :: "u32 \<rightharpoonup> nat"
  am_infos :: "answer_info list"
  am_next_cleanup :: instant

definition answer_manager_new :: "instant \<Rightarrow> answer_manager" where
  "answer_manager_new now = \<lparr>am_map = Map.empty, am_infos = [], am_next_cleanup = now + 30\<rparr>"

definition am_clean_expired_entries :: "answer_manager \<Rightarrow> instant \<Rightarrow> answer_manager" where
  "am_clean_expired_entries s now =
     (if now < am_next_cleanup s then s
      else s\<lparr>am_next_cleanup := now + 30,
             am_map := retain (\<lambda>_ h. \<not> ai_timeout (am_infos s ! h) < now) (am_map s)\<rparr>)"

definition prepare_for_answer ::
  "answer_manager \<Rightarrow> instant \<Rightarrow> u32 \<Rightarrow> string \<Rightarrow> string \<Rightarrow> string \<Rightarrow> answer_manager" where
  "prepare_for_answer s now hbh conn host realm =
     (let s' = am_clean_expired_entries s now in
      s'\<lparr>am_infos := am_infos s' @ [\<lparr>ai_connection_id = conn, ai_answer_host = host, ai_answer_realm = realm,
                                      ai_permit = False, ai_answer = None, ai_timeout = now + 60\<rparr>],
         am_map := (am_map s')(hbh \<mapsto> length (am_infos s'))\<rparr>)"

definition get_answer_info :: "answer_manager \<Rightarrow> u32 \<Rightarrow> nat option" where
  "get_answer_info s hbh = am_map s hbh"

definition set_answer :: "answer_manager \<Rightarrow> nat \<Rightarrow> command \<Rightarrow> answer_manager" where
  "set_answer s h answer =
     s\<lparr>am_infos := (am_infos s)[h := (am_infos s ! h)\<lparr>ai_answer := Some answer, ai_permit := True\<rparr>]\<rparr>"

definition answer_received :: "answer_manager \<Rightarrow> command \<Rightarrow> (string \<times> string \<times> string) option \<times> answer_manager" where
  "answer_received s answer =
     (case get_answer_info s (c_hop_by_hop_id answer) of
        Some h \<Rightarrow>
          (Some (ai_connection_id (am_infos s ! h), ai_answer_host (am_infos s ! h), ai_answer_realm (am_infos s ! h)),
           set_answer s h answer)
      | None \<Rightarrow> (None, s))"

text \<open>
  \<open>wait_answer\<close> looks the entry up once and then waits on it: \<open>begin_wait\<close> is the
  lookup (\<open>None\<close> ends the wait at once without an answer), \<open>poll_wait\<close> one poll of
  the entry, \<open>None\<close> while the wait goes on.
\<close>

definition begin_wait :: "answer_manager \<Rightarrow> u32 \<Rightarrow> nat option" where
  "begin_wait s hbh = get_answer_info s hbh"

definition poll_wait :: "answer_manager \<Rightarrow> nat \<Rightarrow> command option option \<times> answer_manager" where
  "poll_wait s h =
     (if ai_permit (am_infos s ! h)
      then (Some (ai_answer (am_infos s ! h)), s\<lparr>am_infos := (am_infos s)[h := (am_infos s ! h)\<lparr>ai_permit := False\<rparr>]\<rparr>)
      else (None, s))"

definition am_wf :: "answer_manager \<Rightarrow> bool" where
  "am_wf s \<longleftrightarrow> (\<forall>hbh h. am_map s hbh = Some h \<longrightarrow> h < length (am_infos s))"

section \<open>Tables with a time to live\<close>

text \<open>
  What both tables promise their clients: an inserted entry is found until its time to live has
  passed, and inserting under another key, with the cleanup it triggers, takes no live entry away.
\<close>

locale ttl_table =
  fixes ins :: "'s \<Rightarrow> instant \<Rightarrow> 'k \<Rightarrow> 'v \<Rightarrow> 's" and lookup :: "'s \<Rightarrow> 'k \<Rightarrow> 'v option"
    and deadline :: "'s \<Rightarrow> 'k \<Rightarrow> instant" and ttl :: nat and inv :: "'s \<Rightarrow> bool"
  assumes inv_ins: "inv s \<Longrightarrow> inv (ins s now k v)"
    and ins_same: "inv s \<Longrightarrow> lookup (ins s now k v) k = Some v"
    and deadline_same: "inv s \<Longrightarrow> deadline (ins s now k v) k = now + ttl"
    and ins_other: "inv s \<Longrightarrow> k' \<noteq> k \<Longrightarrow> lookup s k' = Some v' \<Longrightarrow> now \<le> deadline s k' \<Longrightarrow>
          lookup (ins s now k v) k' = Some v' \<and> deadline (ins s now k v) k' = deadline s k'"
begin

definition ins_all :: "'s \<Rightarrow> (instant \<times> 'k \<times> 'v) list \<Rightarrow> 's" where
  "ins_all s ops = foldl (\<lambda>s (t, k, v). ins s t k v) s ops"

lemma inv_ins_all: "inv s \<Longrightarrow> inv (ins_all s ops)"
  by (induction ops arbitrary: s) (auto simp: ins_all_def inv_ins)

lemma live_kept:
  "inv s \<Longrightarrow> lookup s k = Some v \<Longrightarrow> \<forall>(t, k', _)\<in>set ops. k' \<noteq> k \<and> t \<le> deadline s k \<Longrightarrow>
   lookup (ins_all s ops) k = Some v \<and> deadline (ins_all s ops) k = deadline s k"
proof (induction ops arbitrary: s)
  case (Cons op ops)
  obtain t k' v' where op: "op = (t, k', v')" by (cases op)
  have step: "lookup (ins s t k' v') k = Some v" "deadline (ins s t k' v') k = deadline s k"
    using ins_other [of s k k' v t v'] Cons.prems by (auto simp: op)
  then show ?case using Cons.IH [of "ins s t k' v'"] Cons.prems inv_ins
    by (auto simp: op ins_all_def)
qed (simp add: ins_all_def)

theorem found_until_deadline:
  assumes "inv s" and "\<forall>(t, k', _)\<in>set later. k' \<noteq> k \<and> t \<le> now + ttl"
  shows "lookup (ins_all (ins s now k v) later) k = Some v
       \<and> deadline (ins_all (ins s now k v) later) k = now + ttl"
  using live_kept [of "ins s now k v" k v later] assms inv_ins ins_same deadline_same by auto

end

definition hm_lookup :: "hbh_mapper \<Rightarrow> u32 \<Rightarrow> u32 option" where
  "hm_lookup s k = map_option fst (hm_map s k)"

definition hm_deadline :: "hbh_mapper \<Rightarrow> u32 \<Rightarrow> instant" where
  "hm_deadline s k = (case hm_map s k of Some (_, t) \<Rightarrow> t | None \<Rightarrow> 0)"

interpretation mapper: ttl_table add_mapping hm_lookup hm_deadline 300 "\<lambda>_. True"
  by unfold_locales
     (auto simp: add_mapping_def hm_lookup_def hm_deadline_def hm_clean_expired_entries_def retain_def Let_def
       split: option.splits if_splits)

text \<open>The entry of the answer manager, by what a waiter and an answer need of it.\<close>

definition am_lookup :: "answer_manager \<Rightarrow> u32 \<Rightarrow> (string \<times> string \<times> string) option" where
  "am_lookup s hbh = map_option (\<lambda>h. (ai_connection_id (am_infos s ! h), ai_answer_host (am_infos s ! h),
       ai_answer_realm (am_infos s ! h))) (am_map s hbh)"

definition am_deadline :: "answer_manager \<Rightarrow> u32 \<Rightarrow> instant" where
  "am_deadline s hbh = (case am_map s hbh of Some h \<Rightarrow> ai_timeout (am_infos s ! h) | None \<Rightarrow> 0)"

lemma am_wf_clean: "am_wf s \<Longrightarrow> am_wf (am_clean_expired_entries s now)"
  by (auto simp: am_wf_def am_clean_expired_entries_def retain_def split: option.splits if_splits)

lemma am_infos_clean [simp]: "am_infos (am_clean_expired_entries s now) = am_infos s"
  by (simp add: am_clean_expired_entries_def)

interpretation answers: ttl_table "\<lambda>s now hbh (conn, host, realm). prepare_for_answer s now hbh conn host realm"
  am_lookup am_deadline 60 am_wf
proof
  fix s now k k' and v v' :: "string \<times> string \<times> string"
  assume wf: "am_wf s"
  note defs = prepare_for_answer_def Let_def am_lookup_def am_deadline_def
  obtain c h r where v: "v = (c, h, r)" by (cases v)
  show "am_wf (case v of (conn, host, realm) \<Rightarrow> prepare_for_answer s now k conn host realm)"
    using am_wf_clean [OF wf, of now] by (auto simp: v prepare_for_answer_def Let_def am_wf_def less_Suc_eq)
  show "am_lookup (case v of (conn, host, realm) \<Rightarrow> prepare_for_answer s now k conn host realm) k = Some v"
    "am_deadline (case v of (conn, host, realm) \<Rightarrow> prepare_for_answer s now k conn host realm) k = now + 60"
    by (simp_all add: v defs)
  show "am_lookup (case v of (conn, host, realm) \<Rightarrow> prepare_for_answer s now k conn host realm) k' = Some v' \<and>
      am_deadline (case v of (conn, host, realm) \<Rightarrow> prepare_for_answer s now k conn host realm) k' = am_deadline s k'"
    if new: "k' \<noteq> k" and look: "am_lookup s k' = Some v'" and live: "now \<le> am_deadline s k'"
  proof -
    obtain i where i: "am_map s k' = Some i" "i < length (am_infos s)"
      using look wf by (auto simp: am_lookup_def am_wf_def)
    then have "am_map (am_clean_expired_entries s now) k' = Some i"
      using live by (simp add: am_clean_expired_entries_def retain_def am_deadline_def)
    then show ?thesis using i new look by (simp add: v defs nth_append)
  qed
qed

section \<open>Ids and mappings together\<close>

text \<open>
  Forwarding a sequence of requests, as the connections do it: a fresh hop-by-hop id for each, and
  a mapping from it to the id the request came with.
\<close>

primrec allocate :: "(instant \<times> u32) list \<Rightarrow> id_generator \<Rightarrow> hbh_mapper \<Rightarrow> hbh_mapper" where
  "allocate [] g s = s"
| "allocate (r # rs) g s = (let (i, g') = next_id g in allocate rs g' (add_mapping s (fst r) i (snd r)))"

lemma allocate_ins_all:
  "allocate rs g s = mapper.ins_all s (map2 (\<lambda>i r. (fst r, i, snd r)) (take_ids (length rs) g) rs)"
  by (induction rs arbitrary: g s) (simp_all add: next_id_def mapper.ins_all_def Let_def)

lemma allocate_append: "allocate (xs @ ys) g s = allocate ys (g + of_nat (length xs)) (allocate xs g s)"
  by (induction xs arbitrary: g s) (simp_all add: next_id_def Let_def algebra_simps)

lemma allocated_found:
  assumes "length xs + length ys < 2 ^ 32" and "\<forall>y\<in>set ys. fst y \<le> fst r + 300"
  shows "hm_map (allocate (xs @ r # ys) g s) (g + of_nat (length xs)) = Some (snd r, fst r + 300)"
proof -
  let ?i = "g + of_nat (length xs)"
  let ?s = "allocate xs g s"
  let ?later = "map2 (\<lambda>i r. (fst r, i, snd r)) (take_ids (length ys) (?i + 1)) ys"
  have al: "allocate (xs @ r # ys) g s = mapper.ins_all (add_mapping ?s (fst r) ?i (snd r)) ?later"
    by (simp add: allocate_append allocate_ins_all [of ys] next_id_def Let_def)
  have "distinct (take_ids (Suc (length ys)) ?i)" using assms(1) by (intro distinct_take_ids) simp
  then have new: "?i \<notin> set (take_ids (length ys) (?i + 1))" by (simp add: next_id_def)
  have "\<forall>(t, k', _)\<in>set ?later. k' \<noteq> ?i \<and> t \<le> fst r + 300"
    using new assms(2) by (auto dest: set_zip_leftD set_zip_rightD)
  from mapper.found_until_deadline [OF TrueI this, of ?s "snd r"]
  show ?thesis unfolding al by (auto simp: hm_lookup_def hm_deadline_def split: option.splits)
qed

section \<open>Delivery of answers\<close>

text \<open>Nothing but an answer to it, or a wait on it, changes an entry of the store.\<close>

lemma prepare_keeps_entries:
  "h < length (am_infos s) \<Longrightarrow> am_infos (prepare_for_answer s now hbh c ho r) ! h = am_infos s ! h"
  by (simp add: prepare_for_answer_def Let_def nth_append)

lemma answer_received_Some:
  assumes "am_wf s" and "am_map s (c_hop_by_hop_id a) = Some h"
  shows "fst (answer_received s a) = am_lookup s (c_hop_by_hop_id a)"
    and "fst (poll_wait (snd (answer_received s a)) h) = Some (Some a)"
    and "h' \<noteq> h \<Longrightarrow> am_infos (snd (answer_received s a)) ! h' = am_infos s ! h'"
  using assms by (simp_all add: answer_received_def get_answer_info_def am_lookup_def set_answer_def poll_wait_def am_wf_def)

section \<open>Properties\<close>

text \<open>Hop-by-hop ids are restored: among up to \<open>2 ^ 32\<close> forwarded requests, each under a
  fresh id, the answer to any of them that arrives within 300 seconds gets back the id the request
  came with, and only once.\<close>

theorem hop_by_hop_restored:
  assumes "length xs + length ys < 2 ^ 32" and "\<forall>y\<in>set ys. fst y \<le> fst r + 300" and "now \<le> fst r + 300"
  shows "let s = allocate (xs @ r # ys) g s0; new_id = g + of_nat (length xs);
             (orig, s') = remove_mapping s now new_id in
         orig = Some (snd r) \<and> fst (remove_mapping s' later new_id) = None"
  using assms(3) by (simp add: remove_mapping_def allocated_found [OF assms(1,2)] Let_def)

theorem hop_by_hop_restored_witness:
  "let s = allocate ([(5, 70)] @ (10, 42) # [(20, 43)]) 0xFFFFFFFF (hbh_mapper_new 0);
       (orig, s') = remove_mapping s 300 (0xFFFFFFFF + of_nat (length [(5::nat, 70::u32)])) in
   orig = Some 42 \<and> fst (remove_mapping s' 301 (0xFFFFFFFF + of_nat (length [(5::nat, 70::u32)]))) = None"
  using hop_by_hop_restored [of "[(5, 70)]" "[(20, 43)]" "(10, 42)" 300 "0xFFFFFFFF" "hbh_mapper_new 0" 301]
  by (simp add: Let_def)

text \<open>A mapping is never used after its 300 seconds: whatever the table holds, an id whose
  deadline has passed is not restored, whether or not the periodic cleanup has run.\<close>

theorem expired_mapping_not_restored:
  assumes "hm_deadline s new_id < now"
  shows "fst (remove_mapping s now new_id) = None \<and> get_original_id s now new_id = None"
  using assms by (auto simp: remove_mapping_def get_original_id_def hm_deadline_def split: option.splits)

theorem expired_mapping_not_restored_witness:
  "fst (remove_mapping (add_mapping (hbh_mapper_new 0) 10 1 42) 311 1) = None"
proof -
  have "hm_deadline (add_mapping (hbh_mapper_new 0) 10 1 42) 1 < 311"
    by (simp add: hm_deadline_def add_mapping_def Let_def)
  then show ?thesis using expired_mapping_not_restored by blast
qed

text \<open>An answer reaches the task that waits for it: within 60 seconds of
  \<open>prepare_for_answer\<close>, and whatever other requests are prepared meanwhile, the answer with the
  hop-by-hop id is matched to the connection, host and realm of the request, wakes its waiter
  with exactly that answer, and disturbs no other entry.\<close>

theorem answer_delivered:
  fixes conn host realm :: string
  assumes wf: "am_wf s0" and others: "\<forall>(t, k, _)\<in>set later. k \<noteq> c_hop_by_hop_id a \<and> t \<le> now + 60"
  defines "s \<equiv> foldl (\<lambda>s (t, k, c, h, r). prepare_for_answer s t k c h r)
                 (prepare_for_answer s0 now (c_hop_by_hop_id a) conn host realm) later"
  shows "\<exists>h. begin_wait s (c_hop_by_hop_id a) = Some h
           \<and> fst (answer_received s a) = Some (conn, host, realm)
           \<and> fst (poll_wait (snd (answer_received s a)) h) = Some (Some a)
           \<and> list_all (\<lambda>h'. h' = h \<or> am_infos (snd (answer_received s a)) ! h' = am_infos s ! h')
               [0..<length (am_infos s)]"
proof -
  let ?ins = "\<lambda>s now hbh v. case v of (conn, host, realm) \<Rightarrow> prepare_for_answer s now hbh conn host realm"
  let ?s1 = "prepare_for_answer s0 now (c_hop_by_hop_id a) conn host realm"
  have s: "s = answers.ins_all (?ins s0 now (c_hop_by_hop_id a) (conn, host, realm)) later"
    unfolding s_def answers.ins_all_def by (intro foldl_cong) auto
  have swf: "am_wf s" unfolding s by (intro answers.inv_ins_all answers.inv_ins wf)
  have look: "am_lookup s (c_hop_by_hop_id a) = Some (conn, host, realm)"
    unfolding s using answers.found_until_deadline [OF wf others] by blast
  then obtain h where h: "am_map s (c_hop_by_hop_id a) = Some h" by (auto simp: am_lookup_def)
  show ?thesis
    using answer_received_Some [OF swf h] look h
    by (intro exI [of _ h]) (auto simp: begin_wait_def get_answer_info_def list_all_iff)
qed

theorem answer_delivered_witness:
  "let a = command_new 280 0 0 7 9 []; s = prepare_for_answer (answer_manager_new 0) 10 7 ''c1'' ''h'' ''r'' in
     \<exists>h. begin_wait s 7 = Some h \<and> fst (answer_received s a) = Some (''c1'', ''h'', ''r'')
         \<and> fst (poll_wait (snd (answer_received s a)) h) = Some (Some a)"
proof -
  have "am_wf (answer_manager_new 0)" by (simp add: am_wf_def answer_manager_new_def)
  then show ?thesis
    using answer_delivered [where ?s0.0 = "answer_manager_new 0" and later = "[]" and a = "command_new 280 0 0 7 9 []"
        and now = 10 and conn = "''c1''" and host = "''h''" and realm = "''r''"]
    by (simp add: Let_def command_new_def) blast
qed

text \<open>Identifiers repeat only after \<open>2 ^ 32\<close> calls: the counter wraps, and any shorter run of
  calls gives distinct ids.\<close>

theorem ids_distinct:
  assumes "n \<le> 2 ^ 32"
  shows "distinct (take_ids n g) \<and> length (take_ids n g) = n"
  using distinct_take_ids [OF assms] by (simp add: take_ids_map)

theorem ids_distinct_witness: "distinct (take_ids 3 0xFFFFFFFE) \<and> length (take_ids 3 0xFFFFFFFE) = 3"
  by (rule ids_distinct) simp

end
