(* ===== verification/Redirect_Cache.thy ===== *)
theory Redirect_Cache
  imports Command_Codec
begin

text \<open>
  The redirect cache of \<open>transport/redirect_host_manager.rs\<close>: six tables keyed by what the
  Redirect-Host-Usage AVP says a redirection applies to, with an optional expiry. The abstract
  view of the cache at an instant is the map of its live entries; every operation is shown to
  act on that view, and the removal of expired entries to be invisible in it.
\<close>

record redirect_entry =
  re_hosts :: "string list"
  re_expires_at :: "instant option"

definition re_is_expired :: "redirect_entry \<Rightarrow> instant \<Rightarrow> bool" where
  "re_is_expired e now = (case re_expires_at e of Some t \<Rightarrow> t \<le> now | None \<Rightarrow> False)"

type_synonym redirect_table = "string \<rightharpoonup> redirect_entry"

record redirect_caches =
  rc_session :: redirect_table
  rc_realm :: redirect_table
  rc_realm_app :: redirect_table
  rc_application :: redirect_table
  rc_host :: redirect_table
  rc_user :: redirect_table
  rc_next_cleanup_time :: instant
  rc_clean_interval :: nat

definition redirect_caches_new :: "instant \<Rightarrow> redirect_caches" where
  "redirect_caches_new now =
     \<lparr>rc_session = Map.empty, rc_realm = Map.empty, rc_realm_app = Map.empty, rc_application = Map.empty,
      rc_host = Map.empty, rc_user = Map.empty, rc_next_cleanup_time = now + 30, rc_clean_interval = 30\<rparr>"

definition live_entries :: "instant \<Rightarrow> redirect_table \<Rightarrow> redirect_table" where
  "live_entries now = retain (\<lambda>_ e. \<not> re_is_expired e now)"

definition remove_expired :: "redirect_caches \<Rightarrow> instant \<Rightarrow> redirect_caches" where
  "remove_expired c now =
     (if now < rc_next_cleanup_time c then c
      else c\<lparr>rc_next_cleanup_time := now + rc_clean_interval c,
             rc_session := live_entries now (rc_session c),
             rc_realm := live_entries now (rc_realm c),
             rc_realm_app := live_entries now (rc_realm_app c),
             rc_application := live_entries now (rc_application c),
             rc_host := live_entries now (rc_host c),
             rc_user := live_entries now (rc_user c)\<rparr>)"

definition utf8_avp :: "command \<Rightarrow> u32 \<Rightarrow> string option" where
  "utf8_avp c code = Option.bind (get_avp c code) as_utf8_string"

definition realm_app_key :: "string \<Rightarrow> u32 \<Rightarrow> string" where
  "realm_app_key realm app_id = realm @ '':'' @ show_u32 app_id"

definition redirect_expiry :: "command \<Rightarrow> instant \<Rightarrow> instant option" where
  "redirect_expiry answer now =
     map_option (\<lambda>seconds. now + unat seconds)
       (Option.bind (get_avp answer (avp_code_u32 AvpRedirectMaxCacheTime)) as_unsigned32)"

definition add_redirect :: "redirect_caches \<Rightarrow> instant \<Rightarrow> command \<Rightarrow> redirect_caches" where
  "add_redirect c0 now answer =
     (let c = remove_expired c0 now;
          hosts = List.map_filter as_utf8_string (get_avps answer (avp_code_u32 AvpRedirectHost));
          usage = (case get_redirect_host_usage answer of Some u \<Rightarrow> u | None \<Rightarrow> DontCache);
          entry = \<lparr>re_hosts = hosts, re_expires_at = redirect_expiry answer now\<rparr> in
      if hosts = [] \<or> usage = DontCache then c
      else case usage of
        AllSession \<Rightarrow>
          (case utf8_avp answer (avp_code_u32 AvpSessionId) of
             Some sid \<Rightarrow> c\<lparr>rc_session := (rc_session c)(sid \<mapsto> entry)\<rparr> | None \<Rightarrow> c)
      | AllRealm \<Rightarrow>
          (case get_destination_realm answer of
             Some realm \<Rightarrow> c\<lparr>rc_realm := (rc_realm c)(realm \<mapsto> entry)\<rparr> | None \<Rightarrow> c)
      | RealmAndApplication \<Rightarrow>
          (case get_destination_realm answer of
             Some realm \<Rightarrow>
               c\<lparr>rc_realm_app := (rc_realm_app c)(realm_app_key realm (c_application_id answer) \<mapsto> entry)\<rparr>
           | None \<Rightarrow> c)
      | AllApplication \<Rightarrow>
          c\<lparr>rc_application := (rc_application c)(show_u32 (c_application_id answer) \<mapsto> entry)\<rparr>
      | AllHost \<Rightarrow>
          (case get_destination_host answer of
             Some host \<Rightarrow> c\<lparr>rc_host := (rc_host c)(host \<mapsto> entry)\<rparr> | None \<Rightarrow> c)
      | AllUser \<Rightarrow>
          (case utf8_avp answer (avp_code_u32 AvpUserName) of
             Some user \<Rightarrow> c\<lparr>rc_user := (rc_user c)(user \<mapsto> entry)\<rparr> | None \<Rightarrow> c)
      | DontCache \<Rightarrow> c)"

definition lookup_in :: "redirect_table \<Rightarrow> instant \<Rightarrow> string \<Rightarrow> string list option \<times> redirect_table" where
  "lookup_in m now key =
     (case m key of
        Some e \<Rightarrow> if re_is_expired e now then (None, m(key := None)) else (Some (re_hosts e), m)
      | None \<Rightarrow> (None, m))"

text \<open>The keys a request is looked up under, in the order of the code, and the table each is for.\<close>

datatype redirect_key =
  BySession string | ByRealmApp string | ByRealm string | ByApplication string | ByHost string | ByUser string

fun key_table :: "redirect_key \<Rightarrow> redirect_caches \<Rightarrow> redirect_table" where
  "key_table (BySession k) c = rc_session c"
| "key_table (ByRealmApp k) c = rc_realm_app c"
| "key_table (ByRealm k) c = rc_realm c"
| "key_table (ByApplication k) c = rc_application c"
| "key_table (ByHost k) c = rc_host c"
| "key_table (ByUser k) c = rc_user c"

fun key_text :: "redirect_key \<Rightarrow> string" where
  "key_text (BySession k) = k"
| "key_text (ByRealmApp k) = k"
| "key_text (ByRealm k) = k"
| "key_text (ByApplication k) = k"
| "key_text (ByHost k) = k"
| "key_text (ByUser k) = k"

fun set_key_table :: "redirect_key \<Rightarrow> redirect_table \<Rightarrow> redirect_caches \<Rightarrow> redirect_caches" where
  "set_key_table (BySession k) t c = c\<lparr>rc_session := t\<rparr>"
| "set_key_table (ByRealmApp k) t c = c\<lparr>rc_realm_app := t\<rparr>"
| "set_key_table (ByRealm k) t c = c\<lparr>rc_realm := t\<rparr>"
| "set_key_table (ByApplication k) t c = c\<lparr>rc_application := t\<rparr>"
| "set_key_table (ByHost k) t c = c\<lparr>rc_host := t\<rparr>"
| "set_key_table (ByUser k) t c = c\<lparr>rc_user := t\<rparr>"

definition redirect_keys :: "command \<Rightarrow> redirect_key list" where
  "redirect_keys request =
     (case utf8_avp request (avp_code_u32 AvpSessionId) of Some s \<Rightarrow> [BySession s] | None \<Rightarrow> [])
     @ (case get_destination_realm request of
          Some r \<Rightarrow> [ByRealmApp (realm_app_key r (c_application_id request))] | None \<Rightarrow> [])
     @ (case get_destination_realm request of Some r \<Rightarrow> [ByRealm r] | None \<Rightarrow> [])
     @ [ByApplication (show_u32 (c_application_id request))]
     @ (case get_destination_host request of Some h \<Rightarrow> [ByHost h] | None \<Rightarrow> [])
     @ (case utf8_avp request (avp_code_u32 AvpUserName) of Some u \<Rightarrow> [ByUser u] | None \<Rightarrow> [])"

fun lookup_keys :: "redirect_caches \<Rightarrow> instant \<Rightarrow> redirect_key list \<Rightarrow> string list option \<times> redirect_caches" where
  "lookup_keys c now [] = (None, c)"
| "lookup_keys c now (k # ks) =
     (case lookup_in (key_table k c) now (key_text k) of
        (Some hosts, t) \<Rightarrow> (Some hosts, set_key_table k t c)
      | (None, t) \<Rightarrow> lookup_keys (set_key_table k t c) now ks)"

definition get_redirect :: "redirect_caches \<Rightarrow> instant \<Rightarrow> command \<Rightarrow> string list option \<times> redirect_caches" where
  "get_redirect c now request = lookup_keys c now (redirect_keys request)"

section \<open>The live view\<close>

definition live_view :: "redirect_caches \<Rightarrow> instant \<Rightarrow> redirect_key \<Rightarrow> string list option" where
  "live_view c t k = map_option re_hosts (live_entries t (key_table k c) (key_text k))"

text \<open>The entry an answer contributes: its key and its hosts.\<close>

definition redirect_of_answer :: "command \<Rightarrow> (redirect_key \<times> string list) option" where
  "redirect_of_answer answer =
     (let hosts = List.map_filter as_utf8_string (get_avps answer (avp_code_u32 AvpRedirectHost)) in
      if hosts = [] then None
      else map_option (\<lambda>k. (k, hosts))
        (case get_redirect_host_usage answer of
           Some AllSession \<Rightarrow> map_option BySession (utf8_avp answer (avp_code_u32 AvpSessionId))
         | Some AllRealm \<Rightarrow> map_option ByRealm (get_destination_realm answer)
         | Some RealmAndApplication \<Rightarrow>
             map_option (\<lambda>r. ByRealmApp (realm_app_key r (c_application_id answer))) (get_destination_realm answer)
         | Some AllApplication \<Rightarrow> Some (ByApplication (show_u32 (c_application_id answer)))
         | Some AllHost \<Rightarrow> map_option ByHost (get_destination_host answer)
         | Some AllUser \<Rightarrow> map_option ByUser (utf8_avp answer (avp_code_u32 AvpUserName))
         | _ \<Rightarrow> None))"

lemma expired_later: "re_is_expired e now \<Longrightarrow> now \<le> t \<Longrightarrow> re_is_expired e t"
  by (auto simp: re_is_expired_def split: option.splits)

lemma live_entries_absorb: "now \<le> t \<Longrightarrow> live_entries t (live_entries now m) = live_entries t m"
  using expired_later by (fastforce simp: live_entries_def retain_def fun_eq_iff split: option.splits)

lemma key_table_remove_expired:
  "key_table k (remove_expired c now) = key_table k c \<or> key_table k (remove_expired c now) = live_entries now (key_table k c)"
  by (cases k) (simp_all add: remove_expired_def)

lemma live_view_remove_expired:
  assumes "now \<le> t"
  shows "live_view (remove_expired c now) t = live_view c t"
proof
  fix k
  show "live_view (remove_expired c now) t k = live_view c t k"
    using key_table_remove_expired [of k c now] live_entries_absorb [OF assms]
    by (auto simp: live_view_def)
qed

lemma lookup_in_live: "fst (lookup_in m now key) = map_option re_hosts (live_entries now m key)"
  by (simp add: lookup_in_def live_entries_def retain_def split: option.split)

lemma lookup_in_keeps: "now \<le> t \<Longrightarrow> live_entries t (snd (lookup_in m now key)) = live_entries t m"
  using expired_later by (fastforce simp: lookup_in_def live_entries_def retain_def fun_eq_iff split: option.splits)

fun key_kind :: "redirect_key \<Rightarrow> nat" where
  "key_kind (BySession k) = 0"
| "key_kind (ByRealmApp k) = 1"
| "key_kind (ByRealm k) = 2"
| "key_kind (ByApplication k) = 3"
| "key_kind (ByHost k) = 4"
| "key_kind (ByUser k) = 5"

lemma key_eq_iff: "k = k' \<longleftrightarrow> key_kind k = key_kind k' \<and> key_text k = key_text k'"
  by (cases k; cases k') simp_all

lemma key_table_kind: "key_kind k = key_kind k' \<Longrightarrow> key_table k c = key_table k' c"
  by (cases k; cases k') simp_all

lemma key_table_set: "key_table k' (set_key_table k t c) = (if key_kind k' = key_kind k then t else key_table k' c)"
  by (cases k; cases k') simp_all

lemma live_view_set_same:
  assumes "live_entries t m = live_entries t (key_table k c)"
  shows "live_view (set_key_table k m c) t = live_view c t"
proof
  fix k'
  show "live_view (set_key_table k m c) t k' = live_view c t k'"
    using assms key_table_kind [of k' k c] by (simp add: live_view_def key_table_set)
qed

text \<open>Storing an entry changes the view at its key only.\<close>

lemma live_view_store:
  "live_view (set_key_table k ((key_table k c)(key_text k \<mapsto> e)) c) t
   = (live_view c t)(k := if re_is_expired e t then None else Some (re_hosts e))"
proof
  fix k'
  show "live_view (set_key_table k ((key_table k c)(key_text k \<mapsto> e)) c) t k'
      = ((live_view c t)(k := if re_is_expired e t then None else Some (re_hosts e))) k'"
    using key_table_kind [of k' k c]
    by (auto simp: live_view_def key_table_set live_entries_def retain_def key_eq_iff)
qed

lemma add_redirect_store:
  "add_redirect c now a =
     (case redirect_of_answer a of
        Some (k, hosts) \<Rightarrow>
          (let c' = remove_expired c now in
           set_key_table k ((key_table k c')(key_text k \<mapsto>
              \<lparr>re_hosts = hosts, re_expires_at = redirect_expiry a now\<rparr>)) c')
      | None \<Rightarrow> remove_expired c now)"
proof (cases "get_redirect_host_usage a")
  case None
  then show ?thesis by (simp add: add_redirect_def redirect_of_answer_def Let_def)
next
  case (Some u)
  then show ?thesis
    by (cases u) (simp_all add: add_redirect_def redirect_of_answer_def Let_def split: option.split)
qed

lemma live_view_add_redirect:
  assumes "now \<le> t"
  shows "live_view (add_redirect c now a) t =
     (case redirect_of_answer a of
        Some (k, hosts) \<Rightarrow>
          (live_view c t)(k := if (case redirect_expiry a now of Some e \<Rightarrow> e \<le> t | None \<Rightarrow> False)
                               then None else Some hosts)
      | None \<Rightarrow> live_view c t)"
  by (auto simp: add_redirect_store Let_def live_view_store live_view_remove_expired [OF assms] re_is_expired_def
      split: option.splits)

fun first_some :: "'a option list \<Rightarrow> 'a option" where
  "first_some [] = None"
| "first_some (Some x # xs) = Some x"
| "first_some (None # xs) = first_some xs"

lemma lookup_keys_view:
  "fst (lookup_keys c now ks) = first_some (map (live_view c now) ks)
   \<and> (\<forall>t\<ge>now. live_view (snd (lookup_keys c now ks)) t = live_view c t)"
proof (induction ks arbitrary: c)
  case (Cons k ks)
  obtain r m where l: "lookup_in (key_table k c) now (key_text k) = (r, m)" by fastforce
  have r: "r = live_view c now k" using lookup_in_live [of "key_table k c" now "key_text k"] l by (simp add: live_view_def)
  have same: "live_view (set_key_table k m c) t = live_view c t" if "now \<le> t" for t
    using lookup_in_keeps [OF that, of "key_table k c" "key_text k"] l by (intro live_view_set_same) simp
  show ?case
  proof (cases r)
    case None
    then have "live_view c now k = None" using r by simp
    then show ?thesis
      using Cons.IH [of "set_key_table k m c"] same by (simp add: l None)
  next
    case (Some hosts)
    then have "live_view c now k = Some hosts" using r by simp
    then show ?thesis using same by (simp add: l Some)
  qed
qed simp

section \<open>Properties\<close>

text \<open>C17. The redirect cache refines a map of live entries. Recording an answer stores its hosts
  under the key its Redirect-Host-Usage selects until the announced cache time has passed, and
  changes nothing else; the cleanup that runs with it cannot be observed.\<close>

theorem add_redirect_refines:
  assumes "now \<le> t"
  shows "live_view (add_redirect c now a) t =
     (case redirect_of_answer a of
        Some (k, hosts) \<Rightarrow>
          (live_view c t)(k := if (case redirect_expiry a now of Some e \<Rightarrow> e \<le> t | None \<Rightarrow> False)
                               then None else Some hosts)
      | None \<Rightarrow> live_view c t)"
  by (rule live_view_add_redirect [OF assms])

theorem add_redirect_refines_witness:
  "let a = command_new 272 0x20 4 1 2 [from_utf8_string 292 0x40 None ''aaa://h'', from_unsigned32 261 0x40 None 4,
             from_unsigned32 262 0x40 None 60] in
     live_view (add_redirect (redirect_caches_new 0) 10 a) 69 (ByApplication ''4'') = Some [''aaa://h'']
   \<and> live_view (add_redirect (redirect_caches_new 0) 10 a) 70 (ByApplication ''4'') = None"
proof -
  let ?a = "command_new 272 0x20 4 1 2 [from_utf8_string 292 0x40 None ''aaa://h'', from_unsigned32 261 0x40 None 4,
             from_unsigned32 262 0x40 None 60]"
  have k: "redirect_of_answer ?a = Some (ByApplication ''4'', [''aaa://h''])" by code_simp
  have e: "redirect_expiry ?a 10 = Some 70"
    by (simp add: redirect_expiry_def get_avp_def command_new_def from_utf8_string_def from_unsigned32_def
        unsigned32.get_new)
  show ?thesis
    using add_redirect_refines [of 10 69 "redirect_caches_new 0" ?a]
      add_redirect_refines [of 10 70 "redirect_caches_new 0" ?a]
    unfolding k e by (simp add: Let_def)
qed

text \<open>C18. A request is redirected to the hosts of the first live entry among its session, realm with
  application, realm, application, host and user keys, in this order; an expired entry is never
  used, and looking up changes no later answer of the cache.\<close>

theorem get_redirect_correct:
  "fst (get_redirect c now request) = first_some (map (live_view c now) (redirect_keys request))
   \<and> live_view (snd (get_redirect c now request)) (now + delay) = live_view c (now + delay)"
  using lookup_keys_view [of c now "redirect_keys request"] by (simp add: get_redirect_def)

end
