(* ===== verification/Connections.thy ===== *)
theory Connections
  imports Command_Codec "HOL-Library.Multiset"
begin

text \<open>
  Connections and the containers that balance over them: \<open>transport/connection.rs\<close>,
  \<open>connection_list.rs\<close>, \<open>roundrobin_connection.rs\<close>, \<open>failover_connect.rs\<close>,
  \<open>random_connection.rs\<close> and \<open>dummy_connection.rs\<close>.

  A peer connection is a leaf, named by a handle (the address of its allocation). A container is a
  node with an identity, a kind and its list of children. The counters of the containers
  (\<open>AtomicUsize\<close>) are cells of a store, so that an operation returns the changed store; a
  counter counts operations and is not taken to overflow. The results of
  \<open>random_range\<close> are a parameter \<open>rnd\<close>: the result of the k-th draw below n.
\<close>

datatype balancing = RoundRobin | FailOver | Random

datatype conn = Leaf nat | Node nat balancing "conn list"

record lb_state =
  lb_index :: "nat \<Rightarrow> nat"
  lb_draws :: nat

fun is_container :: "conn \<Rightarrow> bool" where
  "is_container (Leaf h) = False"
| "is_container (Node i k cs) = True"

section \<open>The connection list\<close>

fun children :: "conn \<Rightarrow> conn list" where
  "children (Leaf h) = []"
| "children (Node i k cs) = cs"

text \<open>\<open>Arc::ptr_eq\<close>: the same leaf handle, or the same container identity.\<close>

fun ptr_eq :: "conn \<Rightarrow> conn \<Rightarrow> bool" where
  "ptr_eq (Leaf h) (Leaf h') = (h = h')"
| "ptr_eq (Node i _ _) (Node i' _ _) = (i = i')"
| "ptr_eq _ _ = False"

definition list_add_connection :: "conn list \<Rightarrow> conn \<Rightarrow> conn list" where
  "list_add_connection cs c = cs @ [c]"

definition list_remove_connection :: "conn list \<Rightarrow> conn \<Rightarrow> conn list" where
  "list_remove_connection cs c = filter (\<lambda>x. \<not> ptr_eq x c) cs"

definition list_get_connection :: "conn list \<Rightarrow> nat \<Rightarrow> conn option" where
  "list_get_connection cs i = (if i < length cs then Some (cs ! i) else None)"

text \<open>The default methods of the trait do nothing; a container changes its list.\<close>

fun conn_add_connection :: "conn \<Rightarrow> conn \<Rightarrow> conn" where
  "conn_add_connection (Leaf h) c = Leaf h"
| "conn_add_connection (Node i k cs) c = Node i k (list_add_connection cs c)"

fun conn_remove_connection :: "conn \<Rightarrow> conn \<Rightarrow> conn" where
  "conn_remove_connection (Leaf h) c = Leaf h"
| "conn_remove_connection (Node i k cs) c = Node i k (list_remove_connection cs c)"

section \<open>One level: get\_connections\<close>

definition rotated :: "nat \<Rightarrow> 'a list \<Rightarrow> 'a list" where
  "rotated index cs = map (\<lambda>i. cs ! ((index + i) mod length cs)) [0..<length cs]"

definition fetch_add_index :: "lb_state \<Rightarrow> nat \<Rightarrow> nat \<times> lb_state" where
  "fetch_add_index st i = (lb_index st i, st\<lparr>lb_index := (lb_index st)(i := lb_index st i + 1)\<rparr>)"

definition draw :: "(nat \<Rightarrow> nat \<Rightarrow> nat) \<Rightarrow> lb_state \<Rightarrow> nat \<Rightarrow> nat \<times> lb_state" where
  "draw rnd st n = (rnd (lb_draws st) n, st\<lparr>lb_draws := lb_draws st + 1\<rparr>)"

fun get_connections :: "(nat \<Rightarrow> nat \<Rightarrow> nat) \<Rightarrow> lb_state \<Rightarrow> conn \<Rightarrow> conn list \<times> lb_state" where
  "get_connections rnd st (Leaf h) = ([], st)"
| "get_connections rnd st (Node i RoundRobin cs) =
     (let (index, st') = fetch_add_index st i in
      (if cs \<noteq> [] then rotated index cs else [], st'))"
| "get_connections rnd st (Node i FailOver cs) =
     (if cs \<noteq> [] then rotated (lb_index st i) cs else [], st)"
| "get_connections rnd st (Node i Random cs) =
     (if cs \<noteq> [] then (let (index, st') = draw rnd st (length cs) in (rotated index cs, st')) else ([], st))"

section \<open>All levels: get\_underlying\_connections\<close>

fun conn_size :: "conn \<Rightarrow> nat" where
  "conn_size (Leaf h) = 1"
| "conn_size (Node i k cs) = Suc (sum_list (map conn_size cs))"

lemma conn_size_pos [simp]: "0 < conn_size c"
  by (cases c) simp_all

definition conns_size :: "conn list \<Rightarrow> nat" where
  "conns_size cs = sum_list (map conn_size cs)"

lemma mset_rotated [simp]: "mset (rotated k cs) = mset cs"
proof (cases "cs = []")
  case False
  have "rotated k cs = rotate k cs"
    using False by (intro nth_equalityI) (simp_all add: rotated_def nth_rotate)
  moreover have "mset (rotate k cs) = mset (take (k mod length cs) cs @ drop (k mod length cs) cs)"
    unfolding rotate_drop_take by (simp only: mset_append add.commute)
  ultimately show ?thesis by simp
qed (simp add: rotated_def)

lemma get_connections_mset: "mset (fst (get_connections rnd st c)) = mset (children c)"
  by (cases "(rnd, st, c)" rule: get_connections.cases) (simp_all add: fetch_add_index_def draw_def)

lemma conns_size_mset: "mset cs = mset ds \<Longrightarrow> conns_size cs = conns_size ds"
  unfolding conns_size_def by (metis mset_map sum_mset_sum_list)

lemma conns_size_append [simp]: "conns_size (cs @ ds) = conns_size cs + conns_size ds"
  by (simp add: conns_size_def)

lemma conns_size_children: "is_container c \<Longrightarrow> conns_size (children c) < conn_size c"
  by (cases c) (simp_all add: conns_size_def)

text \<open>The leaves below a connection, with multiplicity.\<close>

fun conn_leaves :: "conn \<Rightarrow> nat multiset" where
  "conn_leaves (Leaf h) = {#h#}"
| "conn_leaves (Node i k cs) = sum_list (map conn_leaves cs)"

definition conns_leaves :: "conn list \<Rightarrow> nat multiset" where
  "conns_leaves cs = sum_list (map conn_leaves cs)"

lemma conns_leaves_simps [simp]:
  "conns_leaves [] = {#}" "conns_leaves (c # cs) = conn_leaves c + conns_leaves cs"
  "conns_leaves (cs @ ds) = conns_leaves cs + conns_leaves ds"
  by (simp_all add: conns_leaves_def)

lemma conns_leaves_mset: "mset cs = mset ds \<Longrightarrow> conns_leaves cs = conns_leaves ds"
  unfolding conns_leaves_def by (metis mset_map sum_mset_sum_list)

lemma conn_leaves_children: "is_container c \<Longrightarrow> conn_leaves c = conns_leaves (children c)"
  by (cases c) (simp_all add: conns_leaves_def)

text \<open>
  What every container promises of its \<open>get_connections\<close> and of its iterator: the children,
  each once, in an order of its choice. Expanding a container therefore loses no leaf, repeats
  none, and makes progress.
\<close>

locale child_order =
  fixes order :: "lb_state \<Rightarrow> conn \<Rightarrow> conn list \<times> lb_state"
  assumes order_mset: "mset (fst (order st c)) = mset (children c)"
begin

lemma order_size: "is_container c \<Longrightarrow> conns_size (fst (order st c)) < conn_size c"
  using conns_size_mset [OF order_mset] conns_size_children by metis

lemma order_leaves: "is_container c \<Longrightarrow> conns_leaves (fst (order st c)) = conn_leaves c"
  using conns_leaves_mset [OF order_mset] conn_leaves_children by metis

end

interpretation level: child_order "get_connections rnd" for rnd
  by unfold_locales (rule get_connections_mset)

function underlying_loop ::
  "(nat \<Rightarrow> nat \<Rightarrow> nat) \<Rightarrow> lb_state \<Rightarrow> conn list \<Rightarrow> conn list \<Rightarrow> conn list \<times> lb_state" where
  "underlying_loop rnd st stack conns =
     (if stack = [] then (conns, st)
      else let current = last stack; rest = butlast stack in
        if is_container current then
          (let (cs, st') = get_connections rnd st current in underlying_loop rnd st' (rest @ cs) conns)
        else underlying_loop rnd st rest (conns @ [current]))"
  by auto
termination
proof (relation "measure (\<lambda>(rnd, st, stack, conns). conns_size stack)")
  fix rnd st and stack conns :: "conn list" and current rest p cs st'
  assume ne: "stack \<noteq> []" and cur: "current = last stack" and r: "rest = butlast stack"
  have sz: "conns_size stack = conns_size rest + conn_size current"
    using append_butlast_last_id [OF ne] unfolding cur r
    by (metis conns_size_append conns_size_def list.map(1,2) sum_list_simps add_0_right)
  show "((rnd, st', rest @ cs, conns), rnd, st, stack, conns)
      \<in> measure (\<lambda>(rnd, st, stack, conns). conns_size stack)"
    if "is_container current" "p = get_connections rnd st current" "(cs, st') = p"
    using level.order_size [OF that(1), of rnd st] that sz by (simp add: prod_eq_iff)
  show "((rnd, st, rest, conns @ [current]), rnd, st, stack, conns)
      \<in> measure (\<lambda>(rnd, st, stack, conns). conns_size stack)"
    if "\<not> is_container current"
    using that sz by (cases current) simp_all
qed simp

declare underlying_loop.simps [simp del]

definition get_underlying_connections ::
  "(nat \<Rightarrow> nat \<Rightarrow> nat) \<Rightarrow> lb_state \<Rightarrow> conn \<Rightarrow> conn list \<times> lb_state" where
  "get_underlying_connections rnd st c = underlying_loop rnd st [c] []"

section \<open>Lazy iteration: ConnectionIterator\<close>

text \<open>
  An iterator over a snapshot of a list: the outer index, the iterator of the container being
  drained, and the number of outer connections done with. It opens a nested container, and moves
  that container's counter, only when it gets there.
\<close>

datatype citer = CIter (it_conns: "conn list") (it_index: nat) (it_sub: "citer option") (it_tried: nat)

definition citer_new :: "conn list \<Rightarrow> nat \<Rightarrow> citer" where
  "citer_new cs index = CIter cs index None 0"

fun conn_iter :: "(nat \<Rightarrow> nat \<Rightarrow> nat) \<Rightarrow> lb_state \<Rightarrow> conn \<Rightarrow> citer option \<times> lb_state" where
  "conn_iter rnd st (Leaf h) = (None, st)"
| "conn_iter rnd st (Node i RoundRobin cs) =
     (let (index, st') = fetch_add_index st i in
      (if cs = [] then None else Some (citer_new cs (index mod length cs)), st'))"
| "conn_iter rnd st (Node i FailOver cs) = (if cs = [] then None else Some (citer_new cs 0), st)"
| "conn_iter rnd st (Node i Random cs) =
     (if cs = [] then (None, st)
      else let (index, st') = draw rnd st (length cs) in (Some (citer_new cs index), st'))"

definition citer_get_next :: "conn list \<Rightarrow> nat \<Rightarrow> (conn \<times> nat) option" where
  "citer_get_next cs i =
     (if cs = [] then None else Some (cs ! (i mod length cs), (i + 1) mod length cs))"

fun citer_size :: "citer \<Rightarrow> nat" where
  "citer_size (CIter cs i sub tried) = Suc (conns_size cs + (case sub of Some s \<Rightarrow> citer_size s | None \<Rightarrow> 0))"

lemma citer_size_new [simp]: "citer_size (citer_new cs i) = Suc (conns_size cs)"
  by (simp add: citer_new_def)

lemma conn_iter_size:
  "conn_iter rnd st c = (Some s, st') \<Longrightarrow> citer_size s = conn_size c"
  by (cases "(rnd, st, c)" rule: conn_iter.cases)
     (auto simp: fetch_add_index_def draw_def conns_size_def split: if_splits)

lemma conn_size_member: "c \<in> set cs \<Longrightarrow> conn_size c \<le> conns_size cs"
  by (simp add: conns_size_def member_le_sum_list)

lemma opened_smaller:
  "citer_get_next cs i = Some (c, i') \<Longrightarrow> (Some s, st') = conn_iter rnd st c \<Longrightarrow> citer_size s < Suc (conns_size cs)"
  using conn_iter_size [of rnd st c s st'] conn_size_member [of c cs]
  by (auto simp: citer_get_next_def less_Suc_eq_le split: if_splits)

function citer_next :: "(nat \<Rightarrow> nat \<Rightarrow> nat) \<Rightarrow> lb_state \<Rightarrow> citer \<Rightarrow> nat option \<times> citer \<times> lb_state" where
  "citer_next rnd st (CIter cs i sub tried) =
     (if cs = [] \<or> length cs \<le> tried then (None, CIter cs i sub tried, st)
      else case sub of
        Some s \<Rightarrow>
          (case citer_next rnd st s of
             (Some h, s', st') \<Rightarrow> (Some h, CIter cs i (Some s') tried, st')
           | (None, s', st') \<Rightarrow>
               if length cs \<le> tried + 1 then (None, CIter cs i None (tried + 1), st')
               else citer_next rnd st' (CIter cs i None (tried + 1)))
      | None \<Rightarrow>
          (case citer_get_next cs i of
             None \<Rightarrow> (None, CIter cs i None tried, st)
           | Some (c, i') \<Rightarrow>
               (case c of
                  Leaf h \<Rightarrow> (Some h, CIter cs i' None (tried + 1), st)
                | Node _ _ _ \<Rightarrow>
                    (case conn_iter rnd st c of
                       (Some s, st') \<Rightarrow>
                         (case citer_next rnd st' s of
                            (Some h, s', st'') \<Rightarrow> (Some h, CIter cs i' (Some s') tried, st'')
                          | (None, s', st'') \<Rightarrow>
                              if length cs \<le> tried + 1 then (None, CIter cs i' None (tried + 1), st'')
                              else citer_next rnd st'' (CIter cs i' None (tried + 1)))
                     | (None, st') \<Rightarrow>
                         if length cs \<le> tried + 1 then (None, CIter cs i' None (tried + 1), st')
                         else citer_next rnd st' (CIter cs i' None (tried + 1))))))"
  by pat_completeness auto
termination
  by (relation "(\<lambda>(rnd, st, it). citer_size it) <*mlex*> measure (\<lambda>(rnd, st, it). length (it_conns it) - it_tried it)")
     (auto simp: mlex_iff wf_mlex opened_smaller)

declare citer_next.simps [simp del]

section \<open>Sending\<close>

text \<open>
  A peer connection's own \<open>send\<close> is outside this theory: \<open>up h\<close> says whether it
  succeeds on the leaf \<open>h\<close>. A successful result names the leaf that took the command. The
  loop of \<open>RoundRobinConnection\<close> and \<open>RandomConnection\<close> goes over the leaves the
  iterator yields; \<open>FailOverConnection\<close> calls \<open>send\<close> on its children.
\<close>

text \<open>The worklist an iterator stands for: the connections it has still to expand, in order.\<close>

definition pend :: "conn list \<Rightarrow> nat \<Rightarrow> nat \<Rightarrow> conn list" where
  "pend cs i m = map (\<lambda>k. cs ! ((i + k) mod length cs)) [0..<m]"

fun worklist :: "citer \<Rightarrow> conn list" where
  "worklist (CIter cs i sub tried) =
     (if cs = [] \<or> length cs \<le> tried then []
      else case sub of
             Some s \<Rightarrow> worklist s @ pend cs i (length cs - tried - 1)
           | None \<Rightarrow> pend cs i (length cs - tried))"

definition opened :: "(nat \<Rightarrow> nat \<Rightarrow> nat) \<Rightarrow> lb_state \<Rightarrow> conn \<Rightarrow> conn list \<times> lb_state" where
  "opened rnd st c =
     (case conn_iter rnd st c of (Some it, st') \<Rightarrow> (worklist it, st') | (None, st') \<Rightarrow> ([], st'))"

lemma pend_Suc:
  "cs \<noteq> [] \<Longrightarrow> pend cs i (Suc m) = cs ! (i mod length cs) # pend cs ((i + 1) mod length cs) m"
proof -
  have "[0..<Suc m] = 0 # map Suc [0..<m]" by (simp add: map_Suc_upt upt_conv_Cons)
  then show ?thesis by (simp add: pend_def comp_def mod_simps del: upt_Suc)
qed

lemma pend_0 [simp]: "pend cs i 0 = []"
  by (simp add: pend_def)

lemma worklist_new [simp]: "cs \<noteq> [] \<Longrightarrow> worklist (citer_new cs i) = rotated i cs"
  by (simp add: citer_new_def rotated_def pend_def)

lemma opened_mset: "mset (fst (opened rnd st c)) = mset (children c)"
  by (cases "(rnd, st, c)" rule: conn_iter.cases)
     (simp_all add: opened_def fetch_add_index_def draw_def)

interpretation lazily: child_order "opened rnd" for rnd
  by unfold_locales (rule opened_mset)

function wl_next :: "(nat \<Rightarrow> nat \<Rightarrow> nat) \<Rightarrow> lb_state \<Rightarrow> conn list \<Rightarrow> nat option \<times> conn list \<times> lb_state" where
  "wl_next rnd st [] = (None, [], st)"
| "wl_next rnd st (Leaf h # r) = (Some h, r, st)"
| "wl_next rnd st (Node i k cs # r) =
     (let (order, st') = opened rnd st (Node i k cs) in wl_next rnd st' (order @ r))"
  by pat_completeness auto
termination
proof (relation "measure (\<lambda>(rnd, st, wl). conns_size wl)", goal_cases)
  case (2 rnd st i k cs r p order st')
  then show ?case using lazily.order_size [of "Node i k cs" rnd st] by (auto simp: prod_eq_iff conns_size_def)
qed simp

lemma wl_next_append:
  "wl_next rnd st (xs @ ys) =
     (case wl_next rnd st xs of
        (Some h, xs', st') \<Rightarrow> (Some h, xs' @ ys, st')
      | (None, _, st') \<Rightarrow> wl_next rnd st' ys)"
  by (induction rnd st xs rule: wl_next.induct) (auto split: prod.splits)

lemma wl_next_None: "wl_next rnd st xs = (None, xs', st') \<Longrightarrow> xs' = []"
  by (induction rnd st xs rule: wl_next.induct) (auto split: prod.splits)

lemma wl_next_size: "wl_next rnd st xs = (Some h, xs', st') \<Longrightarrow> conns_size xs' < conns_size xs"
proof (induction rnd st xs rule: wl_next.induct)
  case (3 rnd st i k cs r)
  then show ?case
    using lazily.order_size [of "Node i k cs" rnd st] by (fastforce simp: conns_size_def split: prod.splits)
qed (auto simp: conns_size_def)

text \<open>After a container is exhausted, the iterator goes on with the rest of its outer list.\<close>

lemma worklist_advance:
  assumes "cs \<noteq> []" and "tried < length cs"
  shows "worklist (CIter cs i None (tried + 1)) = pend cs i (length cs - tried - 1)"
  using assms by (cases "length cs \<le> tried + 1") simp_all

lemma citer_next_refines:
  "citer_next rnd st it = (r, it', st') \<Longrightarrow> wl_next rnd st (worklist it) = (r, worklist it', st')"
proof (induction rnd st it arbitrary: r it' st' rule: citer_next.induct)
  case (1 rnd st cs i sub tried)
  note IH = "1.IH" and prems = "1.prems" [unfolded citer_next.simps [of rnd st cs i sub tried]]
  show ?case
  proof (cases "cs = [] \<or> length cs \<le> tried")
    case True
    then show ?thesis using prems by auto
  next
    case False
    let ?m = "length cs - tried - 1"
    have m: "length cs - tried = Suc ?m" "cs \<noteq> []" "tried < length cs" using False by auto
    show ?thesis
    proof (cases sub)
      case (Some s)
      obtain rs s' st1 where n: "citer_next rnd st s = (rs, s', st1)" by (cases "citer_next rnd st s")
      have w: "wl_next rnd st (worklist s) = (rs, worklist s', st1)" by (rule IH(4) [OF False Some n])
      have wl: "wl_next rnd st (worklist (CIter cs i sub tried)) =
          (case rs of Some h \<Rightarrow> (Some h, worklist s' @ pend cs i ?m, st1) | None \<Rightarrow> wl_next rnd st1 (pend cs i ?m))"
        using False Some w by (simp add: wl_next_append split: option.split)
      show ?thesis
      proof (cases rs)
        case None
        then show ?thesis
          using prems False Some n IH(5) [OF False Some n [symmetric] None refl] worklist_advance [OF m(2,3), of i] wl
          by (auto split: if_splits)
      next
        case (Some h)
        then show ?thesis using prems False \<open>sub = Some s\<close> n wl by auto
      qed
    next
      case None
      let ?c = "cs ! (i mod length cs)" and ?i = "(i + 1) mod length cs"
      have g: "citer_get_next cs i = Some (?c, ?i)" using m(2) by (simp add: citer_get_next_def)
      have wl: "worklist (CIter cs i sub tried) = ?c # pend cs ?i ?m"
        using False None m by (simp add: pend_Suc)
      have adv: "worklist (CIter cs ?i None (tried + 1)) = pend cs ?i ?m" by (rule worklist_advance [OF m(2,3)])
      show ?thesis
      proof (cases ?c)
        case (Leaf h)
        then show ?thesis using prems False None g adv wl by auto
      next
        case (Node j k ds)
        obtain so st1 where o: "conn_iter rnd st (Node j k ds) = (so, st1)" by fastforce
        show ?thesis
        proof (cases so)
          case no: None
          have "wl_next rnd st (worklist (CIter cs i sub tried)) = wl_next rnd st1 (pend cs ?i ?m)"
            unfolding wl Node using o no by (simp add: opened_def)
          then show ?thesis
            using prems False None g adv Node o no m(2)
              IH(1) [OF False None g refl Node o [symmetric, folded Node] no]
            by (auto split: if_splits)
        next
          case (Some s)
          obtain rs s' st2 where n: "citer_next rnd st1 s = (rs, s', st2)" by (cases "citer_next rnd st1 s")
          have w: "wl_next rnd st1 (worklist s) = (rs, worklist s', st2)"
            by (rule IH(2) [OF False None g refl Node o [symmetric, folded Node] Some n])
          have wl': "wl_next rnd st (worklist (CIter cs i sub tried)) =
              (case rs of Some h \<Rightarrow> (Some h, worklist s' @ pend cs ?i ?m, st2) | None \<Rightarrow> wl_next rnd st2 (pend cs ?i ?m))"
            unfolding wl Node using o Some w by (simp add: opened_def wl_next_append split: option.split)
          show ?thesis
          proof (cases rs)
            case nr: None
            then show ?thesis
              using prems False None g adv Node o Some n wl' m(2)
                IH(3) [OF False None g refl Node o [symmetric, folded Node] Some n [symmetric] nr refl]
              by (auto split: if_splits)
          next
            case (Some h)
            then show ?thesis using prems False None g Node o \<open>so = Some s\<close> n wl' by auto
          qed
        qed
      qed
    qed
  qed
qed

function send_iter ::
  "(nat \<Rightarrow> bool) \<Rightarrow> (nat \<Rightarrow> nat \<Rightarrow> nat) \<Rightarrow> lb_state \<Rightarrow> citer \<Rightarrow> nat option \<times> lb_state" where
  "send_iter up rnd st it =
     (case citer_next rnd st it of
        (None, _, st') \<Rightarrow> (None, st')
      | (Some h, it', st') \<Rightarrow> if up h then (Some h, st') else send_iter up rnd st' it')"
  by auto
termination
proof (relation "measure (\<lambda>(up, rnd, st, it). conns_size (worklist it))", goal_cases)
  case (2 up rnd st it x y h it' st')
  then have "citer_next rnd st it = (Some h, it', st')" by simp
  then show ?case using wl_next_size [OF citer_next_refines] by simp
qed simp

declare send_iter.simps [simp del]

text \<open>The attempts of the fail-over loop: each child with its index, from the stored index on.\<close>

definition attempts :: "nat \<Rightarrow> 'a list \<Rightarrow> (nat \<times> 'a) list" where
  "attempts index cs = map (\<lambda>i. ((index + i) mod length cs, cs ! ((index + i) mod length cs))) [0..<length cs]"

lemma attempts_rotated: "map snd (attempts index cs) = rotated index cs"
  by (simp add: attempts_def rotated_def comp_def)

function conn_send ::
    "(nat \<Rightarrow> bool) \<Rightarrow> (nat \<Rightarrow> nat \<Rightarrow> nat) \<Rightarrow> lb_state \<Rightarrow> conn \<Rightarrow> (string, nat) outcome \<times> lb_state"
  and failover_loop ::
    "(nat \<Rightarrow> bool) \<Rightarrow> (nat \<Rightarrow> nat \<Rightarrow> nat) \<Rightarrow> lb_state \<Rightarrow> nat \<Rightarrow> nat \<Rightarrow> (nat \<times> conn) list
      \<Rightarrow> (string, nat) outcome \<times> lb_state" where
  "conn_send up rnd st (Leaf h) = (if up h then Ok h else Err ''send failed'', st)"
| "conn_send up rnd st (Node i RoundRobin cs) =
     (case conn_iter rnd st (Node i RoundRobin cs) of
        (None, st') \<Rightarrow> (Err ''No available connections in round robin'', st')
      | (Some it, st') \<Rightarrow>
          (case send_iter up rnd st' it of
             (Some h, st'') \<Rightarrow> (Ok h, st'')
           | (None, st'') \<Rightarrow> (Err ''Fail to send command after trying all connections in round robin'', st'')))"
| "conn_send up rnd st (Node i Random cs) =
     (case conn_iter rnd st (Node i Random cs) of
        (None, st') \<Rightarrow> (Err ''No available connections in random strategy'', st')
      | (Some it, st') \<Rightarrow>
          (case send_iter up rnd st' it of
             (Some h, st'') \<Rightarrow> (Ok h, st'')
           | (None, st'') \<Rightarrow> (Err ''Fail to send command after trying all connections in random strategy'', st'')))"
| "conn_send up rnd st (Node i FailOver cs) =
     (if cs = [] then (Err ''No available connections in failover'', st)
      else failover_loop up rnd st i (length cs) (attempts (lb_index st i) cs))"
| "failover_loop up rnd st i n [] = (Err ''Fail to send command after trying all connections in failover'', st)"
| "failover_loop up rnd st i n ((index, c) # rest) =
     (case conn_send up rnd st c of
        (Ok h, st') \<Rightarrow> (Ok h, st'\<lparr>lb_index := (lb_index st')(i := (index + 1) mod n)\<rparr>)
      | (_, st') \<Rightarrow> failover_loop up rnd st' i n rest)"
  by pat_completeness auto
termination
proof (relation "measure (\<lambda>x. case x of Inl (up, rnd, st, c) \<Rightarrow> 2 * conn_size c
                        | Inr (up, rnd, st, i, n, as) \<Rightarrow> Suc (2 * conns_size (map snd as)))", goal_cases)
  case (2 up rnd st i cs)
  have "conns_size (map snd (attempts (lb_index st i) cs)) = conns_size cs"
    unfolding attempts_rotated by (rule conns_size_mset) simp
  then show ?case by (simp flip: conns_size_def)
qed (simp_all add: conns_size_def)

section \<open>Every leaf is reached\<close>

lemma underlying_loop_leaves:
  "\<exists>hs. fst (underlying_loop rnd st stack conns) = conns @ map Leaf hs \<and> mset hs = conns_leaves stack"
proof (induction rnd st stack conns rule: underlying_loop.induct)
  case (1 rnd st stack conns)
  show ?case
  proof (cases "stack = []")
    case True
    then show ?thesis by (subst underlying_loop.simps) simp
  next
    case False
    let ?cur = "last stack" and ?rest = "butlast stack"
    have split: "conns_leaves stack = conns_leaves ?rest + conn_leaves ?cur"
      using append_butlast_last_id [OF False] by (metis conns_leaves_simps(1,2,3) add_0_right)
    show ?thesis
    proof (cases "is_container ?cur")
      case True
      obtain cs st' where g: "get_connections rnd st ?cur = (cs, st')" by fastforce
      then show ?thesis
        using "1.IH"(1) [OF False refl refl True g [symmetric] refl] level.order_leaves [OF True, of rnd st] False True split
        by (subst underlying_loop.simps) (simp add: Let_def)
    next
      case leaf: False
      then obtain h where h: "?cur = Leaf h" by (cases ?cur) auto
      obtain hs where "fst (underlying_loop rnd st ?rest (conns @ [?cur])) = (conns @ [?cur]) @ map Leaf hs"
        "mset hs = conns_leaves ?rest"
        using "1.IH"(2) [OF False refl refl leaf] by blast
      then show ?thesis
        using False leaf h split by (subst underlying_loop.simps) (auto intro!: exI [of _ "h # hs"])
    qed
  qed
qed

lemma wl_next_leaves:
  "wl_next rnd st xs = (r, xs', st') \<Longrightarrow>
   conns_leaves xs = (case r of Some h \<Rightarrow> add_mset h (conns_leaves xs') | None \<Rightarrow> {#})"
proof (induction rnd st xs arbitrary: r xs' st' rule: wl_next.induct)
  case (3 rnd st i k cs r)
  then show ?case using lazily.order_leaves [of "Node i k cs" rnd st] by (fastforce split: prod.splits)
qed auto

lemma send_iter_leaves:
  "send_iter up rnd st it = (r, st') \<Longrightarrow>
   (case r of Some h \<Rightarrow> up h \<and> h \<in># conns_leaves (worklist it) | None \<Rightarrow> \<forall>h\<in>#conns_leaves (worklist it). \<not> up h)"
proof (induction up rnd st it arbitrary: r st' rule: send_iter.induct)
  case (1 up rnd st it)
  obtain n it1 st1 where n: "citer_next rnd st it = (n, it1, st1)" by (cases "citer_next rnd st it")
  have l: "conns_leaves (worklist it) = (case n of Some h \<Rightarrow> add_mset h (conns_leaves (worklist it1)) | None \<Rightarrow> {#})"
    by (rule wl_next_leaves [OF citer_next_refines [OF n]])
  show ?case
  proof (cases n)
    case None
    then show ?thesis using "1.prems" n l by (subst (asm) send_iter.simps) auto
  next
    case (Some h)
    then show ?thesis
      using "1.prems" n l "1.IH" [OF n [symmetric] Some refl]
      by (subst (asm) send_iter.simps) (auto split: if_splits option.splits)
  qed
qed

text \<open>The outcome of a send on a connection with the given leaves.\<close>

fun delivers :: "(nat \<Rightarrow> bool) \<Rightarrow> nat multiset \<Rightarrow> (string, nat) outcome \<Rightarrow> bool" where
  "delivers up ls (Ok h) = (up h \<and> h \<in># ls)"
| "delivers up ls (Err e) = (\<forall>h\<in>#ls. \<not> up h)"
| "delivers up ls Panic = False"

lemma iter_send_delivers:
  assumes "is_container c"
  shows "delivers up (conn_leaves c)
     (fst (case conn_iter rnd st c of
        (None, st') \<Rightarrow> (Err e1, st')
      | (Some it, st') \<Rightarrow>
          (case send_iter up rnd st' it of (Some h, st'') \<Rightarrow> (Ok h, st'') | (None, st'') \<Rightarrow> (Err e2, st''))))"
proof -
  obtain io st1 where io: "conn_iter rnd st c = (io, st1)" by fastforce
  show ?thesis
  proof (cases io)
    case None
    then show ?thesis using lazily.order_leaves [OF assms, of rnd st] io by (simp add: opened_def)
  next
    case (Some it)
    obtain r st2 where s: "send_iter up rnd st1 it = (r, st2)" by fastforce
    have "conns_leaves (worklist it) = conn_leaves c"
      using lazily.order_leaves [OF assms, of rnd st] io Some by (simp add: opened_def)
    then show ?thesis using send_iter_leaves [OF s] io Some s by (cases r) auto
  qed
qed

lemma conn_send_delivers:
  "delivers up (conn_leaves c) (fst (conn_send up rnd st c))"
  "delivers up (conns_leaves (map snd as)) (fst (failover_loop up rnd st i n as))"
proof (induction up rnd st c and up rnd st i n as rule: conn_send_failover_loop.induct)
  case (2 up rnd st i cs)
  show ?case unfolding conn_send.simps by (rule iter_send_delivers) simp
next
  case (3 up rnd st i cs)
  show ?case unfolding conn_send.simps by (rule iter_send_delivers) simp
next
  case (4 up rnd st i cs)
  have "conns_leaves (rotated k cs) = conns_leaves cs" for k by (rule conns_leaves_mset) simp
  then show ?case using 4 by (auto simp: attempts_rotated conns_leaves_def)
next
  case (6 up rnd st i n index c rest)
  obtain r st' where s: "conn_send up rnd st c = (r, st')" by fastforce
  show ?case
  proof (cases r)
    case (Err e)
    then have "delivers up (conns_leaves (map snd rest)) (fst (failover_loop up rnd st' i n rest))"
      using 6 s by auto
    then show ?thesis
      using s Err 6(1) by (cases "fst (failover_loop up rnd st' i n rest)") auto
  qed (use 6(1) s in auto)
qed auto

lemma underlying_loop_flat:
  "underlying_loop rnd st (map Leaf hs) conns = (conns @ rev (map Leaf hs), st)"
proof (induction hs arbitrary: conns rule: rev_induct)
  case Nil
  then show ?case by (subst underlying_loop.simps) simp
next
  case (snoc h hs)
  then show ?case by (subst underlying_loop.simps) (simp add: Let_def)
qed

lemma nth_map_mod: "xs \<noteq> [] \<Longrightarrow> map f xs ! (k mod length xs) = f (xs ! (k mod length xs))"
  by (rule nth_map) simp

lemma rotated_map: "rotated k (map f xs) = map f (rotated k xs)"
  by (cases "xs = []") (simp_all add: rotated_def nth_map_mod)

lemma get_connections_leaves: "\<exists>gs st'. get_connections rnd st (Node i k (map Leaf hs)) = (map Leaf gs, st')"
  by (cases k) (auto simp: fetch_add_index_def draw_def rotated_map intro: exI [of _ "[]"])

text \<open>The store after a number of requests on a round-robin container.\<close>

primrec rr_requests :: "(nat \<Rightarrow> nat \<Rightarrow> nat) \<Rightarrow> conn \<Rightarrow> nat \<Rightarrow> lb_state \<Rightarrow> lb_state" where
  "rr_requests rnd c 0 st = st"
| "rr_requests rnd c (Suc n) st = snd (get_connections rnd (rr_requests rnd c n st) c)"

lemma rr_requests_index: "lb_index (rr_requests rnd (Node i RoundRobin cs) n st) i = lb_index st i + n"
  by (induction n) (simp_all add: fetch_add_index_def)

lemma take_1_rotated: "take 1 (rotated k cs) = (if cs = [] then [] else [cs ! (k mod length cs)])"
  by (cases cs) (simp_all add: rotated_def upt_conv_Cons del: upt_Suc)

lemma failover_first_up:
  assumes "hs \<noteq> []" and "\<forall>h\<in>set hs. up h"
  shows "conn_send up rnd st (Node i FailOver (map Leaf hs)) =
     (Ok (hs ! (lb_index st i mod length hs)),
      st\<lparr>lb_index := (lb_index st)(i := (lb_index st i mod length hs + 1) mod length hs)\<rparr>)"
proof -
  let ?k = "lb_index st i"
  have "[0..<length hs] = 0 # [1..<length hs]" using assms(1) by (simp add: upt_conv_Cons)
  then obtain rest where a: "attempts ?k (map Leaf hs) = (?k mod length hs, Leaf (hs ! (?k mod length hs))) # rest"
    using assms(1) by (simp add: attempts_def nth_map_mod)
  have "up (hs ! (?k mod length hs))" using assms by simp
  then show ?thesis using assms(1) by (simp add: a)
qed

section \<open>Properties\<close>

text \<open>C21. A send through any nesting of round-robin, fail-over and random containers reaches a peer
  that accepts it whenever one of the leaf connections does, and fails only when every leaf
  refused.\<close>

theorem send_reaches_available_peer:
  "case fst (conn_send up rnd st c) of
     Ok h \<Rightarrow> up h \<and> h \<in># conn_leaves c
   | Err e \<Rightarrow> filter_mset up (conn_leaves c) = {#}
   | Panic \<Rightarrow> False"
  using conn_send_delivers(1) [of up c rnd st]
  by (cases "fst (conn_send up rnd st c)") (auto simp: filter_mset_eq_conv multiset_eq_iff not_in_iff)

text \<open>\<open>get_underlying_connections\<close> returns every leaf connection below a container exactly
  as often as it occurs there, and nothing else.\<close>

theorem underlying_connections_complete:
  "\<exists>hs. fst (get_underlying_connections rnd st c) = map Leaf hs \<and> mset hs = conn_leaves c"
  using underlying_loop_leaves [of rnd st "[c]" "[]"] by (simp add: get_underlying_connections_def)

text \<open>The lazy iterator refines a worklist: each \<open>next\<close> expands the first pending
  connection until it is a leaf, yields it, and stops exactly when nothing is pending, so that every
  leaf is visited once.\<close>

theorem iterator_refines_worklist:
  "case citer_next rnd st it of (r, it', st') \<Rightarrow>
     wl_next rnd st (worklist it) = (r, worklist it', st')
     \<and> conns_leaves (worklist it) = (case r of Some h \<Rightarrow> add_mset h (conns_leaves (worklist it')) | None \<Rightarrow> {#})"
proof -
  obtain r it' st' where n: "citer_next rnd st it = (r, it', st')" by (cases "citer_next rnd st it")
  show ?thesis using citer_next_refines [OF n] wl_next_leaves [OF citer_next_refines [OF n]] by (simp add: n)
qed

text \<open>Round robin is fair: over as many consecutive requests as it has children, each child comes
  first exactly once.\<close>

theorem round_robin_fair:
  "mset (concat (map (\<lambda>n. take 1 (fst (get_connections rnd (rr_requests rnd (Node i RoundRobin cs) n st)
                                        (Node i RoundRobin cs)))) [0..<length cs])) = mset cs"
proof (cases "cs = []")
  case False
  have "take 1 (fst (get_connections rnd (rr_requests rnd (Node i RoundRobin cs) n st) (Node i RoundRobin cs)))
      = [cs ! ((lb_index st i + n) mod length cs)]" for n
    using False by (simp add: fetch_add_index_def rr_requests_index take_1_rotated del: One_nat_def)
  then have "concat (map (\<lambda>n. take 1 (fst (get_connections rnd (rr_requests rnd (Node i RoundRobin cs) n st)
      (Node i RoundRobin cs)))) [0..<length cs]) = rotated (lb_index st i) cs"
    by (simp add: rotated_def concat_map_singleton)
  then show ?thesis by simp
qed simp

text \<open>The fail-over container does not stay with its first peer: with every peer available,
  a send goes to the peer after the one the previous send went to.\<close>

theorem failover_moves_on:
  assumes "hs \<noteq> []" and "\<forall>h\<in>set hs. up h" and "lb_index st i < length hs"
  shows "let (r1, st1) = conn_send up rnd st (Node i FailOver (map Leaf hs));
             (r2, st2) = conn_send up rnd st1 (Node i FailOver (map Leaf hs)) in
         r1 = Ok (hs ! lb_index st i) \<and> r2 = Ok (hs ! ((lb_index st i + 1) mod length hs))"
  using failover_first_up [OF assms(1,2)] assms(3) by (simp add: Let_def del: conn_send.simps)

theorem failover_moves_on_witness:
  "let st = \<lparr>lb_index = (\<lambda>_. 0), lb_draws = 0\<rparr>; c = Node 0 FailOver [Leaf 7, Leaf 8];
       (r1, st1) = conn_send (\<lambda>_. True) (\<lambda>_ _. 0) st c; (r2, st2) = conn_send (\<lambda>_. True) (\<lambda>_ _. 0) st1 c in
   r1 = Ok 7 \<and> r2 = Ok 8"
  using failover_moves_on [of "[7, 8]" "\<lambda>_. True" "\<lparr>lb_index = (\<lambda>_. 0), lb_draws = 0\<rparr>" 0 "\<lambda>_ _. 0"]
  by (simp add: Let_def del: conn_send.simps)

text \<open>\<open>get_underlying_connections\<close> reverses the order the container asks for: the peers of
  a fail-over or round-robin container are tried from its last choice to its first.\<close>

theorem underlying_order_reversed:
  "fst (get_underlying_connections rnd st (Node i k (map Leaf hs)))
   = rev (fst (get_connections rnd st (Node i k (map Leaf hs))))"
proof -
  obtain gs st' where g: "get_connections rnd st (Node i k (map Leaf hs)) = (map Leaf gs, st')"
    using get_connections_leaves by blast
  show ?thesis
    unfolding get_underlying_connections_def
    by (subst underlying_loop.simps) (simp add: Let_def g underlying_loop_flat)
qed

end
