(* ===== verification/Config.thy ===== *)
theory Config
  imports Json
begin

text \<open>
  The configuration of a stack (\<open>config.rs\<close>): one record per structure, with the fields of
  the source in its order, \<open>Option\<close> as \<open>option\<close> and the catch-all map of unknown
  keys as \<open>extra\<close>; the routing policy and its names; and the walk over the \<open>stacks\<close>
  sequence of a parsed configuration file. Reading the file, the YAML text and the decoder that
  serde derives for the records are parameters.
\<close>

section \<open>Routing policy\<close>

datatype routing_policy = Realm | Host

definition policy_from_str :: "string \<Rightarrow> routing_policy option" where
  "policy_from_str s =
     (let u = to_uppercase s in
      if u = ''REALM'' then Some Realm else if u = ''HOST'' then Some Host else None)"

fun policy_as_str :: "routing_policy \<Rightarrow> string" where
  "policy_as_str Realm = ''REALM''"
| "policy_as_str Host = ''HOST''"

definition default_policy :: routing_policy where
  "default_policy = Realm"

lemma policy_from_as_str [simp]: "policy_from_str (policy_as_str p) = Some p"
  by (cases p) (simp_all add: policy_from_str_def to_uppercase_def upper_char_def Let_def)

section \<open>The structures\<close>

type_synonym extra_keys = "string \<rightharpoonup> yaml"

record peer_config =
  pc_host :: string
  pc_connection_url :: string
  pc_cert_file :: "string option"
  pc_key_file :: "string option"
  pc_ca_cert_file :: "string option"
  pc_extra :: extra_keys

record routing_item_config =
  ric_host_realms :: "string list option"
  ric_application_ids :: "u32 list option"
  ric_route :: string
  ric_extra :: extra_keys

record stack_routing_config =
  src_policy :: string
  src_default :: "string option"
  src_items :: "routing_item_config list option"
  src_extra :: extra_keys

definition new_stack_routing_config ::
  "string \<Rightarrow> string option \<Rightarrow> routing_item_config list option \<Rightarrow> stack_routing_config" where
  "new_stack_routing_config policy default_route items =
     \<lparr>src_policy = policy, src_default = default_route, src_items = items, src_extra = Map.empty\<rparr>"

record vendor_specific_application_id =
  vsa_vendor_id :: u32
  vsa_auth_application_id :: "u32 option"
  vsa_acct_application_id :: "u32 option"

record stack_capability =
  cap_vendor_id :: u32
  cap_product_name :: string
  cap_host_ips :: "string list option"
  cap_supported_vendor_ids :: "u32 list option"
  cap_auth_application_ids :: "u32 list option"
  cap_acct_application_ids :: "u32 list option"
  cap_vendor_specific_application_ids :: "vendor_specific_application_id list option"
  cap_inband_security_ids :: "u32 list option"
  cap_firmware_revision :: "u32 option"
  cap_extra :: extra_keys

record processor_config =
  prc_timeout :: "u64 option"
  prc_command_codes :: "u32 list option"
  prc_application_ids :: "u32 list option"
  prc_urls :: "string list option"

record rest_listener_config =
  rlc_address :: string
  rlc_path :: "string option"
  rlc_cert_file :: "string option"
  rlc_key_file :: "string option"
  rlc_ca_cert_file :: "string option"

record listener_config =
  lc_address :: string
  lc_cert_file :: "string option"
  lc_key_file :: "string option"
  lc_ca_cert_file :: "string option"
  lc_extra :: extra_keys

record alarm_db_config =
  adb_path :: "string option"
  adb_extra :: extra_keys

record alarm_management_config =
  amc_alarm_manager_url :: "string option"
  amc_cert_file :: "string option"
  amc_key_file :: "string option"
  amc_ca_cert_file :: "string option"
  amc_alarm_db :: "alarm_db_config option"
  amc_alarm_rest_path :: "string option"
  amc_extra :: extra_keys

record stack_config =
  sc_name :: string
  sc_host :: string
  sc_realm :: string
  sc_request_timeout :: "u64 option"
  sc_connection_request_timeout :: "u64 option"
  sc_cer_timeout :: "u64 option"
  sc_dpr_timeout :: "u64 option"
  sc_dwr_timeout :: "u64 option"
  sc_alarm_management :: "alarm_management_config option"
  sc_listen :: "listener_config list option"
  sc_rest_listen :: "rest_listener_config list option"
  sc_my_request_processors :: "processor_config list option"
  sc_request_retry_result_codes :: "u32 list option"
  sc_peers :: "peer_config list option"
  sc_capability :: stack_capability
  sc_routing :: "stack_routing_config option"
  sc_avp_files :: "string list option"
  sc_command_files :: "string list option"
  sc_extra :: extra_keys

text \<open>\<open>unwrap_or_default\<close> of an optional list.\<close>

definition list_or_default :: "'a list option \<Rightarrow> 'a list" where
  "list_or_default xo = (case xo of Some xs \<Rightarrow> xs | None \<Rightarrow> [])"

section \<open>Loading\<close>

datatype config_error = ReadFailed | YamlFailed | StacksNotASequence | InvalidStackConfig

text \<open>
  \<open>load_stack_configs\<close> from the contents of the file (\<open>None\<close> when it cannot be
  read), with the YAML parser and the derived decoder of one stack as parameters. A stack that
  does not decode is skipped.
\<close>

definition load_stack_configs ::
  "(string \<Rightarrow> yaml option) \<Rightarrow> (yaml \<Rightarrow> stack_config option) \<Rightarrow> string option
   \<Rightarrow> config_error + stack_config list" where
  "load_stack_configs parse_yaml decode contents =
     (case contents of
        None \<Rightarrow> Inl ReadFailed
      | Some s \<Rightarrow>
          (case parse_yaml s of
             None \<Rightarrow> Inl YamlFailed
           | Some y \<Rightarrow>
               (case yaml_get y ''stacks'' of
                  None \<Rightarrow> Inl InvalidStackConfig
                | Some (YSequence stacks) \<Rightarrow> Inr (List.map_filter decode stacks)
                | Some _ \<Rightarrow> Inl StacksNotASequence)))"

text \<open>One stack that does not decode changes nothing for the others.\<close>

lemma load_stack_configs_skips:
  assumes "parse_yaml s = Some y" "yaml_get y ''stacks'' = Some (YSequence (xs @ bad # ys))"
    and "decode bad = None"
  shows "load_stack_configs parse_yaml decode (Some s) = Inr (List.map_filter decode (xs @ ys))"
  using assms by (simp add: load_stack_configs_def map_filter_def)

end
