(* ===== verification/Strategy.thy ===== *)
theory Strategy
  imports Connections Config
begin

text \<open>
  The route expressions and connection URLs of the configuration, and the connections a peer entry
  asks for (\<open>stack.rs\<close>): \<open>LoadBalancerStrategy::from_str\<close>, \<open>ListenParameters\<close>,
  \<open>ListenAddress::from_str\<close>, \<open>DiameterStack::create_connections\<close> and
  \<open>connect_to_peers\<close> up to the hand-over to the connection manager.

  The reference is the tree an expression denotes: \<open>rr(a;fo(b;c))\<close> is a round-robin group
  of a peer and a fail-over group. Printing a tree and parsing it gives the tree back.
\<close>

section \<open>Lower case and white space\<close>

text \<open>
  The one character outside ASCII whose lower case is ASCII is the Kelvin sign U+212A. Whatever
  else is outside ASCII stays outside, and an expression that is not ASCII after lower-casing
  panics: the loop indexes characters up to the length in bytes.
\<close>

definition kelvin_sign :: string where
  "kelvin_sign = [CHR 0xE2, CHR 0x84, CHR 0xAA]"

fun fold_kelvin :: "string \<Rightarrow> string" where
  "fold_kelvin [] = []"
| "fold_kelvin (c # cs) =
     (if take 3 (c # cs) = kelvin_sign then CHR ''k'' # fold_kelvin (drop 2 cs)
      else c # fold_kelvin cs)"

definition str_to_lowercase :: "string \<Rightarrow> string" where
  "str_to_lowercase s = to_lowercase (fold_kelvin s)"

text \<open>\<open>str::trim\<close>: the characters with the property \<open>White_Space\<close>, in UTF-8.\<close>

definition white_space :: "string list" where
  "white_space =
     map (\<lambda>n. [char_of n]) [9, 10, 11, 12, 13, 32 :: nat]
     @ [[CHR 0xC2, CHR 0x85], [CHR 0xC2, CHR 0xA0], [CHR 0xE1, CHR 0x9A, CHR 0x80]]
     @ map (\<lambda>n. [CHR 0xE2, CHR 0x80, char_of n])
         [128, 129, 130, 131, 132, 133, 134, 135, 136, 137, 138, 168, 169, 175 :: nat]
     @ [[CHR 0xE2, CHR 0x81, CHR 0x9F], [CHR 0xE3, CHR 0x80, CHR 0x80]]"

function strip_front :: "string list \<Rightarrow> string \<Rightarrow> string" where
  "strip_front ws s =
     (case find (\<lambda>w. w \<noteq> [] \<and> s \<noteq> [] \<and> take (length w) s = w) ws of
        None \<Rightarrow> s
      | Some w \<Rightarrow> strip_front ws (drop (length w) s))"
  by pat_completeness auto

termination strip_front
  by (relation "measure (\<lambda>(ws, s). length s)") (auto simp: find_Some_iff)

declare strip_front.simps [simp del]

definition str_trim :: "string \<Rightarrow> string" where
  "str_trim s = rev (strip_front (map rev white_space) (rev (strip_front white_space s)))"

section \<open>LoadBalancerStrategy::from\_str\<close>

datatype load_balancer_strategy =
  SRoundRobin string
| SFailOver string
| SRandom string
| SValue "string list"

definition level_step :: "int \<Rightarrow> char \<Rightarrow> int" where
  "level_step level c =
     (if c = CHR ''('' then level + 1 else if c = CHR '')'' then level - 1 else level)"

text \<open>The \<open>while\<close> loop: the values pushed and the final level.\<close>

function scan_loop ::
  "string \<Rightarrow> nat \<Rightarrow> int \<Rightarrow> nat \<Rightarrow> string list \<Rightarrow> string list \<times> int" where
  "scan_loop s index level start vals =
     (if index < length s then
        let c = s ! index;
            level' = level_step level c in
        if level' = 0 \<and> c = CHR '';'' then
          scan_loop s (index + 1) level' (index + 1) (vals @ [str_trim (slice s start index)])
        else if level' = 0 \<and> index + 1 \<ge> length s \<and> start > 0 then
          scan_loop s (index + 1) level' start (vals @ [str_trim (drop start s)])
        else scan_loop s (index + 1) level' start vals
      else (vals, level))"
  by pat_completeness auto

termination scan_loop
  by (relation "measure (\<lambda>(s, index, _). length s - index)") auto

declare scan_loop.simps [simp del]

fun starts_with :: "string \<Rightarrow> string \<Rightarrow> bool" where
  "starts_with s [] = True"
| "starts_with [] (p # ps) = False"
| "starts_with (c # cs) (p # ps) = (c = p \<and> starts_with cs ps)"

definition starts_with_one_of :: "string \<Rightarrow> string list \<Rightarrow> bool" where
  "starts_with_one_of v ps = list_ex (starts_with v) ps"

definition ends_with_char :: "string \<Rightarrow> char \<Rightarrow> bool" where
  "ends_with_char s c = (s \<noteq> [] \<and> last s = c)"

definition strip_suffix_char :: "string \<Rightarrow> char \<Rightarrow> string option" where
  "strip_suffix_char s c = (if ends_with_char s c then Some (butlast s) else None)"

text \<open>\<open>splitn(2, "(").nth(1)\<close>: what follows the first opening parenthesis.\<close>

fun after_first :: "char \<Rightarrow> string \<Rightarrow> string option" where
  "after_first c [] = None"
| "after_first c (x # xs) = (if x = c then Some xs else after_first c xs)"

definition group_body :: "string \<Rightarrow> string option" where
  "group_body s = Option.bind (after_first (CHR ''('') s) (\<lambda>t. strip_suffix_char t (CHR '')''))"

definition rr_prefixes :: "string list" where
  "rr_prefixes = [''round-robin('', ''rr('', ''roundrobin('']"

definition fo_prefixes :: "string list" where
  "fo_prefixes = [''failover('', ''fo('', ''fail-over('']"

definition rand_prefixes :: "string list" where
  "rand_prefixes = [''random('', ''rand('']"

definition strategy_from_str :: "string \<Rightarrow> (unit, load_balancer_strategy option) outcome" where
  "strategy_from_str arg =
     (let s = str_to_lowercase arg in
      if \<not> ascii s then Panic
      else
        let (vals, level) = scan_loop s 0 0 0 [] in
        if level \<noteq> 0 then Ok None
        else if vals \<noteq> [] then Ok (Some (SValue vals))
        else if starts_with_one_of s rr_prefixes \<and> ends_with_char s (CHR '')'') then
          Ok (map_option SRoundRobin (group_body s))
        else if starts_with_one_of s fo_prefixes \<and> ends_with_char s (CHR '')'') then
          Ok (map_option SFailOver (group_body s))
        else if starts_with_one_of s rand_prefixes \<and> ends_with_char s (CHR '')'') then
          Ok (map_option SRandom (group_body s))
        else Ok (Some (SValue [s])))"

section \<open>ListenParameters and ListenAddress\<close>

type_synonym listen_parameters = "string \<rightharpoonup> string"

definition params_from_str :: "string \<Rightarrow> listen_parameters" where
  "params_from_str s =
     foldl (\<lambda>m param. case split_on (CHR ''='') param of [k, v] \<Rightarrow> m(k \<mapsto> v) | _ \<Rightarrow> m)
       Map.empty (split_on (CHR ''&'') s)"

definition parse_bool :: "string \<Rightarrow> bool option" where
  "parse_bool s = (if s = ''true'' then Some True else if s = ''false'' then Some False else None)"

definition params_get_bool :: "listen_parameters \<Rightarrow> string \<Rightarrow> bool option" where
  "params_get_bool m key = Option.bind (m key) parse_bool"

definition params_get_u16 :: "listen_parameters \<Rightarrow> string \<Rightarrow> u16 option" where
  "params_get_u16 m key = Option.bind (m key) parse_u16"

definition params_get_u32 :: "listen_parameters \<Rightarrow> string \<Rightarrow> u32 option" where
  "params_get_u32 m key = Option.bind (m key) parse_u32"

record listen_address =
  la_protocol :: string
  la_hosts :: "string list"
  la_port :: u16
  la_parameters :: "listen_parameters option"

datatype listen_error = InvalidListenFormat string | InvalidListenPort string

text \<open>\<open>split\<close> at a non-empty pattern, and \<open>rsplitn(2, c)\<close>.\<close>

function split_str :: "string \<Rightarrow> string \<Rightarrow> string list" where
  "split_str p [] = [[]]"
| "split_str p (x # xs) =
     (if p \<noteq> [] \<and> starts_with (x # xs) p then [] # split_str p (drop (length p) (x # xs))
      else case split_str p xs of y # ys \<Rightarrow> (x # y) # ys | [] \<Rightarrow> [[x]])"
  by pat_completeness auto

termination split_str
  by (relation "measure (\<lambda>(p, s). length s)") auto

definition rsplitn2 :: "char \<Rightarrow> string \<Rightarrow> string list" where
  "rsplitn2 c s =
     (case after_first c (rev s) of
        None \<Rightarrow> [s]
      | Some r \<Rightarrow> [drop (Suc (length r)) s, rev r])"

definition listen_from_str :: "string \<Rightarrow> listen_error + listen_address" where
  "listen_from_str address =
     (let parts = split_on (CHR ''?'') address;
          main_part = hd parts;
          parameters = (if length parts > 1 then Some (params_from_str (parts ! 1)) else None) in
      case split_str ''://'' main_part of
        [protocol, rest] \<Rightarrow>
          (case rsplitn2 (CHR '':'') rest of
             [port_part, hosts_part] \<Rightarrow>
               (case parse_u16 port_part of
                  None \<Rightarrow> Inl (InvalidListenPort port_part)
                | Some port \<Rightarrow>
                    Inr \<lparr>la_protocol = protocol,
                         la_hosts = map str_trim (split_on (CHR '','') hosts_part),
                         la_port = port, la_parameters = parameters\<rparr>)
           | _ \<Rightarrow> Inl (InvalidListenFormat address))
      | _ \<Rightarrow> Inl (InvalidListenFormat address))"

definition get_parameter :: "listen_address \<Rightarrow> string \<Rightarrow> string option" where
  "get_parameter a key = Option.bind (la_parameters a) (\<lambda>m. m key)"

definition get_parameter_bool :: "listen_address \<Rightarrow> string \<Rightarrow> bool option" where
  "get_parameter_bool a key = Option.bind (la_parameters a) (\<lambda>m. params_get_bool m key)"

definition get_parameter_u16 :: "listen_address \<Rightarrow> string \<Rightarrow> u16 option" where
  "get_parameter_u16 a key = Option.bind (la_parameters a) (\<lambda>m. params_get_u16 m key)"

definition get_parameter_u32 :: "listen_address \<Rightarrow> string \<Rightarrow> u32 option" where
  "get_parameter_u32 a key = Option.bind (la_parameters a) (\<lambda>m. params_get_u32 m key)"

section \<open>The scan against its reference\<close>

text \<open>
  Splitting at the semicolons outside all parentheses, by structural recursion: the complete
  segments, the open one, and the level reached.
\<close>

fun top_split :: "int \<Rightarrow> string \<Rightarrow> string \<Rightarrow> string list \<times> string \<times> int" where
  "top_split level cur [] = ([], cur, level)"
| "top_split level cur (c # cs) =
     (let level' = level_step level c in
      if level' = 0 \<and> c = CHR '';'' then
        (let (segs, last_seg, l) = top_split level' [] cs in (cur # segs, last_seg, l))
      else top_split level' (cur @ [c]) cs)"

lemma slice_Suc: "i \<le> j \<Longrightarrow> j < length s \<Longrightarrow> slice s i (Suc j) = slice s i j @ [s ! j]"
  by (simp add: slice_def Suc_diff_le take_Suc_conv_app_nth)

lemma slice_refl [simp]: "slice s i i = []"
  by (simp add: slice_def)

lemma top_split_lst: "top_split l cur cs = ([], lst, l') \<Longrightarrow> lst = cur @ cs"
  by (induction l cur cs rule: top_split.induct) (auto simp: Let_def split: if_splits prod.splits)

text \<open>
  The loop returns the trimmed segments. What follows the last separator is a value unless it is
  empty; a text without a separator has no values.
\<close>

lemma scan_loop_top_split:
  "start \<le> index \<Longrightarrow> index \<le> length s \<Longrightarrow>
   top_split level (slice s start index) (drop index s) = (segs, lst, l) \<Longrightarrow>
   scan_loop s index level start vals =
     (vals @ map str_trim segs
        @ (if l = 0 \<and> lst \<noteq> [] \<and> (0 < start \<or> segs \<noteq> []) \<and> index < length s then [str_trim lst] else []),
      l)"
proof (induction s index level start vals arbitrary: segs lst l rule: scan_loop.induct)
  case (1 s index level start vals)
  show ?case
  proof (cases "index < length s")
    case False
    then show ?thesis using 1 by (auto simp: scan_loop.simps)
  next
    case True
    let ?c = "s ! index" and ?l = "level_step level (s ! index)"
    have d: "drop index s = ?c # drop (Suc index) s" using True by (simp add: Cons_nth_drop_Suc)
    have end_lst: "top_split l cur [] = (a, b, e) \<Longrightarrow> a = [] \<and> b = cur \<and> e = l" for l cur a b e by simp
    consider (sep) "?l = 0" "?c = CHR '';''" | (last) "\<not> (?l = 0 \<and> ?c = CHR '';'')" "index + 1 = length s"
      | (mid) "\<not> (?l = 0 \<and> ?c = CHR '';'')" "index + 1 < length s" using True by fastforce
    then show ?thesis
    proof cases
      case sep
      obtain segs' where segs': "top_split 0 [] (drop (Suc index) s) = (segs', lst, l)"
        "segs = slice s start index # segs'"
        using 1(6) sep by (auto simp: d Let_def split: prod.splits)
      have "Suc index = length s \<Longrightarrow> lst = []" using segs'(1) by auto
      moreover have "scan_loop s (Suc index) 0 (Suc index) (vals @ [str_trim (slice s start index)])
        = (vals @ [str_trim (slice s start index)] @ map str_trim segs'
           @ (if l = 0 \<and> lst \<noteq> [] \<and> Suc index < length s then [str_trim lst] else []), l)"
        using 1(1) [OF True refl refl, of segs' lst l] sep True segs' by simp
      ultimately show ?thesis
        using sep True segs' by (subst scan_loop.simps) (auto simp: Let_def)
    next
      case last
      have "segs = [] \<and> lst = slice s start index @ [?c] \<and> l = ?l"
        using 1(6) last by (auto simp: d Let_def split: if_splits)
      moreover have "slice s start index @ [?c] = drop start s"
        using 1(4) last True slice_Suc [of start index s] by (simp add: slice_def)
      ultimately show ?thesis
        using last True by (subst scan_loop.simps) (auto simp: Let_def scan_loop.simps)
    next
      case mid
      have "top_split ?l (slice s start (Suc index)) (drop (Suc index) s) = (segs, lst, l)"
        using 1(4,6) mid True by (simp add: d Let_def slice_Suc split: if_splits)
      moreover have "scan_loop s index level start vals = scan_loop s (Suc index) ?l start vals"
        using mid True by (subst scan_loop.simps) (auto simp: Let_def)
      ultimately show ?thesis
        using 1(3) [OF True refl refl, of segs lst l] 1(4) mid by auto
    qed
  qed
qed

section \<open>The parts of an expression are shorter\<close>

lemma length_fold_kelvin: "length (fold_kelvin s) \<le> length s"
proof (induction s rule: fold_kelvin.induct)
  case (2 c cs)
  show ?case
  proof (cases "take 3 (c # cs) = kelvin_sign")
    case True
    then have "length (take 3 (c # cs)) = 3" by (simp only:) (simp add: kelvin_sign_def)
    then show ?thesis using 2 True by auto
  qed (use 2 in auto)
qed simp

lemma length_str_to_lowercase: "length (str_to_lowercase s) \<le> length s"
  by (simp add: str_to_lowercase_def length_fold_kelvin)

lemma length_strip_front: "length (strip_front ws s) \<le> length s"
proof (induction ws s rule: strip_front.induct)
  case (1 ws s)
  then show ?case
    by (subst strip_front.simps) (fastforce split: option.split)
qed

lemma length_str_trim: "length (str_trim s) \<le> length s"
  unfolding str_trim_def using length_strip_front le_trans by (metis length_rev)

lemma top_split_shorter:
  "top_split l cur cs = (segs, lst, l') \<Longrightarrow>
   (\<forall>v\<in>set segs. length v < length cur + length cs) \<and>
   (segs \<noteq> [] \<longrightarrow> length lst < length cur + length cs)"
proof (induction l cur cs arbitrary: segs lst l' rule: top_split.induct)
  case (2 level cur c cs)
  show ?case
  proof (cases "level_step level c = 0 \<and> c = CHR '';''")
    case True
    then obtain segs' where segs': "top_split 0 [] cs = (segs', lst, l')" "segs = cur # segs'"
      using 2(3) by (auto simp: Let_def split: prod.splits)
    have "length lst \<le> length cs"
      using 2(1) [of _ segs' lst l'] segs'(1) True
      by (cases "segs' = []") (auto dest: top_split_lst)
    then show ?thesis using 2(1) [of _ segs' lst l'] segs' True by (auto dest!: bspec)
  next
    case False
    then show ?thesis using 2(2) [of _ segs lst l'] 2(3) by (auto simp: Let_def)
  qed
qed simp

lemma scan_loop_shorter:
  assumes "scan_loop s 0 0 0 [] = (vals, l)" "v \<in> set vals"
  shows "length v < length s"
proof -
  obtain segs lst l' where t: "top_split 0 [] s = (segs, lst, l')" using prod_cases3 by blast
  have "v \<in> str_trim ` (set segs \<union> (if segs \<noteq> [] then {lst} else {}))"
    using assms scan_loop_top_split [of 0 0 s 0 segs lst l' "[]"] t by (auto split: if_splits)
  then show ?thesis
    using top_split_shorter [OF t] length_str_trim le_less_trans by (fastforce split: if_splits)
qed

lemma after_first_shorter: "after_first c s = Some t \<Longrightarrow> length t < length s"
  by (induction s) (auto split: if_splits)

lemma group_body_shorter: "group_body s = Some t \<Longrightarrow> length t < length s"
  using after_first_shorter
  by (fastforce simp: group_body_def strip_suffix_char_def bind_eq_Some_conv split: if_splits)

lemma strategy_from_str_shorter:
  assumes "strategy_from_str url = Ok (Some st)"
  shows "st \<in> {SRoundRobin t, SFailOver t, SRandom t} \<Longrightarrow> length t < length url"
    and "st = SValue vs \<Longrightarrow> v \<in> set vs \<Longrightarrow>
         length v < length url \<or> vs = [v] \<and> v = str_to_lowercase url"
  using assms length_str_to_lowercase [of url] group_body_shorter [of "str_to_lowercase url"]
    scan_loop_shorter [of "str_to_lowercase url"]
  by (auto simp: strategy_from_str_def Let_def split: if_splits prod.splits) (force+)

lemma fold_kelvin_ascii: "ascii s \<Longrightarrow> fold_kelvin s = s"
  by (induction s) (auto simp: ascii_def kelvin_sign_def byte_of_char_def)

lemma str_to_lowercase_ascii: "ascii s \<Longrightarrow> str_to_lowercase s = to_lowercase s"
  by (simp add: str_to_lowercase_def fold_kelvin_ascii)

lemma str_to_lowercase_idem:
  "ascii (str_to_lowercase s) \<Longrightarrow> str_to_lowercase (str_to_lowercase s) = str_to_lowercase s"
  by (simp add: str_to_lowercase_ascii) (simp add: str_to_lowercase_def)

lemma strategy_from_str_ascii: "strategy_from_str url = Ok r \<Longrightarrow> ascii (str_to_lowercase url)"
  by (auto simp: strategy_from_str_def Let_def split: if_splits)

lemma strategy_value_not_Nil: "strategy_from_str url = Ok (Some (SValue vs)) \<Longrightarrow> vs \<noteq> []"
  by (auto simp: strategy_from_str_def Let_def split: if_splits prod.splits)

section \<open>create\_connections and connect\_to\_peers\<close>

text \<open>
  A client connection is what the constructors \<open>TcpClientConnection::new\<close> and
  \<open>SctpClientConnection::new\<close> are given; it is a leaf of the connection tree, named by its
  handle. The store has the next handle, the clients by handle (each is started as soon as it is
  made) and the peer host and realm each container answers for. A random container has made-up
  names: \<open>uuid i k\<close> is the k-th identifier drawn for container i.
\<close>

datatype client_transport = Tcp | Sctp u16 u32

record client_connection =
  cl_transport :: client_transport
  cl_addresses :: "string list"
  cl_host :: string
  cl_realm :: string
  cl_peer_host :: string
  cl_peer_realm :: string
  cl_capability :: stack_capability
  cl_key_file :: string
  cl_cert_file :: string
  cl_ca_cert_file :: string
  cl_cer_timeout :: "u64 option"

record dial_store =
  ds_fresh :: nat
  ds_clients :: "nat \<rightharpoonup> client_connection"
  ds_names :: "nat \<rightharpoonup> string \<times> string"

text \<open>The arguments that are passed down unchanged, but for the two file names.\<close>

record dial_args =
  da_peer_host :: string
  da_peer_realm :: string
  da_key_file :: string
  da_cert_file :: string
  da_ca_cert_file :: string

definition exchange_files :: "dial_args \<Rightarrow> dial_args" where
  "exchange_files a = a\<lparr>da_key_file := da_cert_file a, da_cert_file := da_key_file a\<rparr>"

definition host_port :: "string \<Rightarrow> u16 \<Rightarrow> string" where
  "host_port h p = h @ '':'' @ show_nat (unat p)"

definition client_base :: "stack_config \<Rightarrow> dial_args \<Rightarrow> client_transport \<Rightarrow> string list \<Rightarrow> u64 option
    \<Rightarrow> client_connection" where
  "client_base cfg a t addrs cer =
     \<lparr>cl_transport = t, cl_addresses = addrs, cl_host = sc_host cfg, cl_realm = sc_realm cfg,
      cl_peer_host = da_peer_host a, cl_peer_realm = da_peer_realm a,
      cl_capability = sc_capability cfg, cl_key_file = da_key_file a,
      cl_cert_file = da_cert_file a, cl_ca_cert_file = da_ca_cert_file a, cl_cer_timeout = cer\<rparr>"

definition client_for :: "stack_config \<Rightarrow> dial_args \<Rightarrow> listen_address \<Rightarrow> client_connection option" where
  "client_for cfg a addr =
     (if str_to_lowercase (la_protocol addr) = ''tcp'' then
        Some (client_base cfg a Tcp [host_port (la_hosts addr ! 0) (la_port addr)]
          (Some (case sc_cer_timeout cfg of Some t \<Rightarrow> t | None \<Rightarrow> 3000)))
      else if str_to_lowercase (la_protocol addr) = ''sctp'' then
        Some (client_base cfg a
          (Sctp (case get_parameter_u16 addr ''stream_id'' of Some i \<Rightarrow> i | None \<Rightarrow> 0)
                (case get_parameter_u32 addr ''ppid'' of Some i \<Rightarrow> i | None \<Rightarrow> 0))
          (map (\<lambda>h. host_port h (la_port addr)) (la_hosts addr)) None)
      else None)"

definition new_client :: "client_connection \<Rightarrow> dial_store \<Rightarrow> conn list \<times> dial_store" where
  "new_client c st =
     ([Leaf (ds_fresh st)],
      st\<lparr>ds_fresh := ds_fresh st + 1, ds_clients := (ds_clients st)(ds_fresh st \<mapsto> c)\<rparr>)"

definition dial_url :: "stack_config \<Rightarrow> dial_args \<Rightarrow> string \<Rightarrow> dial_store \<Rightarrow> conn list \<times> dial_store" where
  "dial_url cfg a url st =
     (case listen_from_str url of
        Inl e \<Rightarrow> ([], st)
      | Inr addr \<Rightarrow>
          (case client_for cfg a addr of None \<Rightarrow> ([], st) | Some c \<Rightarrow> new_client c st))"

definition container_names ::
  "(nat \<Rightarrow> nat \<Rightarrow> string) \<Rightarrow> nat \<Rightarrow> balancing \<Rightarrow> string \<Rightarrow> string \<Rightarrow> string \<times> string" where
  "container_names uuid i k host realm =
     (if k = Random then (''random-host'' @ uuid i 1, ''random-realm'' @ uuid i 2) else (host, realm))"

definition new_container :: "(nat \<Rightarrow> nat \<Rightarrow> string) \<Rightarrow> balancing \<Rightarrow> string \<Rightarrow> string
    \<Rightarrow> conn list \<Rightarrow> dial_store \<Rightarrow> conn \<times> dial_store" where
  "new_container uuid k host realm cs st =
     (let i = ds_fresh st in
      (Node i k cs,
       st\<lparr>ds_fresh := i + 1, ds_names := (ds_names st)(i \<mapsto> container_names uuid i k host realm)\<rparr>))"

text \<open>A group of one connection is that connection.\<close>

definition group_conns :: "(nat \<Rightarrow> nat \<Rightarrow> string) \<Rightarrow> balancing \<Rightarrow> dial_args
    \<Rightarrow> conn list \<times> dial_store \<Rightarrow> conn list \<times> dial_store" where
  "group_conns uuid k a r =
     (case r of (conns, st) \<Rightarrow>
        if length conns > 1 then
          (case new_container uuid k (da_peer_host a) (da_peer_realm a) conns st of (c, st') \<Rightarrow> ([c], st'))
        else (conns, st))"

definition url_measure :: "string \<Rightarrow> nat" where
  "url_measure url = 2 * length url + (if str_to_lowercase url = url then 0 else 1)"

function create_connections :: "stack_config \<Rightarrow> (nat \<Rightarrow> nat \<Rightarrow> string) \<Rightarrow> dial_args \<Rightarrow> string
      \<Rightarrow> dial_store \<Rightarrow> (unit, conn list \<times> dial_store) outcome"
  and create_each :: "stack_config \<Rightarrow> (nat \<Rightarrow> nat \<Rightarrow> string) \<Rightarrow> dial_args \<Rightarrow> string list
      \<Rightarrow> dial_store \<Rightarrow> (unit, conn list \<times> dial_store) outcome" where
  "create_connections cfg uuid a url st =
     (case strategy_from_str url of
        Panic \<Rightarrow> Panic
      | Err e \<Rightarrow> Err e
      | Ok None \<Rightarrow> Ok ([], st)
      | Ok (Some (SRoundRobin peers)) \<Rightarrow>
          map_ok (group_conns uuid RoundRobin a) (create_connections cfg uuid a peers st)
      | Ok (Some (SFailOver peers)) \<Rightarrow>
          map_ok (group_conns uuid FailOver a) (create_connections cfg uuid a peers st)
      | Ok (Some (SRandom peers)) \<Rightarrow>
          map_ok (group_conns uuid Random a) (create_connections cfg uuid a peers st)
      | Ok (Some (SValue vals)) \<Rightarrow>
          if vals = [url] then Ok (dial_url cfg a url st)
          else create_each cfg uuid (exchange_files a) vals st)"
| "create_each cfg uuid a [] st = Ok ([], st)"
| "create_each cfg uuid a (v # vs) st =
     bind_ok (create_connections cfg uuid a v st) (\<lambda>(cs, st').
       map_ok (\<lambda>(ds, st''). (cs @ ds, st'')) (create_each cfg uuid a vs st'))"
  by pat_completeness auto

lemma url_measure_part:
  assumes "strategy_from_str url = Ok (Some (SValue vs))" "v \<in> set vs" "vs \<noteq> [url]"
  shows "url_measure v < url_measure url"
proof -
  have idem: "str_to_lowercase (str_to_lowercase url) = str_to_lowercase url"
    by (rule str_to_lowercase_idem [OF strategy_from_str_ascii [OF assms(1)]])
  show ?thesis
    using strategy_from_str_shorter(2) [OF assms(1) refl assms(2)] idem assms(3)
      length_str_to_lowercase [of url]
    by (auto simp: url_measure_def)
qed

definition urls_measure :: "string list \<Rightarrow> nat" where
  "urls_measure vs = Max (insert 0 (url_measure ` set vs))"

lemma urls_measure_Cons:
  "url_measure v \<le> urls_measure (v # vs)" "urls_measure vs \<le> urls_measure (v # vs)"
  by (auto simp: urls_measure_def intro: Max_mono)

lemma urls_measure_less: "(\<And>v. v \<in> set vs \<Longrightarrow> url_measure v < n) \<Longrightarrow> 0 < n \<Longrightarrow> urls_measure vs < n"
  by (auto simp: urls_measure_def)

lemma url_measure_group:
  assumes "strategy_from_str url = Ok (Some st)" "st \<in> {SRoundRobin t, SFailOver t, SRandom t}"
  shows "url_measure t < url_measure url"
  using strategy_from_str_shorter(1) [OF assms] by (auto simp: url_measure_def)

lemma urls_measure_value:
  assumes "strategy_from_str url = Ok (Some (SValue vals))" "vals \<noteq> [url]"
  shows "urls_measure vals < url_measure url"
proof -
  have less: "url_measure v < url_measure url" if "v \<in> set vals" for v
    using url_measure_part [of url vals v] assms that by simp
  have "hd vals \<in> set vals" using assms strategy_value_not_Nil by simp
  then have "0 < url_measure url" using less [of "hd vals"] by linarith
  then show ?thesis using less by (rule urls_measure_less [rotated])
qed

text \<open>Every expression is processed in finitely many steps.\<close>

termination create_connections
proof (relation "measures [\<lambda>x. case x of Inl (_, _, _, url, _) \<Rightarrow> url_measure url
                                        | Inr (_, _, _, vs, _) \<Rightarrow> urls_measure vs,
                           \<lambda>x. case x of Inl _ \<Rightarrow> 0 | Inr (_, _, _, vs, _) \<Rightarrow> Suc (length vs)]",
       goal_cases)
  case (5 cfg uuid a url st so s vals)
  then have "urls_measure vals < url_measure url" by (intro urls_measure_value) simp_all
  then show ?case by simp
qed (auto dest: url_measure_group simp: le_less urls_measure_Cons
       intro: le_neq_implies_less [OF urls_measure_Cons(1)] le_neq_implies_less [OF urls_measure_Cons(2)])

definition split_peer_host :: "string \<Rightarrow> string \<times> string" where
  "split_peer_host h =
     (case after_first (CHR ''@'') h of
        None \<Rightarrow> (h, [])
      | Some realm \<Rightarrow> (take (length h - length realm - 1) h, realm))"

text \<open>
  The call in \<open>connect_to_peers\<close> passes the certificate file in the place of the key file,
  and the key file in the place of the certificate file.
\<close>

definition peer_args :: "peer_config \<Rightarrow> dial_args" where
  "peer_args peer =
     (let (host, realm) = split_peer_host (pc_host peer) in
      \<lparr>da_peer_host = host, da_peer_realm = realm,
       da_key_file = (case pc_cert_file peer of Some f \<Rightarrow> f | None \<Rightarrow> []),
       da_cert_file = (case pc_key_file peer of Some f \<Rightarrow> f | None \<Rightarrow> []),
       da_ca_cert_file = (case pc_ca_cert_file peer of Some f \<Rightarrow> f | None \<Rightarrow> [])\<rparr>)"

fun connect_peers :: "stack_config \<Rightarrow> (nat \<Rightarrow> nat \<Rightarrow> string) \<Rightarrow> peer_config list \<Rightarrow> dial_store
    \<Rightarrow> (unit, conn list \<times> dial_store) outcome" where
  "connect_peers cfg uuid [] st = Ok ([], st)"
| "connect_peers cfg uuid (peer # peers) st =
     bind_ok (create_connections cfg uuid (peer_args peer) (pc_connection_url peer) st) (\<lambda>(cs, st').
       map_ok (\<lambda>(ds, st''). (cs @ ds, st'')) (connect_peers cfg uuid peers st'))"

text \<open>The connections handed to the connection manager, in this order.\<close>

definition connect_to_peers :: "stack_config \<Rightarrow> (nat \<Rightarrow> nat \<Rightarrow> string) \<Rightarrow> dial_store
    \<Rightarrow> (unit, conn list \<times> dial_store) outcome" where
  "connect_to_peers cfg uuid st =
     (case sc_peers cfg of None \<Rightarrow> Ok ([], st) | Some peers \<Rightarrow> connect_peers cfg uuid peers st)"

section \<open>Route expressions as trees\<close>

fun join_with :: "char \<Rightarrow> string list \<Rightarrow> string" where
  "join_with c [] = []"
| "join_with c [s] = s"
| "join_with c (s # t # ts) = s @ c # join_with c (t # ts)"

datatype route = Peer string | Group balancing "route list"

fun group_name :: "balancing \<Rightarrow> string" where
  "group_name RoundRobin = ''rr''"
| "group_name FailOver = ''fo''"
| "group_name Random = ''random''"

fun show_route :: "route \<Rightarrow> string" where
  "show_route (Peer u) = u"
| "show_route (Group k rs) = group_name k @ ''('' @ join_with (CHR '';'') (map show_route rs) @ '')''"

definition plain_url :: "string \<Rightarrow> bool" where
  "plain_url u \<longleftrightarrow> u \<noteq> [] \<and> ascii u \<and> to_lowercase u = u \<and> str_trim u = u
     \<and> CHR ''('' \<notin> set u \<and> CHR '')'' \<notin> set u \<and> CHR '';'' \<notin> set u"

fun route_ok :: "route \<Rightarrow> bool" where
  "route_ok (Peer u) = plain_url u"
| "route_ok (Group k rs) = (rs \<noteq> [] \<and> (\<forall>r\<in>set rs. route_ok r))"

text \<open>A text inside which no level-0 separator is seen, whatever surrounds it.\<close>

definition closed :: "string \<Rightarrow> bool" where
  "closed p \<longleftrightarrow> (\<forall>l cur rest. 0 \<le> l \<longrightarrow> top_split l cur (p @ rest) = top_split l (cur @ p) rest)"

lemma closedD: "closed p \<Longrightarrow> 0 \<le> l \<Longrightarrow> top_split l cur (p @ rest) = top_split l (cur @ p) rest"
  by (simp add: closed_def)

lemma closed_plain:
  "CHR ''('' \<notin> set u \<Longrightarrow> CHR '')'' \<notin> set u \<Longrightarrow> CHR '';'' \<notin> set u \<Longrightarrow> closed u"
  unfolding closed_def
proof (intro allI impI, induction u)
  case (Cons c u)
  then show ?case by (auto simp: level_step_def)
qed simp

lemma join_inside:
  "\<forall>p\<in>set ps. closed p \<Longrightarrow> 1 \<le> l \<Longrightarrow>
   top_split l cur (join_with (CHR '';'') ps @ rest) = top_split l (cur @ join_with (CHR '';'') ps) rest"
  by (induction "CHR '';''" ps arbitrary: cur rule: join_with.induct)
     (simp_all add: closedD level_step_def)

lemma join_outside:
  "\<forall>p\<in>set ps. closed p \<Longrightarrow> ps \<noteq> [] \<Longrightarrow>
   top_split 0 [] (join_with (CHR '';'') ps) = (butlast ps, last ps, 0)"
proof (induction "CHR '';''" ps rule: join_with.induct)
  case (2 s)
  then show ?case using closedD [of s 0 "[]" "[]"] by simp
next
  case (3 s t ts)
  then show ?case using closedD [of s 0 "[]" "CHR '';'' # join_with (CHR '';'') (t # ts)"]
    by (simp add: level_step_def)
qed simp

lemma group_name_plain:
  "CHR ''('' \<notin> set (group_name k)" "CHR '')'' \<notin> set (group_name k)" "CHR '';'' \<notin> set (group_name k)"
  by (cases k; simp)+

lemma closed_group:
  assumes "\<forall>p\<in>set ps. closed p"
  shows "closed (group_name k @ ''('' @ join_with (CHR '';'') ps @ '')'')"
  unfolding closed_def
proof (intro allI impI)
  fix l :: int and cur rest :: string assume "0 \<le> l"
  then show "top_split l cur ((group_name k @ ''('' @ join_with (CHR '';'') ps @ '')'') @ rest)
    = top_split l (cur @ group_name k @ ''('' @ join_with (CHR '';'') ps @ '')'') rest"
    using closedD [OF closed_plain [OF group_name_plain, of k], of l cur]
      join_inside [OF assms, of "l + 1"]
    by (simp add: level_step_def)
qed

lemma closed_show_route: "route_ok r \<Longrightarrow> closed (show_route r)"
proof (induction r)
  case (Peer u)
  then show ?case by (simp add: plain_url_def closed_plain)
next
  case (Group k rs)
  then have "\<forall>p\<in>set (map show_route rs). closed p" by auto
  then show ?case using closed_group [of "map show_route rs" k] by simp
qed

lemma strip_front_id:
  assumes "\<And>w. w \<in> set ws \<Longrightarrow> w = [] \<or> hd w \<noteq> hd s"
  shows "strip_front ws s = s"
proof -
  have "\<not> (w \<noteq> [] \<and> s \<noteq> [] \<and> take (length w) s = w)" if "w \<in> set ws" for w
    using assms [OF that] by (metis hd_take length_greater_0_conv)
  then have "find (\<lambda>w. w \<noteq> [] \<and> s \<noteq> [] \<and> take (length w) s = w) ws = None"
    by (simp only: find_None_iff) blast
  then show ?thesis by (subst strip_front.simps) simp
qed

definition graphic :: "char \<Rightarrow> bool" where
  "graphic c \<longleftrightarrow> (33 :: nat) \<le> of_char c \<and> of_char c \<le> (126 :: nat)"

lemma white_space_ends: "w \<in> set white_space \<Longrightarrow> \<not> graphic (hd w) \<and> \<not> graphic (last w) \<and> w \<noteq> []"
proof -
  have "list_all (\<lambda>w. \<not> graphic (hd w) \<and> \<not> graphic (last w) \<and> w \<noteq> []) white_space"
    by code_simp
  then show "w \<in> set white_space \<Longrightarrow> \<not> graphic (hd w) \<and> \<not> graphic (last w) \<and> w \<noteq> []"
    by (auto simp: list_all_iff)
qed

lemma str_trim_id: "graphic (hd s) \<Longrightarrow> graphic (last s) \<Longrightarrow> str_trim s = s"
proof -
  assume h: "graphic (hd s)" and l: "graphic (last s)"
  have "strip_front white_space s = s"
    by (rule strip_front_id) (use h white_space_ends in fastforce)
  moreover have "strip_front (map rev white_space) (rev s) = rev s"
    by (rule strip_front_id) (use l white_space_ends in \<open>fastforce simp: hd_rev\<close>)
  ultimately show ?thesis by (simp add: str_trim_def)
qed

lemma ascii_append [simp]: "ascii (s @ t) \<longleftrightarrow> ascii s \<and> ascii t"
  by (simp add: ascii_def)

lemma ascii_Cons: "ascii (c # s) \<longleftrightarrow> byte_of_char c \<le> 0x7F \<and> ascii s"
  by (simp add: ascii_def)

text \<open>A text that is its own lower case.\<close>

definition lower_ascii :: "string \<Rightarrow> bool" where
  "lower_ascii s \<longleftrightarrow> ascii s \<and> to_lowercase s = s"

lemma lower_ascii_append [simp]: "lower_ascii (s @ t) \<longleftrightarrow> lower_ascii s \<and> lower_ascii t"
  by (auto simp: lower_ascii_def to_lowercase_def)

lemma lower_ascii_Cons:
  "lower_ascii (c # s) \<longleftrightarrow> byte_of_char c \<le> 0x7F \<and> lower_char c = c \<and> lower_ascii s"
  by (auto simp: lower_ascii_def to_lowercase_def ascii_Cons)

lemma lower_ascii_Nil [simp]: "lower_ascii []"
  by (simp add: lower_ascii_def ascii_def to_lowercase_def)

lemma lower_ascii_join: "lower_ascii (join_with (CHR '';'') ps) \<longleftrightarrow> (\<forall>p\<in>set ps. lower_ascii p)"
  by (induction "CHR '';''" ps rule: join_with.induct)
     (simp_all add: lower_ascii_Cons lower_char_def byte_of_char_def)

lemma lower_ascii_group:
  "lower_ascii (group_name k)" "lower_ascii ''(''" "lower_ascii '')''"
  by (cases k; simp add: lower_ascii_Cons lower_char_def byte_of_char_def)
     (simp_all add: lower_ascii_Cons lower_char_def byte_of_char_def)

lemma lower_ascii_show_route: "route_ok r \<Longrightarrow> lower_ascii (show_route r)"
proof (induction r)
  case (Peer u)
  then show ?case by (simp add: plain_url_def lower_ascii_def)
next
  case (Group k rs)
  then show ?case
    by (simp only: show_route.simps lower_ascii_append lower_ascii_group lower_ascii_join) simp
qed

lemma str_trim_show_route: "route_ok r \<Longrightarrow> str_trim (show_route r) = show_route r"
proof (cases r)
  case (Group k rs)
  then show ?thesis by (cases k) (simp_all add: str_trim_id graphic_def)
qed (simp add: plain_url_def)

lemma show_route_not_Nil: "route_ok r \<Longrightarrow> show_route r \<noteq> []"
  by (cases r) (simp_all add: plain_url_def)

lemma lower_ascii_simps:
  "lower_ascii s \<Longrightarrow> str_to_lowercase s = s" "lower_ascii s \<Longrightarrow> ascii s"
  by (simp_all add: lower_ascii_def str_to_lowercase_ascii)

lemma scan_loop_start:
  "top_split 0 [] s = (segs, lst, l) \<Longrightarrow>
   scan_loop s 0 0 0 [] =
     (map str_trim segs @ (if l = 0 \<and> lst \<noteq> [] \<and> segs \<noteq> [] then [str_trim lst] else []), l)"
  using scan_loop_top_split [of 0 0 s 0 segs lst l "[]"] by (cases "s = []") auto

text \<open>The parser on the three shapes of text: one peer, one group, several routes.\<close>

lemma scan_closed: "closed s \<Longrightarrow> scan_loop s 0 0 0 [] = ([], 0)"
  using scan_loop_start [of s "[]" s 0] closedD [of s 0 "[]" "[]"] by simp

lemma starts_with_mem: "starts_with s p \<Longrightarrow> set p \<subseteq> set s"
  by (induction s p rule: starts_with.induct) auto

lemma strategy_from_str_peer:
  assumes "plain_url u"
  shows "strategy_from_str u = Ok (Some (SValue [u]))"
proof -
  have "\<not> starts_with u p" if "CHR ''('' \<in> set p" for p
    using that starts_with_mem [of u p] assms by (auto simp: plain_url_def)
  then show ?thesis
    using assms scan_closed [OF closed_plain, of u]
    by (simp add: strategy_from_str_def plain_url_def str_to_lowercase_ascii starts_with_one_of_def
        rr_prefixes_def fo_prefixes_def rand_prefixes_def)
qed

fun strategy_of :: "balancing \<Rightarrow> string \<Rightarrow> load_balancer_strategy" where
  "strategy_of RoundRobin = SRoundRobin"
| "strategy_of FailOver = SFailOver"
| "strategy_of Random = SRandom"

lemma strategy_from_str_group:
  assumes "route_ok (Group k rs)"
  shows "strategy_from_str (show_route (Group k rs))
    = Ok (Some (strategy_of k (join_with (CHR '';'') (map show_route rs))))"
  using lower_ascii_simps [OF lower_ascii_show_route [OF assms]] scan_closed [OF closed_show_route [OF assms]]
  by (cases k)
     (simp_all add: strategy_from_str_def starts_with_one_of_def rr_prefixes_def fo_prefixes_def
       rand_prefixes_def ends_with_char_def group_body_def strip_suffix_char_def butlast_append)

lemma map_str_trim_show_route: "\<forall>r\<in>set rs. route_ok r \<Longrightarrow> map (str_trim \<circ> show_route) rs = map show_route rs"
  by (simp add: str_trim_show_route)

lemma strategy_from_str_list:
  assumes "\<forall>r\<in>set rs. route_ok r" "2 \<le> length rs"
  shows "strategy_from_str (join_with (CHR '';'') (map show_route rs)) = Ok (Some (SValue (map show_route rs)))"
proof -
  let ?ps = "map show_route rs" and ?s = "join_with (CHR '';'') (map show_route rs)"
  have rs: "rs \<noteq> []" "butlast rs \<noteq> []" using assms(2) by (auto simp: butlast_conv_take Suc_le_eq)
  have "lower_ascii ?s" using assms(1) lower_ascii_show_route by (auto simp: lower_ascii_join)
  moreover have "top_split 0 [] ?s = (butlast ?ps, last ?ps, 0)"
    using assms(1) rs closed_show_route by (intro join_outside) auto
  then have "scan_loop ?s 0 0 0 [] = (map str_trim (butlast ?ps @ [last ?ps]), 0)"
    using scan_loop_start rs assms(1) show_route_not_Nil by (simp add: last_map map_butlast [symmetric])
  then have "scan_loop ?s 0 0 0 [] = (?ps, 0)"
    using rs map_str_trim_show_route [OF assms(1)] by (simp add: o_def)
  ultimately show ?thesis using rs by (simp add: strategy_from_str_def lower_ascii_simps)
qed

text \<open>
  What an expression denotes, on its tree. The two file names change places each time a list of
  several routes is entered.
\<close>

fun denote :: "stack_config \<Rightarrow> (nat \<Rightarrow> nat \<Rightarrow> string) \<Rightarrow> dial_args \<Rightarrow> route \<Rightarrow> dial_store
      \<Rightarrow> conn list \<times> dial_store"
  and denote_each :: "stack_config \<Rightarrow> (nat \<Rightarrow> nat \<Rightarrow> string) \<Rightarrow> dial_args \<Rightarrow> route list \<Rightarrow> dial_store
      \<Rightarrow> conn list \<times> dial_store" where
  "denote cfg uuid a (Peer u) st = dial_url cfg a u st"
| "denote cfg uuid a (Group k rs) st =
     group_conns uuid k a (denote_each cfg uuid (if length rs = 1 then a else exchange_files a) rs st)"
| "denote_each cfg uuid a [] st = ([], st)"
| "denote_each cfg uuid a (r # rs) st =
     (let (cs, st') = denote cfg uuid a r st; (ds, st'') = denote_each cfg uuid a rs st' in (cs @ ds, st''))"

declare create_connections.simps [simp del]

lemma create_group:
  "strategy_from_str url = Ok (Some (strategy_of k t)) \<Longrightarrow>
   create_connections cfg uuid a url st = map_ok (group_conns uuid k a) (create_connections cfg uuid a t st)"
  by (cases k) (simp_all add: create_connections.simps)

text \<open>The text after a group name is either one route, or several.\<close>

lemma create_list:
  assumes "\<forall>r\<in>set rs. route_ok r" "rs \<noteq> []"
    and each: "\<And>a st. create_each cfg uuid a (map show_route rs) st = Ok (denote_each cfg uuid a rs st)"
  shows "create_connections cfg uuid a (join_with (CHR '';'') (map show_route rs)) st
    = Ok (denote_each cfg uuid (if length rs = 1 then a else exchange_files a) rs st)"
proof (cases "length rs = 1")
  case True
  then obtain r where r: "rs = [r]" by (cases rs) auto
  have "map_ok (\<lambda>(cs, st'). (cs @ [], st')) (create_connections cfg uuid a (show_route r) st)
      = Ok (denote_each cfg uuid a [r] st)"
    using each [of a st] r by (cases "create_connections cfg uuid a (show_route r) st") (auto simp: Let_def)
  then show ?thesis using r by (auto simp: Let_def split: prod.splits)
next
  case False
  then have "2 \<le> length rs" using assms(2) by (cases rs) (auto simp: Suc_le_eq)
  note l = strategy_from_str_list [OF assms(1) this]
  have "map show_route rs \<noteq> [u]" for u using False by (cases rs) auto
  then show ?thesis using False l each by (subst create_connections.simps) simp
qed

lemma create_connections_route:
  "route_ok r \<Longrightarrow> create_connections cfg uuid a (show_route r) st = Ok (denote cfg uuid a r st)"
proof (induction r arbitrary: a st)
  case (Peer u)
  then show ?case
    by (subst create_connections.simps) (simp add: strategy_from_str_peer)
next
  case (Group k rs)
  have "create_each cfg uuid a (map show_route rs') st = Ok (denote_each cfg uuid a rs' st)"
    if "set rs' \<subseteq> set rs" for a st rs'
    using that
  proof (induction rs' arbitrary: st)
    case (Cons r rs')
    then show ?case using Group.IH [of r] Group.prems by (auto simp: Let_def split: prod.splits)
  qed simp
  then show ?case
    using create_group [OF strategy_from_str_group [OF Group.prems]] create_list [of rs cfg uuid a st]
      Group.prems by simp
qed

text \<open>C8. For every well-formed route tree, \<open>create_connections\<close> on its text builds the
  connections the tree denotes: one client per peer URL, left to right, and one container per group
  of two or more connections, of the kind the group names. It returns, without a panic.\<close>

theorem route_expression_denotes:
  assumes "route_ok r"
  shows "create_connections cfg uuid a (show_route r) st = Ok (denote cfg uuid a r st)"
  using assms by (rule create_connections_route)

theorem route_expression_denotes_witness:
  "\<forall>cfg uuid a st. create_connections cfg uuid a ''rr(tcp://a:1;fo(tcp://b:2;tcp://c:3))'' st
    = Ok (denote cfg uuid a
        (Group RoundRobin [Peer ''tcp://a:1'', Group FailOver [Peer ''tcp://b:2'', Peer ''tcp://c:3'']]) st)"
proof -
  let ?r = "Group RoundRobin [Peer ''tcp://a:1'', Group FailOver [Peer ''tcp://b:2'', Peer ''tcp://c:3'']]"
  have "route_ok ?r"
    by (simp add: plain_url_def str_trim_id graphic_def ascii_Cons to_lowercase_def lower_char_def
        byte_of_char_def) (simp add: ascii_def)
  then show ?thesis using route_expression_denotes [of ?r] by simp
qed

section \<open>Listen addresses\<close>

definition show_params :: "(string \<times> string) list \<Rightarrow> string" where
  "show_params ps = join_with (CHR ''&'') (map (\<lambda>(k, v). k @ ''='' @ v) ps)"

definition show_listen :: "string \<Rightarrow> string list \<Rightarrow> u16 \<Rightarrow> (string \<times> string) list \<Rightarrow> string" where
  "show_listen protocol hosts port ps =
     protocol @ ''://'' @ join_with (CHR '','') hosts @ '':'' @ show_nat (unat port)
     @ (if ps = [] then [] else ''?'' @ show_params ps)"

definition avoids :: "string \<Rightarrow> string \<Rightarrow> bool" where
  "avoids cs s \<longleftrightarrow> list_all (\<lambda>c. c \<notin> set cs) s"

lemma avoids_iff: "avoids cs s \<longleftrightarrow> set cs \<inter> set s = {}"
  by (auto simp: avoids_def list_all_iff)

lemma set_join_with: "set (join_with c ss) \<subseteq> insert c (\<Union> (set ` set ss))"
  by (induction c ss rule: join_with.induct) auto

lemma split_on_join: "ss \<noteq> [] \<Longrightarrow> \<forall>s\<in>set ss. c \<notin> set s \<Longrightarrow> split_on c (join_with c ss) = ss"
  by (induction c ss rule: join_with.induct) (simp_all add: split_on_no_sep split_on_append)

lemma params_from_str_show:
  assumes "ps \<noteq> []" "\<forall>(k, v)\<in>set ps. avoids ''&='' k \<and> avoids ''&='' v"
  shows "params_from_str (show_params ps) = map_of (rev ps)"
proof -
  have "split_on (CHR ''&'') (show_params ps) = map (\<lambda>(k, v). k @ ''='' @ v) ps"
    unfolding show_params_def using assms by (intro split_on_join) (auto simp: avoids_iff)
  moreover have "foldl (\<lambda>m param. case split_on (CHR ''='') param of [k, v] \<Rightarrow> m(k \<mapsto> v) | _ \<Rightarrow> m) m
      (map (\<lambda>(k, v). k @ ''='' @ v) ps) = m ++ map_of (rev ps)" for m
    using assms(2)
    by (induction ps arbitrary: m)
       (auto simp: avoids_iff split_on_append split_on_no_sep map_add_assoc map_add_upd_left split: prod.splits)
  ultimately show ?thesis by (simp add: params_from_str_def)
qed

lemma split_str_no_slash: "CHR ''/'' \<notin> set s \<Longrightarrow> split_str ''://'' s = [s]"
proof (induction s)
  case (Cons c s)
  then show ?case using starts_with_mem [of "c # s" "''://''"] by auto
qed simp

lemma split_str_append:
  "CHR '':'' \<notin> set p \<Longrightarrow> split_str ''://'' (p @ ''://'' @ s) = p # split_str ''://'' s"
  by (induction p) auto

lemma after_first_append: "c \<notin> set s \<Longrightarrow> after_first c (s @ c # t) = Some t"
  by (induction s) auto

lemma rsplitn2_append: "c \<notin> set t \<Longrightarrow> rsplitn2 c (s @ c # t) = [t, s]"
  by (simp add: rsplitn2_def after_first_append)

definition host_text_ok :: "string \<Rightarrow> bool" where
  "host_text_ok h \<longleftrightarrow> avoids '',?/'' h \<and> str_trim h = h"

lemma parse_u16_show [simp]: "parse_u16 (show_nat (unat (p :: u16))) = Some p"
proof -
  have "unat p < 65536" using unsigned_less [of p] by simp
  then show ?thesis by (simp add: parse_u16_def)
qed

lemma listen_main_part:
  assumes "avoids ''?:'' protocol" "hosts \<noteq> []" "\<forall>h\<in>set hosts. host_text_ok h"
  shows "CHR ''?'' \<notin> set (protocol @ ''://'' @ join_with (CHR '','') hosts @ '':'' @ show_nat n)"
    and "split_str ''://'' (protocol @ ''://'' @ join_with (CHR '','') hosts @ '':'' @ show_nat n)
      = [protocol, join_with (CHR '','') hosts @ '':'' @ show_nat n]"
proof -
  let ?hs = "join_with (CHR '','') hosts"
  have hs: "CHR ''?'' \<notin> set ?hs" "CHR ''/'' \<notin> set ?hs"
    using set_join_with [of "CHR '',''" hosts] assms(3) by (auto simp: host_text_ok_def avoids_iff)
  have n: "CHR ''?'' \<notin> set (show_nat n)" "CHR ''/'' \<notin> set (show_nat n)"
    by (rule not_digit_show_nat, simp add: char_digit_def)+
  show "CHR ''?'' \<notin> set (protocol @ ''://'' @ ?hs @ '':'' @ show_nat n)"
    using assms(1) hs n by (auto simp: avoids_iff)
  have "CHR ''/'' \<notin> set (?hs @ '':'' @ show_nat n)" using hs n by auto
  moreover have "CHR '':'' \<notin> set protocol" using assms(1) by (auto simp: avoids_iff)
  ultimately show "split_str ''://'' (protocol @ ''://'' @ ?hs @ '':'' @ show_nat n)
      = [protocol, ?hs @ '':'' @ show_nat n]"
    using split_str_append split_str_no_slash by metis
qed

text \<open>A listen address or connection URL written as
  \<open>protocol://host1,host2:port?key=value&...\<close> is parsed to exactly these parts: the
  protocol, the hosts in order, the port, and the parameters, of which a repeated key has its last
  value.\<close>

theorem listen_address_roundtrip:
  assumes "avoids ''?:'' protocol" "hosts \<noteq> []" "\<forall>h\<in>set hosts. host_text_ok h"
    and "\<forall>(k, v)\<in>set ps. avoids ''&=?'' k \<and> avoids ''&=?'' v"
  shows "listen_from_str (show_listen protocol hosts port ps) =
    Inr \<lparr>la_protocol = protocol, la_hosts = hosts, la_port = port,
         la_parameters = (if ps = [] then None else Some (map_of (rev ps)))\<rparr>"
proof -
  let ?hs = "join_with (CHR '','') hosts" and ?n = "show_nat (unat port)"
  let ?m = "protocol @ ''://'' @ ?hs @ '':'' @ ?n"
  note main = listen_main_part [OF assms(1-3), of "unat port"]
  have q: "CHR ''?'' \<notin> set (show_params ps)"
    using set_join_with [of "CHR ''&''" "map (\<lambda>(k, v). k @ ''='' @ v) ps"] assms(4)
    by (fastforce simp: show_params_def avoids_iff)
  have parts: "split_on (CHR ''?'') (show_listen protocol hosts port ps)
      = (if ps = [] then [?m] else [?m, show_params ps])"
    using split_on_append [OF main(1), of "show_params ps"] split_on_no_sep [OF q] split_on_no_sep [OF main(1)]
    by (simp add: show_listen_def)
  have "CHR '':'' \<notin> set ?n" by (rule not_digit_show_nat) (simp add: char_digit_def)
  then have port: "rsplitn2 (CHR '':'') (?hs @ '':'' @ ?n) = [?n, ?hs]"
    using rsplitn2_append by simp
  have hosts: "map str_trim (split_on (CHR '','') ?hs) = hosts"
    using split_on_join [of hosts "CHR '',''"] assms(2,3)
    by (auto simp: host_text_ok_def avoids_iff intro: map_idI)
  have "ps \<noteq> [] \<Longrightarrow> params_from_str (show_params ps) = map_of (rev ps)"
    using assms(4) by (intro params_from_str_show) (auto simp: avoids_iff)
  then show ?thesis
    using main(2) port hosts by (simp add: listen_from_str_def parts Let_def)
qed

theorem listen_address_roundtrip_witness:
  "listen_from_str (show_listen ''sctp'' [''10.0.0.1'', ''[::1]''] 3868 [(''ppid'', ''46'')]) =
    Inr \<lparr>la_protocol = ''sctp'', la_hosts = [''10.0.0.1'', ''[::1]''], la_port = 3868,
         la_parameters = Some (map_of (rev [(''ppid'', ''46'')]))\<rparr>"
  using listen_address_roundtrip [of "''sctp''" "[''10.0.0.1'', ''[::1]'']" "[(''ppid'', ''46'')]" 3868]
  by (simp add: avoids_def host_text_ok_def str_trim_id graphic_def)

section \<open>The files of a single peer\<close>

text \<open>
  A peer entry with one lower-case URL is dialled with its certificate as the key file and its key
  as the certificate file: the exchange in \<open>connect_to_peers\<close> is undone only when a list of
  values is entered.
\<close>

theorem single_peer_files_exchanged:
  assumes "plain_url (pc_connection_url peer)" "listen_from_str (pc_connection_url peer) = Inr addr"
    and "str_to_lowercase (la_protocol addr) = ''tcp''"
    and "pc_cert_file peer = Some crt" "pc_key_file peer = Some key"
  shows "\<exists>c st'. connect_peers cfg uuid [peer] st = Ok ([Leaf (ds_fresh st)], st')
      \<and> ds_clients st' (ds_fresh st) = Some c \<and> cl_transport c = Tcp
      \<and> cl_key_file c = crt \<and> cl_cert_file c = key"
proof -
  have "create_connections cfg uuid (peer_args peer) (pc_connection_url peer) st
      = Ok (dial_url cfg (peer_args peer) (pc_connection_url peer) st)"
    using create_connections_route [of "Peer (pc_connection_url peer)"] assms(1) by simp
  then show ?thesis
    using assms by (simp add: dial_url_def client_for_def new_client_def client_base_def peer_args_def
        split: prod.splits)
qed

end
