(* ===== verification/Routing.thy ===== *)
theory Routing
  imports Strategy
begin

text \<open>
  Routing of outgoing commands (\<open>transport/routing_connection.rs\<close>). A routing connection is
  the container tree of a route expression whose peers are empty round-robin containers, together
  with a map from each peer's key (\<open>host@realm\<close> or \<open>realm\<close>) to its container. The
  containers are shared between tree and map, so the map holds the identity of a container and an
  update reaches it inside the tree. The routing manager has one routing connection per configured
  item, shared by all the keys of the item, and an optional default.

  A connection comes with the host and realm its \<open>get_peer_host\<close> and
  \<open>get_peer_realm\<close> answer. Identities of containers are numbers drawn in the order of
  allocation.
\<close>

section \<open>RoutingConnection\<close>

type_synonym key_map = "string \<rightharpoonup> nat"

record routing_connection =
  rc_connection :: conn
  rc_keys :: key_map

function create_connection_from ::
    "string \<Rightarrow> key_map \<Rightarrow> nat \<Rightarrow> (unit, conn list option \<times> key_map \<times> nat) outcome"
  and create_from_each ::
    "string list \<Rightarrow> key_map \<Rightarrow> nat \<Rightarrow> (unit, conn list \<times> key_map \<times> nat) outcome" where
  "create_connection_from config m n =
     (case strategy_from_str config of
        Panic \<Rightarrow> Panic
      | Err e \<Rightarrow> Err e
      | Ok None \<Rightarrow> Ok (None, m, n)
      | Ok (Some (SRoundRobin s)) \<Rightarrow>
          map_ok (\<lambda>(r, m', n'). case r of
              Some cs \<Rightarrow> (Some [Node n' RoundRobin cs], m', n' + 1) | None \<Rightarrow> (None, m', n'))
            (create_connection_from s m n)
      | Ok (Some (SRandom s)) \<Rightarrow>
          map_ok (\<lambda>(r, m', n'). case r of
              Some cs \<Rightarrow> (Some [Node n' Random cs], m', n' + 1) | None \<Rightarrow> (None, m', n'))
            (create_connection_from s m n)
      | Ok (Some (SFailOver s)) \<Rightarrow>
          map_ok (\<lambda>(r, m', n'). case r of
              Some cs \<Rightarrow> (Some [Node n' FailOver cs], m', n' + 1) | None \<Rightarrow> (None, m', n'))
            (create_connection_from s m n)
      | Ok (Some (SValue v)) \<Rightarrow>
          if length v = 1 then Ok (Some [Node n RoundRobin []], m(v ! 0 \<mapsto> n), n + 1)
          else map_ok (\<lambda>(cs, m', n'). (Some cs, m', n')) (create_from_each v m n))"
| "create_from_each [] m n = Ok ([], m, n)"
| "create_from_each (s # ss) m n =
     bind_ok (create_connection_from s m n) (\<lambda>(r, m', n').
       map_ok (\<lambda>(ds, m'', n''). ((case r of Some cs \<Rightarrow> cs | None \<Rightarrow> []) @ ds, m'', n''))
         (create_from_each ss m' n'))"
  by pat_completeness auto

termination create_connection_from
proof (relation "measures [\<lambda>x. case x of Inl (url, _) \<Rightarrow> url_measure url
                                        | Inr (vs, _) \<Rightarrow> urls_measure vs,
                           \<lambda>x. case x of Inl _ \<Rightarrow> 0 | Inr (vs, _) \<Rightarrow> Suc (length vs)]",
       goal_cases)
  case (5 config m n so s v)
  then show ?case using urls_measure_value [of config v] by (cases "v = [config]") auto
qed (auto dest: url_measure_group simp: le_less urls_measure_Cons
       intro: le_neq_implies_less [OF urls_measure_Cons(1)] le_neq_implies_less [OF urls_measure_Cons(2)])

declare create_connection_from.simps [simp del]

definition new_routing_connection :: "string \<Rightarrow> nat \<Rightarrow> (unit, routing_connection \<times> nat) outcome" where
  "new_routing_connection config n =
     map_ok (\<lambda>(r, m, n').
       let empty = Node n RoundRobin [] in
       case r of
         Some [c] \<Rightarrow> (\<lparr>rc_connection = c, rc_keys = m\<rparr>, n')
       | Some [] \<Rightarrow> (\<lparr>rc_connection = empty, rc_keys = m\<rparr>, n')
       | Some cs \<Rightarrow> (\<lparr>rc_connection = Node n' RoundRobin cs, rc_keys = m\<rparr>, n' + 1)
       | None \<Rightarrow> (\<lparr>rc_connection = empty, rc_keys = m\<rparr>, n'))
     (create_connection_from config Map.empty (n + 1))"

text \<open>An update of the container with a given identity, wherever it is in the tree.\<close>

fun update_at :: "(conn list \<Rightarrow> conn list) \<Rightarrow> nat \<Rightarrow> conn \<Rightarrow> conn" where
  "update_at f i (Leaf h) = Leaf h"
| "update_at f i (Node j k cs) =
     (let cs' = map (update_at f i) cs in Node j k (if j = i then f cs' else cs'))"

definition peer_key :: "string \<Rightarrow> string \<Rightarrow> string" where
  "peer_key host realm = host @ ''@'' @ realm"

definition update_key ::
  "(conn list \<Rightarrow> conn list) \<Rightarrow> string \<Rightarrow> routing_connection \<Rightarrow> routing_connection" where
  "update_key f k rc =
     (case rc_keys rc k of
        Some i \<Rightarrow> rc\<lparr>rc_connection := update_at f i (rc_connection rc)\<rparr>
      | None \<Rightarrow> rc)"

definition rc_add_connection ::
  "routing_connection \<Rightarrow> string \<Rightarrow> string \<Rightarrow> conn \<Rightarrow> routing_connection" where
  "rc_add_connection rc host realm c =
     foldl (\<lambda>r k. update_key (\<lambda>cs. list_add_connection cs c) k r) rc [peer_key host realm, realm]"

definition rc_remove_connection ::
  "routing_connection \<Rightarrow> string \<Rightarrow> string \<Rightarrow> conn \<Rightarrow> routing_connection" where
  "rc_remove_connection rc host realm c =
     foldl (\<lambda>r k. update_key (\<lambda>cs. list_remove_connection cs c) k r) rc [peer_key host realm, realm]"

section \<open>RoutingConnectionManager\<close>

text \<open>
  An item as the map of the manager holds it: a clone shares its routing connection, which is
  therefore an index into the manager's table.
\<close>

record routing_item =
  ri_application_ids :: "u32 list option"
  ri_host_realms :: "string list option"
  ri_routing_connection :: nat

record routing_manager =
  rm_policy :: routing_policy
  rm_routing_connections :: "string \<rightharpoonup> routing_item"
  rm_table :: "routing_connection list"
  rm_default :: "routing_connection option"

definition contains_app_id :: "routing_item \<Rightarrow> u32 \<Rightarrow> bool" where
  "contains_app_id item app_id =
     (case ri_application_ids item of None \<Rightarrow> True | Some ids \<Rightarrow> app_id \<in> set ids)"

definition insert_item :: "routing_manager \<Rightarrow> routing_item_config \<Rightarrow> routing_connection \<Rightarrow> routing_manager" where
  "insert_item m cfg rc =
     (let item = \<lparr>ri_application_ids = ric_application_ids cfg, ri_host_realms = ric_host_realms cfg,
                  ri_routing_connection = length (rm_table m)\<rparr> in
      m\<lparr>rm_table := rm_table m @ [rc],
        rm_routing_connections :=
          (case ri_host_realms item of
             None \<Rightarrow> rm_routing_connections m
           | Some hrs \<Rightarrow> foldl (\<lambda>t hr. t(hr \<mapsto> item)) (rm_routing_connections m) hrs)\<rparr>)"

fun add_items :: "routing_item_config list \<Rightarrow> routing_manager \<Rightarrow> nat \<Rightarrow> (unit, routing_manager \<times> nat) outcome" where
  "add_items [] m n = Ok (m, n)"
| "add_items (cfg # cfgs) m n =
     bind_ok (new_routing_connection (ric_route cfg) n) (\<lambda>(rc, n'). add_items cfgs (insert_item m cfg rc) n')"

definition new_routing_manager :: "stack_routing_config \<Rightarrow> nat \<Rightarrow> (unit, routing_manager \<times> nat) outcome" where
  "new_routing_manager cfg n =
     (let m = \<lparr>rm_policy = (case policy_from_str (src_policy cfg) of Some p \<Rightarrow> p | None \<Rightarrow> default_policy),
               rm_routing_connections = Map.empty, rm_table = [], rm_default = None\<rparr> in
      bind_ok (case src_default cfg of
                 Some route \<Rightarrow>
                   map_ok (\<lambda>(rc, n'). (m\<lparr>rm_default := Some rc\<rparr>, n')) (new_routing_connection route n)
               | None \<Rightarrow> Ok (m, n))
        (\<lambda>(m', n'). case src_items cfg of Some items \<Rightarrow> add_items items m' n' | None \<Rightarrow> Ok (m', n')))"

definition update_item ::
  "(routing_connection \<Rightarrow> routing_connection) \<Rightarrow> routing_manager \<Rightarrow> string \<Rightarrow> routing_manager" where
  "update_item f m k =
     (case rm_routing_connections m k of
        Some item \<Rightarrow> m\<lparr>rm_table := (rm_table m)[ri_routing_connection item := f (rm_table m ! ri_routing_connection item)]\<rparr>
      | None \<Rightarrow> m)"

definition rm_add_connection :: "routing_manager \<Rightarrow> string \<Rightarrow> string \<Rightarrow> conn \<Rightarrow> routing_manager" where
  "rm_add_connection m host realm c =
     (let m' = foldl (update_item (\<lambda>rc. rc_add_connection rc host realm c)) m [realm, peer_key host realm] in
      m'\<lparr>rm_default := map_option (\<lambda>rc. rc_add_connection rc host realm c) (rm_default m')\<rparr>)"

definition rm_remove_connection :: "routing_manager \<Rightarrow> string \<Rightarrow> string \<Rightarrow> conn \<Rightarrow> routing_manager" where
  "rm_remove_connection m host realm c =
     (let m' = foldl (update_item (\<lambda>rc. rc_remove_connection rc host realm c)) m [realm, peer_key host realm] in
      m'\<lparr>rm_default := map_option (\<lambda>rc. rc_remove_connection rc host realm c) (rm_default m')\<rparr>)"

definition str_or_default :: "string option \<Rightarrow> string" where
  "str_or_default so = (case so of Some s \<Rightarrow> s | None \<Rightarrow> [])"

definition command_key :: "routing_policy \<Rightarrow> command \<Rightarrow> string" where
  "command_key p cmd =
     (case p of
        Realm \<Rightarrow> str_or_default (get_destination_realm cmd)
      | Host \<Rightarrow> peer_key (str_or_default (get_destination_host cmd)) (str_or_default (get_destination_realm cmd)))"

definition get_connections_for_command ::
  "(nat \<Rightarrow> nat \<Rightarrow> nat) \<Rightarrow> lb_state \<Rightarrow> routing_manager \<Rightarrow> command \<Rightarrow> conn list \<times> lb_state" where
  "get_connections_for_command rnd st m cmd =
     (let through_default =
            (case rm_default m of
               Some rc \<Rightarrow> get_connections rnd st (rc_connection rc)
             | None \<Rightarrow> ([], st)) in
      case rm_routing_connections m (command_key (rm_policy m) cmd) of
        Some item \<Rightarrow>
          if contains_app_id item (c_application_id cmd) then
            get_connections rnd st (rc_connection (rm_table m ! ri_routing_connection item))
          else through_default
      | None \<Rightarrow> through_default)"

definition find_send_command ::
  "(nat \<Rightarrow> bool) \<Rightarrow> (nat \<Rightarrow> nat \<Rightarrow> nat) \<Rightarrow> lb_state \<Rightarrow> routing_manager \<Rightarrow> command
   \<Rightarrow> (string, nat) outcome \<times> lb_state" where
  "find_send_command up rnd st m cmd =
     (let through_default =
            (case rm_default m of
               Some rc \<Rightarrow> conn_send up rnd st (rc_connection rc)
             | None \<Rightarrow> (Err ''No routing connection found'', st)) in
      case rm_routing_connections m (command_key (rm_policy m) cmd) of
        Some item \<Rightarrow>
          if contains_app_id item (c_application_id cmd) then
            conn_send up rnd st (rc_connection (rm_table m ! ri_routing_connection item))
          else through_default
      | None \<Rightarrow> through_default)"

section \<open>The tree of a route expression\<close>

fun build :: "route \<Rightarrow> key_map \<Rightarrow> nat \<Rightarrow> conn \<times> key_map \<times> nat"
  and build_each :: "route list \<Rightarrow> key_map \<Rightarrow> nat \<Rightarrow> conn list \<times> key_map \<times> nat" where
  "build (Peer u) m n = (Node n RoundRobin [], m(u \<mapsto> n), n + 1)"
| "build (Group k rs) m n = (let (cs, m', n') = build_each rs m n in (Node n' k cs, m', n' + 1))"
| "build_each [] m n = ([], m, n)"
| "build_each (r # rs) m n =
     (let (c, m', n') = build r m n; (cs, m'', n'') = build_each rs m' n' in (c # cs, m'', n''))"

fun route_peers :: "route \<Rightarrow> string set" where
  "route_peers (Peer u) = {u}"
| "route_peers (Group k rs) = (\<Union>r\<in>set rs. route_peers r)"

lemma create_from_group:
  "strategy_from_str config = Ok (Some (strategy_of k t)) \<Longrightarrow>
   create_connection_from t m n = Ok (Some cs, m', n') \<Longrightarrow>
   create_connection_from config m n = Ok (Some [Node n' k cs], m', n' + 1)"
  by (cases k) (simp_all add: create_connection_from.simps [of config])

definition with_some :: "'a \<times> 'b \<Rightarrow> 'a option \<times> 'b" where
  "with_some x = (Some (fst x), snd x)"

lemma create_from_list:
  assumes "\<forall>r\<in>set rs. route_ok r" "rs \<noteq> []"
    and one: "\<And>r m n. r \<in> set rs \<Longrightarrow>
      create_connection_from (show_route r) m n = (let (c, m', n') = build r m n in Ok (Some [c], m', n'))"
  shows "create_connection_from (join_with (CHR '';'') (map show_route rs)) m n
    = Ok (with_some (build_each rs m n))"
proof (cases "length rs = 1")
  case True
  then obtain r where "rs = [r]" by (cases rs) auto
  then show ?thesis using one [of r] by (auto simp: with_some_def split: prod.splits)
next
  case False
  then have "2 \<le> length rs" using assms(2) by (cases rs) (auto simp: Suc_le_eq)
  note l = strategy_from_str_list [OF assms(1) this]
  have "create_from_each (map show_route rs') m n = Ok (build_each rs' m n)" if "set rs' \<subseteq> set rs" for rs' m n
    using that
    by (induction rs' arbitrary: m n) (auto simp: one split: prod.splits)
  then show ?thesis
    using False l by (subst create_connection_from.simps) (auto simp: with_some_def split: prod.splits)
qed

lemma create_connection_from_route:
  "route_ok r \<Longrightarrow>
   create_connection_from (show_route r) m n = (let (c, m', n') = build r m n in Ok (Some [c], m', n'))"
proof (induction r arbitrary: m n)
  case (Peer u)
  then show ?case by (simp add: create_connection_from.simps strategy_from_str_peer)
next
  case (Group k rs)
  obtain cs m' n' where b: "build_each rs m n = (cs, m', n')" using prod_cases3 by blast
  have "create_connection_from (join_with (CHR '';'') (map show_route rs)) m n = Ok (Some cs, m', n')"
    using create_from_list [OF _ _ Group.IH, of rs m n] Group.prems b by (simp add: with_some_def)
  then show ?case
    using create_from_group [OF strategy_from_str_group [OF Group.prems]] b by simp
qed

lemma create_connection_from_routes:
  "\<forall>r\<in>set rs. route_ok r \<Longrightarrow> rs \<noteq> [] \<Longrightarrow>
   create_connection_from (join_with (CHR '';'') (map show_route rs)) m n = Ok (with_some (build_each rs m n))"
  by (rule create_from_list) (simp_all add: create_connection_from_route)

section \<open>Identities\<close>

fun node_ids :: "conn \<Rightarrow> nat list" where
  "node_ids (Leaf h) = []"
| "node_ids (Node i k cs) = i # concat (map node_ids cs)"

text \<open>
  A build draws fresh identities, each once, leaves the containers empty, and registers exactly the
  peers of the route.
\<close>

lemma build_facts:
  "build r m n = (c, m', n') \<Longrightarrow>
   n < n' \<and> distinct (node_ids c) \<and> set (node_ids c) \<subseteq> {n..<n'} \<and> conn_leaves c = {#}
   \<and> dom m' = dom m \<union> route_peers r
   \<and> (\<forall>k\<in>route_peers r. the (m' k) \<in> set (node_ids c)) \<and> (\<forall>k. k \<notin> route_peers r \<longrightarrow> m' k = m k)"
  "build_each rs m n = (cs, m', n') \<Longrightarrow>
   n \<le> n' \<and> distinct (concat (map node_ids cs)) \<and> set (concat (map node_ids cs)) \<subseteq> {n..<n'}
   \<and> conns_leaves cs = {#} \<and> length cs = length rs
   \<and> dom m' = dom m \<union> \<Union> (route_peers ` set rs)
   \<and> (\<forall>k\<in>\<Union> (route_peers ` set rs). the (m' k) \<in> set (concat (map node_ids cs)))
   \<and> (\<forall>k. k \<notin> \<Union> (route_peers ` set rs) \<longrightarrow> m' k = m k)"
proof (induction r m n and rs m n arbitrary: c m' n' and cs m' n' rule: build_build_each.induct)
  case (2 k rs m n)
  obtain cs m1 n1 where b: "build_each rs m n = (cs, m1, n1)" using prod_cases3 by blast
  then have e: "c = Node n1 k cs" "m' = m1" "n' = n1 + 1" using 2(2) by auto
  note f = 2(1) [OF b]
  have "n1 \<notin> set (concat (map node_ids cs))" using f by auto
  then show ?case unfolding e using f by (auto simp: conns_leaves_def)
next
  case (4 r rs m n)
  obtain c1 m1 n1 where b1: "build r m n = (c1, m1, n1)" using prod_cases3 by blast
  obtain cs2 m2 n2 where b2: "build_each rs m1 n1 = (cs2, m2, n2)" using prod_cases3 by blast
  have e: "cs = c1 # cs2" "m' = m2" "n' = n2" using 4(3) b1 b2 by auto
  note f1 = 4(1) [OF b1] and f2 = 4(2) [OF b1 [symmetric] refl refl b2]
  have disj: "set (node_ids c1) \<inter> set (concat (map node_ids cs2)) = {}"
    using f1 f2 by (metis disjoint_iff atLeastLessThan_iff not_less subsetD)
  have "the (m2 k) \<in> set (node_ids c1) \<union> set (concat (map node_ids cs2))" if "k \<in> route_peers r" for k
    using f1 f2 that by (cases "k \<in> \<Union> (route_peers ` set rs)") auto
  moreover have "dom m2 = dom m \<union> (route_peers r \<union> \<Union> (route_peers ` set rs))" using f1 f2 by auto
  moreover have "set (node_ids c1) \<union> set (concat (map node_ids cs2)) \<subseteq> {n..<n2}"
    using f1 f2 by (meson Un_least atLeastLessThan_iff less_le_trans order.trans subsetD subsetI less_imp_le)
  ultimately show ?case unfolding e using f1 f2 disj by (simp add: ball_Un)
qed auto

lemma build_inj:
  "build r m n = (c, m', n') \<Longrightarrow> ran m \<subseteq> {..<n} \<Longrightarrow> inj_on m (dom m) \<Longrightarrow>
   ran m' \<subseteq> {..<n'} \<and> inj_on m' (dom m')"
  "build_each rs m n = (cs, m', n') \<Longrightarrow> ran m \<subseteq> {..<n} \<Longrightarrow> inj_on m (dom m) \<Longrightarrow>
   ran m' \<subseteq> {..<n'} \<and> inj_on m' (dom m')"
proof (induction r m n and rs m n arbitrary: c m' n' and cs m' n' rule: build_build_each.induct)
  case (1 u m n)
  have "m x \<noteq> Some n" for x using 1(2) by (auto simp: ran_def subset_iff)
  then have "inj_on (m(u \<mapsto> n)) (dom (m(u \<mapsto> n)))" using 1(3) by (auto simp: inj_on_def)
  moreover have "ran (m(u \<mapsto> n)) \<subseteq> {..<n + 1}" using 1(2) by (auto simp: ran_def subset_iff less_Suc_eq)
  ultimately show ?case using 1(1) by auto
next
  case (2 k rs m n)
  obtain cs m1 n1 where b: "build_each rs m n = (cs, m1, n1)" using prod_cases3 by blast
  then show ?case using 2(1) [OF b 2(3,4)] 2(2) by fastforce
next
  case (4 r rs m n)
  obtain c1 m1 n1 where b1: "build r m n = (c1, m1, n1)" using prod_cases3 by blast
  obtain cs2 m2 n2 where b2: "build_each rs m1 n1 = (cs2, m2, n2)" using prod_cases3 by blast
  show ?case
    using 4(1) [OF b1 4(4,5)] 4(2) [OF b1 [symmetric] refl refl b2] 4(3) b1 b2 by simp
qed auto

section \<open>Adding and removing a connection\<close>

text \<open>
  The invariant of a routing connection: every key has a container of its own, which occurs once in
  the tree.
\<close>

definition rc_ok :: "routing_connection \<Rightarrow> bool" where
  "rc_ok rc \<longleftrightarrow> inj_on (rc_keys rc) (dom (rc_keys rc))
     \<and> (\<forall>i\<in>ran (rc_keys rc). count_list (node_ids (rc_connection rc)) i = 1)"

definition apart :: "routing_connection \<Rightarrow> conn \<Rightarrow> bool" where
  "apart rc c \<longleftrightarrow> ran (rc_keys rc) \<inter> set (node_ids c) = {}"

definition registered :: "routing_connection \<Rightarrow> string \<Rightarrow> string \<Rightarrow> nat" where
  "registered rc host realm = length (filter (\<lambda>k. rc_keys rc k \<noteq> None) [peer_key host realm, realm])"

lemma count_list_concat: "count_list (concat xss) x = sum_list (map (\<lambda>xs. count_list xs x) xss)"
  by (induction xss) auto

lemma repeat_mset_sum: "sum_list (map (\<lambda>x. repeat_mset (g x) M) xs) = repeat_mset (sum_list (map g xs)) M"
  by (induction xs) (auto simp: repeat_mset_distrib)

abbreviation add_at :: "conn \<Rightarrow> nat \<Rightarrow> conn \<Rightarrow> conn" where
  "add_at c \<equiv> update_at (\<lambda>cs. list_add_connection cs c)"

abbreviation remove_at :: "conn \<Rightarrow> nat \<Rightarrow> conn \<Rightarrow> conn" where
  "remove_at c \<equiv> update_at (\<lambda>cs. list_remove_connection cs c)"

lemma update_at_id: "i \<notin> set (node_ids t) \<Longrightarrow> update_at f i t = t"
  by (induction t) (auto intro: map_idI)

lemma add_at_leaves:
  "conn_leaves (add_at c i t) = conn_leaves t + repeat_mset (count_list (node_ids t) i) (conn_leaves c)"
proof (induction t)
  case (Node j k cs)
  have "conn_leaves (add_at c i t) = conn_leaves t + repeat_mset (count_list (node_ids t) i) (conn_leaves c)"
    if "t \<in> set cs" for t using Node that by blast
  then have "sum_list (map (conn_leaves \<circ> add_at c i) cs)
      = sum_list (map (\<lambda>t. conn_leaves t + repeat_mset (count_list (node_ids t) i) (conn_leaves c)) cs)"
    by (intro arg_cong [where f = sum_list]) simp
  also have "\<dots> = sum_list (map conn_leaves cs)
      + repeat_mset (sum_list (map (\<lambda>t. count_list (node_ids t) i) cs)) (conn_leaves c)"
    by (simp add: sum_list_addf repeat_mset_sum)
  finally show ?case
    by (simp add: list_add_connection_def count_list_concat comp_def Let_def)
qed simp

lemma add_at_count:
  "j \<notin> set (node_ids c) \<Longrightarrow> count_list (node_ids (add_at c i t)) j = count_list (node_ids t) j"
proof (induction t)
  case (Node n k cs)
  have "sum_list (map (\<lambda>t. count_list (node_ids (add_at c i t)) j) cs)
      = sum_list (map (\<lambda>t. count_list (node_ids t) j) cs)"
    using Node by (intro arg_cong [where f = sum_list]) simp
  then show ?case
    using Node.prems
    by (auto simp: list_add_connection_def count_list_concat comp_def Let_def count_notin)
qed simp

text \<open>No container below has \<open>c\<close> as a child.\<close>

fun absent :: "conn \<Rightarrow> conn \<Rightarrow> bool" where
  "absent c (Leaf h) = True"
| "absent c (Node i k cs) = (\<forall>x\<in>set cs. \<not> ptr_eq x c \<and> absent c x)"

lemma ptr_eq_update_at [simp]: "ptr_eq (update_at f i x) c = ptr_eq x c"
  by (cases "(x, c)" rule: ptr_eq.cases) (simp_all add: Let_def)

lemma ptr_eq_refl [simp]: "ptr_eq c c"
  by (cases c) simp_all

lemma remove_add_at: "absent c t \<Longrightarrow> remove_at c i (add_at c i t) = t"
proof (induction t)
  case (Node j k cs)
  have m: "map (\<lambda>x. remove_at c i (add_at c i x)) cs = cs" using Node by (auto intro: map_idI)
  have "filter (\<lambda>x. \<not> ptr_eq x c) cs = cs" using Node.prems by (auto intro: filter_True)
  then show ?case
    using m by (simp add: list_add_connection_def list_remove_connection_def Let_def comp_def)
qed simp

lemma remove_add_at_commute:
  "i \<noteq> j \<Longrightarrow> i \<notin> set (node_ids c) \<Longrightarrow> remove_at c i (add_at c j t) = add_at c j (remove_at c i t)"
proof (induction t)
  case (Node n k cs)
  have "map (\<lambda>x. remove_at c i (add_at c j x)) cs = map (\<lambda>x. add_at c j (remove_at c i x)) cs"
    using Node by simp
  then show ?case
    using Node.prems
    by (simp add: list_add_connection_def list_remove_connection_def Let_def comp_def update_at_id
        filter_map)
qed simp

lemma update_key_add:
  fixes k :: string
  assumes "rc_ok rc" "apart rc c"
  defines "rc' \<equiv> update_key (\<lambda>cs. list_add_connection cs c) k rc"
  shows "rc_ok rc'" "rc_keys rc' = rc_keys rc"
    and "conn_leaves (rc_connection rc') =
      conn_leaves (rc_connection rc) + repeat_mset (if rc_keys rc k \<noteq> None then 1 else 0) (conn_leaves c)"
proof -
  show k: "rc_keys rc' = rc_keys rc" by (simp add: rc'_def update_key_def split: option.split)
  have "count_list (node_ids (rc_connection rc')) i = 1" if "i \<in> ran (rc_keys rc)" for i
  proof -
    have "i \<notin> set (node_ids c)" using that assms(2) by (auto simp: apart_def)
    then show ?thesis
      using that assms(1) add_at_count [of i c]
      by (simp add: rc'_def update_key_def rc_ok_def split: option.split)
  qed
  then show "rc_ok rc'" using assms(1) k by (auto simp: rc_ok_def)
  show "conn_leaves (rc_connection rc') =
      conn_leaves (rc_connection rc) + repeat_mset (if rc_keys rc k \<noteq> None then 1 else 0) (conn_leaves c)"
    using assms(1)
    by (auto simp: rc'_def update_key_def add_at_leaves rc_ok_def ran_def split: option.split)
qed

lemma rc_add_connection_facts:
  assumes "rc_ok rc" "apart rc c"
  shows "rc_ok (rc_add_connection rc host realm c)" "rc_keys (rc_add_connection rc host realm c) = rc_keys rc"
    and "conn_leaves (rc_connection (rc_add_connection rc host realm c)) =
      conn_leaves (rc_connection rc) + repeat_mset (registered rc host realm) (conn_leaves c)"
proof -
  note f1 = update_key_add [OF assms, of "peer_key host realm"]
  have "apart (update_key (\<lambda>cs. list_add_connection cs c) (peer_key host realm) rc) c"
    using assms(2) f1(2) by (simp add: apart_def)
  note f2 = update_key_add [OF f1(1) this, of realm]
  show "rc_ok (rc_add_connection rc host realm c)" "rc_keys (rc_add_connection rc host realm c) = rc_keys rc"
    using f1 f2 by (simp_all add: rc_add_connection_def)
  show "conn_leaves (rc_connection (rc_add_connection rc host realm c)) =
      conn_leaves (rc_connection rc) + repeat_mset (registered rc host realm) (conn_leaves c)"
    using f1 f2 by (simp add: rc_add_connection_def registered_def)
qed

lemma peer_key_neq_realm: "peer_key host realm \<noteq> realm"
  by (simp add: peer_key_def flip: append_assoc)

lemma rc_remove_add:
  assumes "rc_ok rc" "apart rc c" "absent c (rc_connection rc)"
  shows "rc_remove_connection (rc_add_connection rc host realm c) host realm c = rc"
proof -
  let ?t = "rc_connection rc"
  have "i \<noteq> j \<and> i \<notin> set (node_ids c)"
    if "rc_keys rc (peer_key host realm) = Some i" "rc_keys rc realm = Some j" for i j
    using that assms(1,2) peer_key_neq_realm [of host realm]
    by (auto simp: rc_ok_def apart_def inj_on_def dom_def ran_def)
  then show ?thesis
    using remove_add_at [OF assms(3)] remove_add_at_commute [of _ _ c ?t]
    by (auto simp: rc_remove_connection_def rc_add_connection_def update_key_def remove_add_at_commute
        split: option.split)
qed

section \<open>A new routing connection\<close>

lemma count_list_distinct: "distinct xs \<Longrightarrow> x \<in> set xs \<Longrightarrow> count_list xs x = 1"
  by (metis distinct_count_atmost_1 count_mset in_multiset_in_set)

lemma build_each_ok:
  assumes "build_each rs Map.empty n = (cs, m, n')"
  shows "inj_on m (dom m)" "\<forall>i\<in>ran m. count_list (concat (map node_ids cs)) i = 1 \<and> i < n'"
    "dom m = \<Union> (route_peers ` set rs)" "conns_leaves cs = {#}" "length cs = length rs"
    "set (concat (map node_ids cs)) \<subseteq> {n..<n'}"
proof -
  note f = build_facts(2) [OF assms]
  show "inj_on m (dom m)" using build_inj(2) [OF assms] by simp
  show d: "dom m = \<Union> (route_peers ` set rs)" using f by simp
  have "i \<in> set (concat (map node_ids cs))" if i: "i \<in> ran m" for i
  proof -
    obtain k where "m k = Some i" using i by (auto simp: ran_def)
    moreover from this have "k \<in> \<Union> (route_peers ` set rs)" using d by blast
    then have "the (m k) \<in> set (concat (map node_ids cs))" using f by blast
    ultimately show ?thesis by simp
  qed
  then show "\<forall>i\<in>ran m. count_list (concat (map node_ids cs)) i = 1 \<and> i < n'"
    using f by (meson atLeastLessThan_iff count_list_distinct subsetD)
  show "conns_leaves cs = {#}" "length cs = length rs" "set (concat (map node_ids cs)) \<subseteq> {n..<n'}"
    using f by simp_all
qed

lemma build_container: "build r m n = (c, m', n') \<Longrightarrow> is_container c"
  by (cases r) (auto split: prod.splits)

lemma new_routing_connection_ok:
  assumes "\<forall>r\<in>set rs. route_ok r" "rs \<noteq> []"
  obtains rc n' where
    "new_routing_connection (join_with (CHR '';'') (map show_route rs)) n = Ok (rc, n')"
    "rc_ok rc" "dom (rc_keys rc) = \<Union> (route_peers ` set rs)" "conn_leaves (rc_connection rc) = {#}"
    "is_container (rc_connection rc)"
proof -
  obtain cs m n1 where b: "build_each rs Map.empty (n + 1) = (cs, m, n1)" using prod_cases3 by blast
  note f = build_each_ok [OF b]
  have c: "create_connection_from (join_with (CHR '';'') (map show_route rs)) Map.empty (n + 1) = Ok (Some cs, m, n1)"
    using create_connection_from_routes [OF assms] b by (simp add: with_some_def)
  show ?thesis
  proof (cases "length rs = 1")
    case True
    then obtain c1 where c1: "cs = [c1]" using f(5) by (auto simp: length_Suc_conv)
    have "is_container c1" using b c1 build_container by (cases rs) (auto split: prod.splits)
    show ?thesis
      by (rule that [of "\<lparr>rc_connection = c1, rc_keys = m\<rparr>" n1])
         (use c c1 f(1-4) \<open>is_container c1\<close> in \<open>simp_all add: new_routing_connection_def rc_ok_def\<close>)
  next
    case False
    then obtain c1 c2 cs' where c1: "cs = c1 # c2 # cs'"
      using f(5) assms(2) by (cases cs; cases "tl cs") auto
    have "count_list (n1 # concat (map node_ids cs)) i = 1" if "i \<in> ran m" for i
      using that f(2) by auto
    then show ?thesis
      using c c1 f
      by (intro that [of "\<lparr>rc_connection = Node n1 RoundRobin cs, rc_keys = m\<rparr>" "n1 + 1"])
         (simp_all add: new_routing_connection_def rc_ok_def conns_leaves_def Let_def)
  qed
qed

section \<open>Selection\<close>

text \<open>The contract of the manager: which routing connection, if any, a command is sent through.\<close>

definition selected :: "routing_manager \<Rightarrow> command \<Rightarrow> routing_connection option" where
  "selected m cmd =
     (case rm_routing_connections m (command_key (rm_policy m) cmd) of
        Some item \<Rightarrow>
          if contains_app_id item (c_application_id cmd) then Some (rm_table m ! ri_routing_connection item)
          else rm_default m
      | None \<Rightarrow> rm_default m)"

lemma find_send_command_selected:
  "find_send_command up rnd st m cmd =
     (case selected m cmd of
        Some rc \<Rightarrow> conn_send up rnd st (rc_connection rc)
      | None \<Rightarrow> (Err ''No routing connection found'', st))"
  by (simp add: find_send_command_def selected_def Let_def split: option.split)

lemma get_connections_for_command_selected:
  "get_connections_for_command rnd st m cmd =
     (case selected m cmd of Some rc \<Rightarrow> get_connections rnd st (rc_connection rc) | None \<Rightarrow> ([], st))"
  by (simp add: get_connections_for_command_def selected_def Let_def split: option.split)

section \<open>Keys are lower case\<close>

lemma set_strip_front: "set (strip_front ws s) \<subseteq> set s"
proof (induction ws s rule: strip_front.induct)
  case (1 ws s)
  show ?case
  proof (cases "find (\<lambda>w. w \<noteq> [] \<and> s \<noteq> [] \<and> take (length w) s = w) ws")
    case (Some w)
    then have "set (strip_front ws s) \<subseteq> set (drop (length w) s)"
      using 1 [OF Some] by (subst strip_front.simps) simp
    then show ?thesis using set_drop_subset by (rule subset_trans)
  qed (subst strip_front.simps, simp)
qed

lemma set_str_trim: "set (str_trim s) \<subseteq> set s"
  unfolding str_trim_def using set_strip_front by (metis set_rev subset_trans)

lemma top_split_chars:
  "top_split l cur cs = (segs, lst, l') \<Longrightarrow> \<Union> (set ` set segs) \<union> set lst \<subseteq> set cur \<union> set cs"
proof (induction l cur cs arbitrary: segs lst l' rule: top_split.induct)
  case (2 level cur c cs)
  show ?case
  proof (cases "level_step level c = 0 \<and> c = CHR '';''")
    case True
    then obtain segs' where "top_split 0 [] cs = (segs', lst, l')" "segs = cur # segs'"
      using 2(3) by (auto simp: Let_def split: prod.splits)
    then show ?thesis using 2(1) [of _ segs' lst l'] True by auto
  next
    case False
    then have "\<Union> (set ` set segs) \<union> set lst \<subseteq> set (cur @ [c]) \<union> set cs"
      using 2(2) [of _ segs lst l'] 2(3) by (simp only: top_split.simps Let_def if_False) blast
    then show ?thesis by (simp add: insert_commute)
  qed
qed simp

lemma scan_loop_chars:
  assumes "scan_loop s 0 0 0 [] = (vals, l)" "v \<in> set vals"
  shows "set v \<subseteq> set s"
proof -
  obtain segs lst l' where t: "top_split 0 [] s = (segs, lst, l')" using prod_cases3 by blast
  have "v \<in> str_trim ` (set segs \<union> {lst})"
    using assms scan_loop_start [OF t] by (auto split: if_splits)
  then obtain w where w: "v = str_trim w" "w \<in> set segs \<union> {lst}" by blast
  then have "set w \<subseteq> set s" using top_split_chars [OF t] by auto
  then show ?thesis using w(1) set_str_trim by blast
qed

lemma set_after_first: "after_first c s = Some t \<Longrightarrow> set t \<subseteq> set s"
  by (induction s) (auto split: if_splits)

lemma set_group_body: "group_body s = Some t \<Longrightarrow> set t \<subseteq> set s"
  using set_after_first in_set_butlastD
  by (fastforce simp: group_body_def strip_suffix_char_def bind_eq_Some_conv split: if_splits)

text \<open>A text of characters that are their own lower case.\<close>

definition lower_text :: "string \<Rightarrow> bool" where
  "lower_text s \<longleftrightarrow> to_lowercase s = s"

lemma lower_text_iff: "lower_text s \<longleftrightarrow> (\<forall>c\<in>set s. lower_char c = c)"
  unfolding lower_text_def to_lowercase_def by (metis map_eq_conv list.map_ident)

lemma strategy_lower_text:
  assumes "strategy_from_str url = Ok (Some (SValue vs))" "v \<in> set vs"
  shows "lower_text v"
proof -
  let ?s = "str_to_lowercase url"
  have "lower_text ?s" by (simp add: lower_text_def str_to_lowercase_def)
  moreover have "set v \<subseteq> set ?s"
    using assms scan_loop_chars [of ?s]
    by (auto simp: strategy_from_str_def Let_def split: if_splits prod.splits)
  ultimately show ?thesis by (auto simp: lower_text_iff)
qed

definition lower_keys :: "key_map \<Rightarrow> bool" where
  "lower_keys m \<longleftrightarrow> (\<forall>k\<in>dom m. lower_text k)"

lemma lower_keys_upd: "lower_keys m \<Longrightarrow> lower_text k \<Longrightarrow> lower_keys (m(k \<mapsto> i))"
  by (auto simp: lower_keys_def)

lemma create_from_group_keys:
  "strategy_from_str config = Ok (Some (strategy_of k t)) \<Longrightarrow>
   create_connection_from config m n = Ok (r, m', n') \<Longrightarrow>
   \<exists>r' n''. create_connection_from t m n = Ok (r', m', n'')"
  by (cases k) (auto simp: create_connection_from.simps [of config] split: option.splits prod.splits)

lemma create_connection_from_lower:
  "create_connection_from config m n = Ok (r, m', n') \<Longrightarrow> lower_keys m \<Longrightarrow> lower_keys m'"
  "create_from_each ss m n = Ok (cs, m', n') \<Longrightarrow> lower_keys m \<Longrightarrow> lower_keys m'"
proof (induction config m n and ss m n arbitrary: r m' n' and cs m' n'
       rule: create_connection_from_create_from_each.induct)
  case (1 config m n)
  consider (none) "strategy_from_str config = Ok None"
    | (rr) t where "strategy_from_str config = Ok (Some (SRoundRobin t))"
    | (fo) t where "strategy_from_str config = Ok (Some (SFailOver t))"
    | (rand) t where "strategy_from_str config = Ok (Some (SRandom t))"
    | (one) v where "strategy_from_str config = Ok (Some (SValue [v]))"
    | (many) vs where "strategy_from_str config = Ok (Some (SValue vs))" "length vs \<noteq> 1"
    using 1(5) by (subst (asm) create_connection_from.simps)
      (auto split: outcome.splits option.splits load_balancer_strategy.splits if_splits
        simp: length_Suc_conv)
  then show ?case
  proof cases
    case none
    then show ?thesis using 1(5,6) by (simp add: create_connection_from.simps)
  next
    case rr
    then show ?thesis using 1(1) [OF rr refl refl] 1(5,6) create_from_group_keys [of config RoundRobin t]
      by fastforce
  next
    case fo
    then show ?thesis using 1(2) [OF fo refl refl] 1(5,6) create_from_group_keys [of config FailOver t]
      by fastforce
  next
    case rand
    then show ?thesis using 1(3) [OF rand refl refl] 1(5,6) create_from_group_keys [of config Random t]
      by fastforce
  next
    case one
    then show ?thesis
      using 1(5,6) strategy_lower_text [OF one, of v] lower_keys_upd
      by (auto simp: create_connection_from.simps [of config])
  next
    case many
    then show ?thesis using 1(4) [OF many(1) refl refl] 1(5,6)
      by (auto simp: create_connection_from.simps [of config])
  qed
next
  case (3 s ss m n)
  obtain r1 m1 n1 where c: "create_connection_from s m n = Ok (r1, m1, n1)" using 3(3) by auto
  obtain ds n2 where "create_from_each ss m1 n1 = Ok (ds, m', n2)"
    using 3(3) c by (auto split: prod.splits)
  then show ?case using 3(1) [OF c 3(4)] 3(2) by (metis c)
qed auto

lemma new_routing_connection_lower:
  assumes "new_routing_connection config n = Ok (rc, n')"
  shows "lower_keys (rc_keys rc)"
proof -
  obtain r m n1 where c: "create_connection_from config Map.empty (n + 1) = Ok (r, m, n1)"
    using assms by (auto simp: new_routing_connection_def)
  have "rc_keys rc = m"
    using assms c by (auto simp: new_routing_connection_def Let_def split: option.splits list.splits)
  then show ?thesis using create_connection_from_lower(1) [OF c] by (simp add: lower_keys_def)
qed

section \<open>Properties\<close>

text \<open>Adding a connection to a routing connection puts it once under every registered key among
  its \<open>host@realm\<close> and its \<open>realm\<close>, keeps the invariant that each key has one
  container of its own in the tree, and removing the connection again restores the tree.\<close>

theorem routing_add_remove:
  assumes "rc_ok rc" "apart rc c" "absent c (rc_connection rc)"
  shows "rc_ok (rc_add_connection rc host realm c)
    \<and> conn_leaves (rc_connection (rc_add_connection rc host realm c)) =
        conn_leaves (rc_connection rc) + repeat_mset (registered rc host realm) (conn_leaves c)
    \<and> rc_remove_connection (rc_add_connection rc host realm c) host realm c = rc"
  using rc_add_connection_facts [OF assms(1,2)] rc_remove_add [OF assms] by simp

theorem routing_add_remove_witness:
  "let rc = \<lparr>rc_connection = Node 1 FailOver [Node 2 RoundRobin [], Node 3 RoundRobin []],
             rc_keys = [''a@x'' \<mapsto> 2, ''x'' \<mapsto> 3]\<rparr> in
   conn_leaves (rc_connection (rc_add_connection rc ''a'' ''x'' (Leaf 7))) = {#7, 7#}
   \<and> rc_remove_connection (rc_add_connection rc ''a'' ''x'' (Leaf 7)) ''a'' ''x'' (Leaf 7) = rc"
proof -
  let ?rc = "\<lparr>rc_connection = Node 1 FailOver [Node 2 RoundRobin [], Node 3 RoundRobin []],
             rc_keys = [''a@x'' \<mapsto> 2, ''x'' \<mapsto> 3]\<rparr>"
  have "rc_ok ?rc" by (auto simp: rc_ok_def inj_on_def)
  then show ?thesis
    using routing_add_remove [of ?rc "Leaf 7" "''a''" "''x''"]
    by (simp add: apart_def registered_def peer_key_def numeral_2_eq_2)
qed

text \<open>C28. A command is sent through the routing item its key selects, when the item admits its
  application id, and through the default route otherwise. It reaches a live connection of that
  route whenever there is one and fails only when there is none; without any route it is refused.
  \<open>get_connections_for_command\<close> lists the children of the same route.\<close>

theorem find_send_command_correct:
  "(case fst (find_send_command up rnd st m cmd) of
      Ok h \<Rightarrow> up h \<and> (\<exists>rc. selected m cmd = Some rc \<and> h \<in># conn_leaves (rc_connection rc))
    | Err e \<Rightarrow> (case selected m cmd of
        Some rc \<Rightarrow> filter_mset up (conn_leaves (rc_connection rc)) = {#}
      | None \<Rightarrow> e = ''No routing connection found'')
    | Panic \<Rightarrow> False)
   \<and> mset (fst (get_connections_for_command rnd st m cmd)) =
       (case selected m cmd of Some rc \<Rightarrow> mset (children (rc_connection rc)) | None \<Rightarrow> {#})"
proof (cases "selected m cmd")
  case (Some rc)
  then show ?thesis
    using conn_send_delivers(1) [of up "rc_connection rc" rnd st]
    by (cases "fst (conn_send up rnd st (rc_connection rc))")
       (auto simp: find_send_command_selected get_connections_for_command_selected get_connections_mset
         filter_mset_eq_conv multiset_eq_iff not_in_iff)
qed (simp add: find_send_command_selected get_connections_for_command_selected)

section \<open>Peers that connect\<close>

lemma map_upds_same: "foldl (\<lambda>t k. t(k \<mapsto> v)) m ks = (\<lambda>k. if k \<in> set ks then Some v else m k)"
  by (induction ks arbitrary: m) auto

lemma rm_add_connection_same:
  "rm_policy (rm_add_connection m host realm c) = rm_policy m"
  "rm_routing_connections (rm_add_connection m host realm c) = rm_routing_connections m"
  by (simp_all add: rm_add_connection_def update_item_def Let_def split: option.split)

text \<open>What the configuration says: how often a peer is named by a route, which item (the last one)
  lists a key, and how often a peer occurs below the route of a command.\<close>

definition route_text :: "route list \<Rightarrow> string" where
  "route_text rs = join_with (CHR '';'') (map show_route rs)"

definition times_named :: "route list \<Rightarrow> string \<Rightarrow> string \<Rightarrow> nat" where
  "times_named rs host realm = length (filter (\<lambda>k. k \<in> \<Union> (route_peers ` set rs)) [peer_key host realm, realm])"

fun item_of :: "routing_item_config list \<Rightarrow> string \<Rightarrow> nat option" where
  "item_of [] k = None"
| "item_of (c # cs) k =
     (case item_of cs k of
        Some i \<Rightarrow> Some (Suc i)
      | None \<Rightarrow> if k \<in> set (list_or_default (ric_host_realms c)) then Some 0 else None)"

definition admits :: "routing_item_config \<Rightarrow> command \<Rightarrow> bool" where
  "admits c cmd \<longleftrightarrow> (case ric_application_ids c of None \<Rightarrow> True | Some ids \<Rightarrow> c_application_id cmd \<in> set ids)"

definition listed :: "routing_item_config list \<Rightarrow> nat \<Rightarrow> string \<Rightarrow> string \<Rightarrow> nat" where
  "listed items i host realm = length (filter (\<lambda>k. item_of items k = Some i) [realm, peer_key host realm])"

definition occurrences ::
  "routing_item_config list \<Rightarrow> route list list \<Rightarrow> route list option \<Rightarrow> routing_policy \<Rightarrow> command \<Rightarrow> string \<Rightarrow> string \<Rightarrow> nat" where
  "occurrences items routes default_route pol cmd host realm =
     (let through_default = (case default_route of Some rs \<Rightarrow> times_named rs host realm | None \<Rightarrow> 0) in
      case item_of items (command_key pol cmd) of
        Some i \<Rightarrow> if admits (items ! i) cmd then listed items i host realm * times_named (routes ! i) host realm
                  else through_default
      | None \<Rightarrow> through_default)"

fun add_peers :: "(nat \<times> string \<times> string) list \<Rightarrow> routing_manager \<Rightarrow> routing_manager" where
  "add_peers [] m = m"
| "add_peers ((h, host, realm) # peers) m = add_peers peers (rm_add_connection m host realm (Leaf h))"

text \<open>A routing connection of a route below which the leaves \<open>M\<close> are.\<close>

definition rc_for :: "route list \<Rightarrow> nat multiset \<Rightarrow> routing_connection \<Rightarrow> bool" where
  "rc_for rs M rc \<longleftrightarrow> rc_ok rc \<and> dom (rc_keys rc) = \<Union> (route_peers ` set rs)
     \<and> conn_leaves (rc_connection rc) = M \<and> is_container (rc_connection rc)"

lemma rc_for_new:
  assumes "\<forall>r\<in>set rs. route_ok r" "rs \<noteq> []"
  obtains rc n' where "new_routing_connection (route_text rs) n = Ok (rc, n')" "rc_for rs {#} rc"
  using new_routing_connection_ok [OF assms] unfolding route_text_def rc_for_def by metis

lemma is_container_update_at [simp]: "is_container (update_at f i c) = is_container c"
  by (cases c) (simp_all add: Let_def)

lemma rc_for_add:
  assumes "rc_for rs M rc"
  shows "rc_for rs (M + repeat_mset (times_named rs host realm) {#h#}) (rc_add_connection rc host realm (Leaf h))"
proof -
  have "apart rc (Leaf h)" by (simp add: apart_def)
  note f = rc_add_connection_facts [OF _ this, of host realm]
  have "registered rc host realm = times_named rs host realm"
    using assms unfolding registered_def times_named_def rc_for_def by (intro arg_cong [where f = length] filter_cong) auto
  moreover have "is_container (rc_connection (rc_add_connection rc host realm (Leaf h)))"
    using assms by (simp add: rc_for_def rc_add_connection_def update_key_def split: option.split)
  ultimately show ?thesis using assms f by (simp add: rc_for_def)
qed

text \<open>A manager for the items and the default of a configuration, where \<open>L i\<close> and
  \<open>D\<close> are the leaves below each route.\<close>

definition manager_for ::
  "routing_item_config list \<Rightarrow> route list list \<Rightarrow> route list option \<Rightarrow> (nat \<Rightarrow> nat multiset) \<Rightarrow> nat multiset
   \<Rightarrow> routing_manager \<Rightarrow> bool" where
  "manager_for items routes default_route L D m \<longleftrightarrow>
     length (rm_table m) = length items
     \<and> (\<forall>i<length items. rc_for (routes ! i) (L i) (rm_table m ! i))
     \<and> rel_option (\<lambda>rs. rc_for rs D) default_route (rm_default m)
     \<and> (\<forall>k. rm_routing_connections m k = map_option (\<lambda>i. \<lparr>ri_application_ids = ric_application_ids (items ! i),
            ri_host_realms = ric_host_realms (items ! i), ri_routing_connection = i\<rparr>) (item_of items k))"

lemma item_of_less: "item_of items k = Some i \<Longrightarrow> i < length items"
  by (induction items arbitrary: i) (auto split: option.splits if_splits)

lemma item_of_snoc:
  "item_of (items @ [c]) k =
     (if k \<in> set (list_or_default (ric_host_realms c)) then Some (length items) else item_of items k)"
  by (induction items) (auto split: option.splits)

lemma manager_for_insert:
  assumes "manager_for items routes d (\<lambda>_. {#}) {#} m" "length routes = length items" "rc_for rs {#} rc"
  shows "manager_for (items @ [c]) (routes @ [rs]) d (\<lambda>_. {#}) {#} (insert_item m c rc)"
  using assms item_of_less [of items]
  by (auto simp: manager_for_def insert_item_def Let_def nth_append map_upds_same item_of_snoc list_or_default_def
      less_Suc_eq intro!: option.map_cong0 split: option.split)

lemma manager_for_add_items:
  assumes "manager_for items routes d (\<lambda>_. {#}) {#} m" "length routes = length items"
    and "list_all2 (\<lambda>c rs. ric_route c = route_text rs \<and> rs \<noteq> [] \<and> (\<forall>r\<in>set rs. route_ok r)) cs rss"
  shows "\<exists>m' n'. add_items cs m n = Ok (m', n') \<and> rm_policy m' = rm_policy m
    \<and> manager_for (items @ cs) (routes @ rss) d (\<lambda>_. {#}) {#} m'"
  using assms(3,1,2)
proof (induction cs rss arbitrary: items routes m n rule: list_all2_induct)
  case (Cons c cs rs rss)
  obtain rc n1 where rc: "new_routing_connection (ric_route c) n = Ok (rc, n1)" "rc_for rs {#} rc"
    using rc_for_new [of rs n] Cons(1) by metis
  have "length (routes @ [rs]) = length (items @ [c])" using Cons.prems(2) by simp
  from Cons.IH [OF manager_for_insert [OF Cons.prems rc(2)] this, of n1] rc(1)
  show ?case by (auto simp: insert_item_def Let_def)
qed simp

lemma update_item_table:
  assumes "manager_for items routes d L D m"
  shows "rm_table (update_item f m k) ! i = (if item_of items k = Some i then f (rm_table m ! i) else rm_table m ! i)"
    "length (rm_table (update_item f m k)) = length (rm_table m)"
    "rm_routing_connections (update_item f m k) = rm_routing_connections m"
    "rm_default (update_item f m k) = rm_default m"
  using assms item_of_less [of items k]
  by (auto simp: manager_for_def update_item_def nth_list_update split: option.split)

lemma manager_for_update_item:
  assumes "manager_for items routes d L D m"
    and "\<And>i M rc. i < length items \<Longrightarrow> rc_for (routes ! i) M rc \<Longrightarrow> rc_for (routes ! i) (M + A i) (f rc)"
  shows "manager_for items routes d (\<lambda>i. L i + (if item_of items k = Some i then A i else {#})) D (update_item f m k)"
  using assms update_item_table [OF assms(1), of f k] by (simp add: manager_for_def)

lemma manager_for_add:
  assumes "manager_for items routes d L D m" 
  shows "manager_for items routes d
      (\<lambda>i. L i + repeat_mset (listed items i host realm * times_named (routes ! i) host realm) {#h#})
      (D + repeat_mset (case d of Some rs \<Rightarrow> times_named rs host realm | None \<Rightarrow> 0) {#h#})
      (rm_add_connection m host realm (Leaf h))"
proof -
  let ?f = "\<lambda>rc. rc_add_connection rc host realm (Leaf h)"
  let ?A = "\<lambda>i. repeat_mset (times_named (routes ! i) host realm) {#h#}"
  note u = manager_for_update_item [of items routes d _ D _ ?A ?f, OF _ rc_for_add]
  let ?m = "update_item ?f (update_item ?f m realm) (peer_key host realm)"
  have "manager_for items routes d
      (\<lambda>i. L i + (if item_of items realm = Some i then ?A i else {#})
         + (if item_of items (peer_key host realm) = Some i then ?A i else {#})) D ?m"
    by (rule u [OF u [OF assms]])
  moreover have "L i + (if item_of items realm = Some i then ?A i else {#})
         + (if item_of items (peer_key host realm) = Some i then ?A i else {#})
      = L i + repeat_mset (listed items i host realm * times_named (routes ! i) host realm) {#h#}" for i
    by (rule multiset_eqI) (simp add: listed_def)
  ultimately have m: "manager_for items routes d
      (\<lambda>i. L i + repeat_mset (listed items i host realm * times_named (routes ! i) host realm) {#h#}) D ?m"
    by simp
  have "rel_option (\<lambda>rs. rc_for rs (D + repeat_mset (case d of Some rs \<Rightarrow> times_named rs host realm | None \<Rightarrow> 0) {#h#}))
      d (map_option ?f (rm_default ?m))"
    using m rc_for_add by (cases d; cases "rm_default ?m") (auto simp: manager_for_def)
  then show ?thesis using m by (simp add: manager_for_def rm_add_connection_def Let_def)
qed

lemma manager_for_add_peers:
  assumes "manager_for items routes d L D m"
  shows "manager_for items routes d
      (\<lambda>i. L i + (\<Sum>(h, host, realm)\<leftarrow>peers. repeat_mset (listed items i host realm * times_named (routes ! i) host realm) {#h#}))
      (D + (\<Sum>(h, host, realm)\<leftarrow>peers. repeat_mset (case d of Some rs \<Rightarrow> times_named rs host realm | None \<Rightarrow> 0) {#h#}))
      (add_peers peers m) \<and> rm_policy (add_peers peers m) = rm_policy m"
  using assms
proof (induction peers m arbitrary: L D rule: add_peers.induct)
  case (2 h host realm peers m)
  show ?case
    using 2(1) [OF manager_for_add [OF 2(2), of host realm h]]
    by (simp add: add.assoc rm_add_connection_same)
qed simp

lemma manager_for_offers:
  assumes "manager_for items routes d L D m"
  shows "conns_leaves (fst (get_connections_for_command rnd st m cmd)) =
    (let through_default = (case d of Some rs \<Rightarrow> D | None \<Rightarrow> {#}) in
     case item_of items (command_key (rm_policy m) cmd) of
       Some i \<Rightarrow> if admits (items ! i) cmd then L i else through_default
     | None \<Rightarrow> through_default)"
proof -
  have c: "conns_leaves (fst (get_connections rnd st (rc_connection rc))) = M" if "rc_for rs M rc" for rs M rc
    using that conn_leaves_children conns_leaves_mset [OF get_connections_mset] by (metis rc_for_def)
  have "conns_leaves (fst (case rm_default m of Some rc \<Rightarrow> get_connections rnd st (rc_connection rc) | None \<Rightarrow> ([], st)))
      = (case d of Some rs \<Rightarrow> D | None \<Rightarrow> {#})"
    using assms c by (cases d; cases "rm_default m") (auto simp: manager_for_def)
  moreover have "conns_leaves (fst (get_connections rnd st (rc_connection (rm_table m ! i)))) = L i"
    if "item_of items k = Some i" for k i
    using assms item_of_less [OF that] c by (auto simp: manager_for_def)
  ultimately show ?thesis
    using assms
    by (auto simp: get_connections_for_command_def Let_def manager_for_def contains_app_id_def admits_def split: option.split)
qed



text \<open>
  The keys of a routing connection are lower case, while a connection is looked up under the names
  it reports: a peer whose identity and realm have an upper-case letter is never used for routing.
\<close>

theorem mixed_case_peer_unroutable:
  assumes "new_routing_connection config n = Ok (rc, n')" "\<not> lower_text realm"
  shows "rc_add_connection rc host realm c = rc"
proof -
  have "\<not> lower_text (peer_key host realm)" using assms(2) by (auto simp: lower_text_iff peer_key_def)
  then have "rc_keys rc (peer_key host realm) = None \<and> rc_keys rc realm = None"
    using new_routing_connection_lower [OF assms(1)] assms(2) by (auto simp: lower_keys_def)
  then show ?thesis by (simp add: rc_add_connection_def update_key_def)
qed

end
