(* ===== verification/Request_Handler.thy ===== *)
theory Request_Handler
  imports Command_Json Config
begin

text \<open>
  Requests for this node: \<open>RequestProcessor\<close> and \<open>DefaultCommandHandler\<close>
  (\<open>transport/command_handler.rs\<close>), and the processors a stack is configured with
  (\<open>stack.rs\<close>). A request is rendered as JSON and posted to the URLs of the first processor
  that matches; the reply becomes the answer.

  The HTTP client and the JSON text parser are parameters: \<open>http k url body\<close> is the reply to
  the k-th post, and \<open>parse\<close> is \<open>serde_json::from_str\<close>.
\<close>

datatype http_reply = HttpFailed | HttpReply nat "string option"

datatype handler_error = ReplyNotJson | ReplyNotObject | ReplyNotCommand | NoProcessor

record request_processor =
  rp_command_codes :: "u32 list"
  rp_application_ids :: "u32 list"
  rp_urls :: "string list"
  rp_timeout :: u64

text \<open>Timeouts are in milliseconds.\<close>

definition create_request_processors :: "stack_config \<Rightarrow> request_processor list" where
  "create_request_processors cfg =
     map (\<lambda>pc. \<lparr>rp_command_codes = list_or_default (prc_command_codes pc),
                rp_application_ids = list_or_default (prc_application_ids pc),
                rp_urls = list_or_default (prc_urls pc),
                rp_timeout = (case prc_timeout pc of Some t \<Rightarrow> t | None \<Rightarrow> 30000)\<rparr>)
       (list_or_default (sc_my_request_processors cfg))"

definition matches :: "request_processor \<Rightarrow> command \<Rightarrow> bool" where
  "matches rp cmd \<longleftrightarrow>
     (rp_command_codes rp = [] \<or> c_code cmd \<in> set (rp_command_codes rp))
     \<and> (rp_application_ids rp = [] \<or> c_application_id cmd \<in> set (rp_application_ids rp))"

text \<open>\<open>create_answer\<close>: the request decides identifiers, origin and, unless it is 0, the
  application; the Request bit is cleared. The answer is rendered for the log, where a panic ends
  the call.\<close>

definition answer_flags :: "(string \<times> json) list \<Rightarrow> command \<Rightarrow> u8" where
  "answer_flags obj request =
     (case Option.bind (Option.bind (obj_get obj ''flags'') as_str) u8_from_str of
        Some f \<Rightarrow> f | None \<Rightarrow> c_flags request)"

definition stamp_answer :: "command \<Rightarrow> u8 \<Rightarrow> command \<Rightarrow> command" where
  "stamp_answer request flags answer =
     (let a0 = answer\<lparr>c_hop_by_hop_id := c_hop_by_hop_id request,
                      c_end_to_end_id := c_end_to_end_id request,
                      c_flags := flags AND 0x7F\<rparr>;
          a1 = (if c_application_id request \<noteq> 0 then a0\<lparr>c_application_id := c_application_id request\<rparr> else a0);
          a2 = (case get_destination_realm request of Some r \<Rightarrow> set_origin_realm a1 r | None \<Rightarrow> a1)
      in case get_destination_host request of Some h \<Rightarrow> set_origin_host a2 h | None \<Rightarrow> a2)"

definition create_answer ::
  "platform \<Rightarrow> (string \<Rightarrow> json option) \<Rightarrow> string \<Rightarrow> command \<Rightarrow> command_map \<Rightarrow> avp_map
   \<Rightarrow> (handler_error, command) outcome" where
  "create_answer p parse response request cm am =
     (case parse response of
        None \<Rightarrow> Err ReplyNotJson
      | Some v \<Rightarrow>
          (case as_object v of
             None \<Rightarrow> Err ReplyNotObject
           | Some obj0 \<Rightarrow>
               let obj = (if obj_get obj0 ''code'' = None \<and> obj_get obj0 ''name'' = None
                          then obj_insert ''code'' (JNumber (number_of_u32 (c_code request))) obj0
                          else obj0) in
               case from_json_value p (JObject obj) cm am of
                 Ok answer \<Rightarrow>
                   let answer1 = stamp_answer request (answer_flags obj request) answer in
                   if log_info p \<and> to_json p answer1 cm am = Panic then Panic else Ok answer1
               | Err e \<Rightarrow> Err ReplyNotCommand
               | Panic \<Rightarrow> Panic))"

definition unable_to_deliver :: "command \<Rightarrow> command" where
  "unable_to_deliver request = set_result_code (create_response request) 3002"

text \<open>
  \<open>send_request\<close>: the URLs in order, until one replies with a status from 200 to 399 and a
  readable body; \<open>n\<close> counts the posts.
\<close>

fun post_urls ::
  "platform \<Rightarrow> (nat \<Rightarrow> string \<Rightarrow> json \<Rightarrow> http_reply) \<Rightarrow> (string \<Rightarrow> json option) \<Rightarrow> command
   \<Rightarrow> command_map \<Rightarrow> avp_map \<Rightarrow> string list \<Rightarrow> nat \<Rightarrow> (handler_error, command) outcome \<times> nat" where
  "post_urls p http parse request cm am [] n = (Ok (unable_to_deliver request), n)"
| "post_urls p http parse request cm am (url # urls) n =
     (case to_json p request cm am of
        Ok body \<Rightarrow>
          (case http n url body of
             HttpReply status (Some text) \<Rightarrow>
               if 200 \<le> status \<and> status < 400 then (create_answer p parse text request cm am, n + 1)
               else post_urls p http parse request cm am urls (n + 1)
           | _ \<Rightarrow> post_urls p http parse request cm am urls (n + 1))
      | _ \<Rightarrow> (Panic, n))"

definition rp_send_request ::
  "platform \<Rightarrow> (nat \<Rightarrow> string \<Rightarrow> json \<Rightarrow> http_reply) \<Rightarrow> (string \<Rightarrow> json option) \<Rightarrow> request_processor
   \<Rightarrow> command \<Rightarrow> command_map \<Rightarrow> avp_map \<Rightarrow> nat \<Rightarrow> (handler_error, command) outcome \<times> nat" where
  "rp_send_request p http parse rp request cm am n =
     post_urls p http parse request cm am (rp_urls rp) n"

section \<open>DefaultCommandHandler\<close>

record default_handler =
  dh_request_processors :: "request_processor list"
  dh_command_map :: command_map
  dh_avp_map :: avp_map

text \<open>The counters of \<open>metrics.rs\<close> the handler increments, and the posts made.\<close>

record handler_state =
  hs_requests_received :: nat
  hs_processed_requests :: nat
  hs_responses_received :: nat
  hs_posts :: nat

fun try_processors ::
  "platform \<Rightarrow> (nat \<Rightarrow> string \<Rightarrow> json \<Rightarrow> http_reply) \<Rightarrow> (string \<Rightarrow> json option) \<Rightarrow> command_map \<Rightarrow> avp_map
   \<Rightarrow> command \<Rightarrow> request_processor list \<Rightarrow> handler_state
   \<Rightarrow> (handler_error, command option) outcome \<times> handler_state" where
  "try_processors p http parse cm am cmd [] st = (Err NoProcessor, st)"
| "try_processors p http parse cm am cmd (rp # rps) st =
     (if matches rp cmd then
        (case rp_send_request p http parse rp cmd cm am (hs_posts st) of
           (r, n) \<Rightarrow>
             let st' = st\<lparr>hs_processed_requests := hs_processed_requests st + 1, hs_posts := n\<rparr> in
             (case r of
                Ok answer \<Rightarrow> (Ok (Some answer), st')
              | Err e \<Rightarrow> try_processors p http parse cm am cmd rps st'
              | Panic \<Rightarrow> (Panic, st')))
      else try_processors p http parse cm am cmd rps st)"

definition handle_command ::
  "platform \<Rightarrow> (nat \<Rightarrow> string \<Rightarrow> json \<Rightarrow> http_reply) \<Rightarrow> (string \<Rightarrow> json option) \<Rightarrow> default_handler
   \<Rightarrow> command \<Rightarrow> handler_state \<Rightarrow> (handler_error, command option) outcome \<times> handler_state" where
  "handle_command p http parse h cmd st =
     (if is_request cmd then
        try_processors p http parse (dh_command_map h) (dh_avp_map h) cmd (dh_request_processors h)
          (st\<lparr>hs_requests_received := hs_requests_received st + 1\<rparr>)
      else (Ok None, st\<lparr>hs_responses_received := hs_responses_received st + 1\<rparr>))"

section \<open>What an answer agrees with its request on\<close>

definition answers :: "command \<Rightarrow> command \<Rightarrow> bool" where
  "answers request answer \<longleftrightarrow>
     is_answer answer
     \<and> c_hop_by_hop_id answer = c_hop_by_hop_id request
     \<and> c_end_to_end_id answer = c_end_to_end_id request
     \<and> (c_application_id request \<noteq> 0 \<longrightarrow> c_application_id answer = c_application_id request)
     \<and> (get_destination_host request \<noteq> None \<longrightarrow> get_origin_host answer = get_destination_host request)
     \<and> (get_destination_realm request \<noteq> None \<longrightarrow> get_origin_realm answer = get_destination_realm request)"

lemma stamp_answer_header [simp]:
  "c_hop_by_hop_id (stamp_answer r f a) = c_hop_by_hop_id r"
  "c_end_to_end_id (stamp_answer r f a) = c_end_to_end_id r"
  "c_flags (stamp_answer r f a) = f AND 0x7F"
  "c_application_id (stamp_answer r f a) =
     (if c_application_id r \<noteq> 0 then c_application_id r else c_application_id a)"
  by (simp_all add: stamp_answer_def Let_def set_origin_host_def set_origin_realm_def split: option.split)

lemma stamp_answer_answers: "answers r (stamp_answer r f a)"
proof -
  have "get_destination_host r \<noteq> None \<longrightarrow> get_origin_host (stamp_answer r f a) = get_destination_host r"
    "get_destination_realm r \<noteq> None \<longrightarrow> get_origin_realm (stamp_answer r f a) = get_destination_realm r"
    using get_destination_rust_string [of r]
    by (auto simp: stamp_answer_def Let_def origin_host.get_set origin_realm.get_set split: option.split)
  then show ?thesis
    by (simp add: answers_def is_answer_def is_request_def vendor_flag_clear)
qed

lemma unable_to_deliver_header [simp]:
  "c_hop_by_hop_id (unable_to_deliver r) = c_hop_by_hop_id r"
  "c_end_to_end_id (unable_to_deliver r) = c_end_to_end_id r"
  "c_flags (unable_to_deliver r) = c_flags r AND 0x7F"
  "c_application_id (unable_to_deliver r) = c_application_id r"
  by (simp_all add: unable_to_deliver_def set_result_code_def)

lemma unable_to_deliver_answers: "answers r (unable_to_deliver r)"
proof -
  have "get_origin_realm (set_result_code c x) = get_origin_realm c" for c x
    by (simp add: get_origin_realm_def result_code.get_avp_other)
  then show ?thesis
    by (simp add: answers_def is_answer_def is_request_def vendor_flag_clear unable_to_deliver_def
        get_origin_host_set_result create_response_origin)
qed

lemma unable_to_deliver_code: "get_result_code (unable_to_deliver r) = Some 3002"
  by (simp add: unable_to_deliver_def result_code.get_set)

lemma create_answer_answers: "create_answer p parse t r cm am = Ok a \<Longrightarrow> answers r a"
  by (auto simp: create_answer_def Let_def stamp_answer_answers split: option.splits outcome.splits if_splits)

lemma post_urls_answers: "post_urls p http parse r cm am urls n = (Ok a, n') \<Longrightarrow> answers r a"
  by (induction urls arbitrary: n)
     (auto simp: unable_to_deliver_answers create_answer_answers
       split: outcome.splits http_reply.splits option.splits if_splits)

lemma try_processors_answers:
  "try_processors p http parse cm am cmd rps st = (Ok ao, st') \<Longrightarrow> \<exists>a. ao = Some a \<and> answers cmd a"
  by (induction rps arbitrary: st)
     (auto simp: rp_send_request_def Let_def split: if_splits prod.splits outcome.splits
       dest: post_urls_answers)

text \<open>No URL gives a usable reply.\<close>

definition unusable :: "http_reply \<Rightarrow> bool" where
  "unusable r = (case r of HttpReply s (Some t) \<Rightarrow> \<not> (200 \<le> s \<and> s < 400) | _ \<Rightarrow> True)"

lemma post_urls_unusable:
  assumes "to_json p r cm am = Ok body" "\<And>k url. url \<in> set urls \<Longrightarrow> unusable (http k url body)"
  shows "post_urls p http parse r cm am urls n = (Ok (unable_to_deliver r), n + length urls)"
  using assms(2)
proof (induction urls arbitrary: n)
  case (Cons url urls)
  have u: "unusable (http n url body)" using Cons.prems by simp
  have "post_urls p http parse r cm am urls (n + 1) = (Ok (unable_to_deliver r), n + 1 + length urls)"
    using Cons by simp
  then show ?case
    using u assms(1) by (auto simp: unusable_def split: http_reply.splits option.splits)
qed simp

lemma try_processors_skip:
  "\<forall>rp\<in>set rps. \<not> matches rp cmd \<Longrightarrow>
   try_processors p http parse cm am cmd (rps @ rps') st = try_processors p http parse cm am cmd rps' st"
  by (induction rps) auto

section \<open>Properties\<close>

text \<open>C34. An answer the handler produces belongs to its request: it is an answer, has the
  request's hop-by-hop and end-to-end identifiers and (unless that is 0) application id, and its
  origin is the request's destination. An answer is produced for requests only; an incoming answer
  is acknowledged without one.\<close>

theorem handler_answers_request:
  "case fst (handle_command p http parse h cmd st) of
     Ok (Some a) \<Rightarrow> is_request cmd \<and> answers cmd a
   | Ok None \<Rightarrow> is_answer cmd
   | Err e \<Rightarrow> is_request cmd
   | Panic \<Rightarrow> is_request cmd"
proof (cases "is_request cmd")
  case True
  let ?t = "try_processors p http parse (dh_command_map h) (dh_avp_map h) cmd (dh_request_processors h)
      (st\<lparr>hs_requests_received := hs_requests_received st + 1\<rparr>)"
  show ?thesis
    using True try_processors_answers [of p http parse "dh_command_map h" "dh_avp_map h" cmd
        "dh_request_processors h" "st\<lparr>hs_requests_received := hs_requests_received st + 1\<rparr>" _ "snd ?t"]
    by (cases ?t) (auto simp: handle_command_def split: outcome.splits option.splits)
qed (simp add: handle_command_def is_answer_def)

text \<open>When no URL of the first matching processor gives a usable reply (a transport error, a
  status outside 200 to 399, or an unreadable body), every URL has been tried once and the request
  is answered with result code 3002, DIAMETER_UNABLE_TO_DELIVER.\<close>

theorem unreachable_backend_answered:
  assumes "is_request cmd" "dh_request_processors h = rps @ rp # rps'"
    and "\<forall>q\<in>set rps. \<not> matches q cmd" "matches rp cmd"
    and "to_json p cmd (dh_command_map h) (dh_avp_map h) = Ok body"
    and "\<And>k url. url \<in> set (rp_urls rp) \<Longrightarrow> unusable (http k url body)"
  shows "\<exists>a st'. handle_command p http parse h cmd st = (Ok (Some a), st')
    \<and> get_result_code a = Some 3002 \<and> answers cmd a
    \<and> hs_posts st' = hs_posts st + length (rp_urls rp)
    \<and> hs_requests_received st' = hs_requests_received st + 1
    \<and> hs_processed_requests st' = hs_processed_requests st + 1"
  using assms(1-5) post_urls_unusable [where http = http, OF assms(5,6)]
  by (simp add: handle_command_def try_processors_skip rp_send_request_def Let_def
      unable_to_deliver_code unable_to_deliver_answers)

theorem unreachable_backend_answered_witness:
  "\<forall>p parse. \<exists>a st'. handle_command p (\<lambda>_ _ _. HttpReply 503 (Some [])) parse
      \<lparr>dh_request_processors = [\<lparr>rp_command_codes = [272], rp_application_ids = [], rp_urls = [''http://a'', ''http://b''],
         rp_timeout = 1000\<rparr>],
       dh_command_map = \<lparr>code_to_command = Map.empty, name_to_command = Map.empty\<rparr>,
       dh_avp_map = \<lparr>code_to_avp = Map.empty, name_to_avp = Map.empty\<rparr>\<rparr>
      (command_new 272 0x80 4 7 9 []) \<lparr>hs_requests_received = 0, hs_processed_requests = 0, hs_responses_received = 0, hs_posts = 0\<rparr>
      = (Ok (Some a), st') \<and> get_result_code a = Some 3002 \<and> hs_posts st' = 2"
proof (intro allI)
  fix p parse
  let ?rp = "\<lparr>rp_command_codes = [272], rp_application_ids = [], rp_urls = [''http://a'', ''http://b''], rp_timeout = 1000\<rparr>"
  let ?cm = "\<lparr>code_to_command = Map.empty, name_to_command = Map.empty\<rparr>"
  let ?am = "\<lparr>code_to_avp = Map.empty, name_to_avp = Map.empty\<rparr>"
  let ?h = "\<lparr>dh_request_processors = [?rp], dh_command_map = ?cm, dh_avp_map = ?am\<rparr>"
  let ?c = "command_new 272 0x80 4 7 9 []"
  obtain body where "to_json p ?c ?cm ?am = Ok body" by (simp add: to_json_def command_new_def)
  then show "\<exists>a st'. handle_command p (\<lambda>_ _ _. HttpReply 503 (Some [])) parse ?h ?c
      \<lparr>hs_requests_received = 0, hs_processed_requests = 0, hs_responses_received = 0, hs_posts = 0\<rparr>
      = (Ok (Some a), st') \<and> get_result_code a = Some 3002 \<and> hs_posts st' = 2"
    using unreachable_backend_answered [of ?c ?h "[]" ?rp "[]" p body "\<lambda>_ _ _. HttpReply 503 (Some [])" parse
        "\<lparr>hs_requests_received = 0, hs_processed_requests = 0, hs_responses_received = 0, hs_posts = 0\<rparr>"]
    by (simp add: matches_def command_new_def is_request_def unusable_def) (metis numeral_2_eq_2)
qed

end
