(* ===== verification/Connection_Manager.thy ===== *)
theory Connection_Manager
  imports Routing Redirect_Cache Pending_Tables "HOL-Library.AList"
begin

text \<open>
  The connection manager (\<open>transport/connection_manager.rs\<close>): the registry of connections by
  id and by \<open>host@realm\<close>, the choice of the connections for a request, the loop that sends a
  request through them with two timeouts, retryable result codes and redirection, and the way back
  of a response.

  What a task cannot know when it starts an attempt is an oracle, indexed by the number of the
  attempt: which peer connections accept a send, the states of the answer manager when the wait
  for the answer begins and when it ends, and how long the attempt takes. A
  \<open>HashMap\<close> is iterated in an arbitrary order, the oracle \<open>e_order\<close>. Durations are
  whole numbers of ticks of the clock.
\<close>

record centry =
  ce_conn :: conn
  ce_host :: string
  ce_realm :: string

record manager =
  cm_per_conn_timeout :: nat
  cm_total_timeout :: nat
  cm_connections :: "(string \<times> centry) list"
  cm_host_realm :: "string \<rightharpoonup> conn"
  cm_routing :: "routing_manager option"
  cm_retryable :: "u32 list"
  cm_redirects :: redirect_caches
  cm_retried :: nat
  cm_lb :: lb_state
  cm_fresh :: nat

record env =
  e_up :: "nat \<Rightarrow> nat \<Rightarrow> bool"
  e_rnd :: "nat \<Rightarrow> nat \<Rightarrow> nat"
  e_wait_begins :: "nat \<Rightarrow> answer_manager"
  e_wait_ends :: "nat \<Rightarrow> answer_manager"
  e_elapsed :: "nat \<Rightarrow> nat"
  e_order :: "(string \<times> centry) list \<Rightarrow> (string \<times> centry) list"

datatype send_error =
  NoConnection | TotalTimeout | ConnTimedOut | SendFailed string | NoAnswer | RetryableCode u32
| NoRedirectConnection | FailToSend | FailAfterRedirect

definition new_manager :: "nat \<Rightarrow> nat \<Rightarrow> routing_manager option \<Rightarrow> u32 list \<Rightarrow> redirect_caches \<Rightarrow> lb_state \<Rightarrow> nat
    \<Rightarrow> manager" where
  "new_manager per_conn in_total routing retryable redirects lb fresh =
     \<lparr>cm_per_conn_timeout = per_conn, cm_total_timeout = in_total, cm_connections = [], cm_host_realm = Map.empty,
      cm_routing = routing, cm_retryable = retryable, cm_redirects = redirects, cm_retried = 0,
      cm_lb = lb, cm_fresh = fresh\<rparr>"

definition connection_count :: "manager \<Rightarrow> nat" where
  "connection_count m = length (cm_connections m)"

section \<open>The registry\<close>

definition cm_add_connection :: "manager \<Rightarrow> string \<Rightarrow> centry \<Rightarrow> manager" where
  "cm_add_connection m i e =
     (let key = peer_key (ce_host e) (ce_realm e);
          m1 = m\<lparr>cm_routing := map_option (\<lambda>r. rm_add_connection r (ce_host e) (ce_realm e) (ce_conn e)) (cm_routing m),
                 cm_connections := AList.update i e (cm_connections m)\<rparr> in
      case cm_host_realm m1 key of
        Some c \<Rightarrow> m1\<lparr>cm_host_realm := (cm_host_realm m1)(key \<mapsto> conn_add_connection c (ce_conn e))\<rparr>
      | None \<Rightarrow>
          m1\<lparr>cm_host_realm := (cm_host_realm m1)
               (key \<mapsto> conn_add_connection (Node (cm_fresh m1) RoundRobin []) (ce_conn e)),
             cm_fresh := cm_fresh m1 + 1\<rparr>)"

definition forget_names :: "manager \<Rightarrow> centry \<Rightarrow> manager" where
  "forget_names m e =
     m\<lparr>cm_routing := map_option (\<lambda>r. rm_remove_connection r (ce_host e) (ce_realm e) (ce_conn e)) (cm_routing m),
       cm_host_realm := (cm_host_realm m)(ce_realm e := None, peer_key (ce_host e) (ce_realm e) := None)\<rparr>"

definition cm_remove_connection :: "manager \<Rightarrow> string \<Rightarrow> centry \<Rightarrow> manager" where
  "cm_remove_connection m i e =
     (let m1 = forget_names m e in m1\<lparr>cm_connections := AList.delete i (cm_connections m1)\<rparr>)"

definition get_connection_by_id :: "manager \<Rightarrow> string \<Rightarrow> centry option" where
  "get_connection_by_id m i = map_of (cm_connections m) i"

definition remove_connection_by_id :: "manager \<Rightarrow> string \<Rightarrow> manager" where
  "remove_connection_by_id m i =
     (case get_connection_by_id m i of
        Some e \<Rightarrow> forget_names (m\<lparr>cm_connections := AList.delete i (cm_connections m)\<rparr>) e
      | None \<Rightarrow> m)"

definition get_connection_by_host_realm :: "manager \<Rightarrow> string \<Rightarrow> string \<Rightarrow> conn option" where
  "get_connection_by_host_realm m host realm = cm_host_realm m (peer_key host realm)"

section \<open>Connections for a request\<close>

fun expand_each :: "(nat \<Rightarrow> nat \<Rightarrow> nat) \<Rightarrow> lb_state \<Rightarrow> conn list \<Rightarrow> conn list \<times> lb_state" where
  "expand_each rnd st [] = ([], st)"
| "expand_each rnd st (c # cs) =
     (let (xs, st1) = get_underlying_connections rnd st c; (ys, st2) = expand_each rnd st1 cs in
      (xs @ ys, st2))"

definition get_connections_by_hosts :: "env \<Rightarrow> manager \<Rightarrow> string list \<Rightarrow> conn list option \<times> manager" where
  "get_connections_by_hosts env m hosts =
     (let es = filter (\<lambda>(i, e). ce_host e \<in> set hosts) (e_order env (cm_connections m));
          (result, lb) = expand_each (e_rnd env) (cm_lb m) (map (\<lambda>(i, e). ce_conn e) es) in
      (if result = [] then None else Some result, m\<lparr>cm_lb := lb\<rparr>))"

definition get_redirect_connections ::
  "env \<Rightarrow> instant \<Rightarrow> manager \<Rightarrow> command \<Rightarrow> conn list option \<times> manager" where
  "get_redirect_connections env now m request =
     (let (hosts, rcs) = get_redirect (cm_redirects m) now request; m1 = m\<lparr>cm_redirects := rcs\<rparr> in
      case hosts of
        Some hs \<Rightarrow> get_connections_by_hosts env m1 hs
      | None \<Rightarrow> (None, m1))"

definition get_connections_for_request ::
  "env \<Rightarrow> instant \<Rightarrow> manager \<Rightarrow> command \<Rightarrow> (send_error, conn list) outcome \<times> manager" where
  "get_connections_for_request env now m request =
     (case get_redirect_connections env now m request of
        (Some cs, m1) \<Rightarrow> (Ok cs, m1)
      | (None, m1) \<Rightarrow>
          let host = str_or_default (get_destination_host request);
              realm = str_or_default (get_destination_realm request) in
          case cm_host_realm m1 (peer_key host realm) of
            Some c \<Rightarrow>
              (case get_underlying_connections (e_rnd env) (cm_lb m1) c of
                 (cs, lb) \<Rightarrow> (Ok cs, m1\<lparr>cm_lb := lb\<rparr>))
          | None \<Rightarrow>
              (case cm_routing m1 of
                 Some r \<Rightarrow>
                   (case get_connections_for_command (e_rnd env) (cm_lb m1) r request of
                      (cs, lb) \<Rightarrow> (Ok cs, m1\<lparr>cm_lb := lb\<rparr>))
               | None \<Rightarrow> (Err NoConnection, m1)))"

section \<open>One attempt\<close>

text \<open>
  \<open>wait_answer\<close> looks the entry up when it begins and returns what the entry holds once it is
  notified; \<open>None\<close> outside means that it is still waiting.
\<close>

definition wait_answer :: "answer_manager \<Rightarrow> answer_manager \<Rightarrow> u32 \<Rightarrow> command option option" where
  "wait_answer begins ends hbh =
     (case begin_wait begins hbh of None \<Rightarrow> Some None | Some h \<Rightarrow> fst (poll_wait ends h))"

definition send_request_command ::
  "env \<Rightarrow> nat \<Rightarrow> lb_state \<Rightarrow> conn \<Rightarrow> command \<Rightarrow> (send_error, command) outcome option \<times> lb_state" where
  "send_request_command env k lb c request =
     (case conn_send (e_up env k) (e_rnd env) lb c of
        (Ok h, lb') \<Rightarrow>
          (case wait_answer (e_wait_begins env k) (e_wait_ends env k) (c_hop_by_hop_id request) of
             None \<Rightarrow> (None, lb')
           | Some (Some answer) \<Rightarrow> (Some (Ok answer), lb')
           | Some None \<Rightarrow> (Some (Err NoAnswer), lb'))
      | (Err e, lb') \<Rightarrow> (Some (Err (SendFailed e)), lb')
      | (Panic, lb') \<Rightarrow> (Some Panic, lb'))"

definition result_code_or_success :: "command \<Rightarrow> u32" where
  "result_code_or_success answer =
     (case get_result_code answer of Some r \<Rightarrow> r | None \<Rightarrow> result_code_u32 DiameterSuccess)"

record run =
  r_mgr :: manager
  r_now :: instant
  r_attempts :: nat

definition send_request_with_timeout ::
  "env \<Rightarrow> command \<Rightarrow> conn \<Rightarrow> instant \<Rightarrow> run \<Rightarrow> (send_error, command) outcome \<times> run" where
  "send_request_with_timeout env request c timeout_time r =
     (let m = r_mgr r; remaining = timeout_time - r_now r in
      if remaining = 0 then (Err TotalTimeout, r)
      else
        let budget = (if remaining < cm_per_conn_timeout m then remaining else cm_per_conn_timeout m);
            k = r_attempts r;
            (reply, lb) = send_request_command env k (cm_lb m) c request;
            r1 = r\<lparr>r_mgr := m\<lparr>cm_lb := lb\<rparr>, r_attempts := k + 1\<rparr> in
        if reply = None \<or> budget < e_elapsed env k then
          (Err ConnTimedOut, r1\<lparr>r_now := r_now r + budget\<rparr>)
        else
          let r2 = r1\<lparr>r_now := r_now r + e_elapsed env k\<rparr> in
          case the reply of
            Ok answer \<Rightarrow>
              if result_code_or_success answer \<in> set (cm_retryable m) then
                (Err (RetryableCode (result_code_or_success answer)),
                 r2\<lparr>r_mgr := (r_mgr r2)\<lparr>cm_retried := cm_retried m + 1\<rparr>\<rparr>)
              else (Ok answer, r2)
          | Err e \<Rightarrow> (Err e, r2)
          | Panic \<Rightarrow> (Panic, r2))"

section \<open>The loops\<close>

fun redirect_request ::
  "env \<Rightarrow> command \<Rightarrow> instant \<Rightarrow> conn list \<Rightarrow> run \<Rightarrow> (send_error, command) outcome \<times> run" where
  "redirect_request env request timeout_time [] r = (Err FailAfterRedirect, r)"
| "redirect_request env request timeout_time (c # cs) r =
     (case send_request_with_timeout env request c timeout_time r of
        (Ok answer, r1) \<Rightarrow> (Ok answer, r1)
      | (Panic, r1) \<Rightarrow> (Panic, r1)
      | (Err e, r1) \<Rightarrow>
          if timeout_time \<le> r_now r1 then (Err TotalTimeout, r1)
          else redirect_request env request timeout_time cs r1)"

definition follow_redirect ::
  "env \<Rightarrow> command \<Rightarrow> instant \<Rightarrow> string list \<Rightarrow> run \<Rightarrow> (send_error, command) outcome \<times> run" where
  "follow_redirect env request timeout_time hosts r =
     (case get_connections_by_hosts env (r_mgr r) hosts of
        (Some cs, m1) \<Rightarrow> redirect_request env request timeout_time cs (r\<lparr>r_mgr := m1\<rparr>)
      | (None, m1) \<Rightarrow> (Err NoRedirectConnection, r\<lparr>r_mgr := m1\<rparr>))"

fun send_loop ::
  "env \<Rightarrow> command \<Rightarrow> instant \<Rightarrow> conn list \<Rightarrow> run \<Rightarrow> (send_error, command) outcome \<times> run" where
  "send_loop env request timeout_time [] r = (Err FailToSend, r)"
| "send_loop env request timeout_time (c # cs) r =
     (case send_request_with_timeout env request c timeout_time r of
        (Panic, r1) \<Rightarrow> (Panic, r1)
      | (Err e, r1) \<Rightarrow>
          if timeout_time \<le> r_now r1 then (Err TotalTimeout, r1)
          else send_loop env request timeout_time cs r1
      | (Ok answer, r1) \<Rightarrow>
          if result_code_or_success answer = result_code_u32 DiameterRedirectIndication then
            let r2 = r1\<lparr>r_mgr := (r_mgr r1)\<lparr>cm_redirects := add_redirect (cm_redirects (r_mgr r1)) (r_now r1) answer\<rparr>\<rparr> in
            case get_redirect_hosts answer of
              Some hosts \<Rightarrow> follow_redirect env request timeout_time hosts r2
            | None \<Rightarrow>
                if timeout_time \<le> r_now r2 then (Err TotalTimeout, r2)
                else send_loop env request timeout_time cs r2
          else (Ok answer, r1))"

definition send_request :: "env \<Rightarrow> command \<Rightarrow> run \<Rightarrow> (send_error, command) outcome \<times> run" where
  "send_request env request r =
     (case get_connections_for_request env (r_now r) (r_mgr r) request of
        (Ok cs, m1) \<Rightarrow>
          send_loop env request (r_now r + cm_total_timeout m1) cs (r\<lparr>r_mgr := m1\<rparr>)
      | (Err e, m1) \<Rightarrow> (Err e, r\<lparr>r_mgr := m1\<rparr>)
      | (Panic, m1) \<Rightarrow> (Panic, r\<lparr>r_mgr := m1\<rparr>))"

definition response_connection :: "manager \<Rightarrow> string \<Rightarrow> string \<Rightarrow> string \<Rightarrow> conn option" where
  "response_connection m i host realm =
     (case get_connection_by_id m i of
        Some e \<Rightarrow> Some (ce_conn e)
      | None \<Rightarrow> get_connection_by_host_realm m host realm)"

text \<open>The peer connection that took the response, with the response.\<close>

definition send_response ::
  "env \<Rightarrow> nat \<Rightarrow> manager \<Rightarrow> string \<Rightarrow> string \<Rightarrow> string \<Rightarrow> command
   \<Rightarrow> (send_error, nat \<times> command) outcome \<times> manager" where
  "send_response env k m i host realm response =
     (case response_connection m i host realm of
        Some c \<Rightarrow>
          (case conn_send (e_up env k) (e_rnd env) (cm_lb m) c of
             (Ok h, lb) \<Rightarrow> (Ok (h, response), m\<lparr>cm_lb := lb\<rparr>)
           | (Err e, lb) \<Rightarrow> (Err (SendFailed e), m\<lparr>cm_lb := lb\<rparr>)
           | (Panic, lb) \<Rightarrow> (Panic, m\<lparr>cm_lb := lb\<rparr>))
      | None \<Rightarrow> (Err NoConnection, m))"

section \<open>Time, fields, attempts\<close>

text \<open>The configuration of a manager, which no request changes.\<close>

definition same_config :: "manager \<Rightarrow> manager \<Rightarrow> bool" where
  "same_config m m' \<longleftrightarrow> cm_retryable m' = cm_retryable m \<and> cm_total_timeout m' = cm_total_timeout m
     \<and> cm_per_conn_timeout m' = cm_per_conn_timeout m \<and> cm_connections m' = cm_connections m
     \<and> cm_host_realm m' = cm_host_realm m \<and> cm_routing m' = cm_routing m"

lemma same_config_refl [simp]: "same_config m m"
  by (simp add: same_config_def)

lemma same_config_trans: "same_config m m' \<Longrightarrow> same_config m' m'' \<Longrightarrow> same_config m m''"
  by (simp add: same_config_def)

lemma same_config_upd [simp]:
  "same_config m (m'\<lparr>cm_lb := x\<rparr>) = same_config m m'"
  "same_config m (m'\<lparr>cm_redirects := y\<rparr>) = same_config m m'"
  "same_config m (m'\<lparr>cm_retried := z\<rparr>) = same_config m m'"
  by (simp_all add: same_config_def)

text \<open>What one step of a run may do before the deadline \<open>T\<close>.\<close>

definition advances :: "instant \<Rightarrow> run \<Rightarrow> run \<Rightarrow> bool" where
  "advances T r r' \<longleftrightarrow> r_now r \<le> r_now r' \<and> (r_now r \<le> T \<longrightarrow> r_now r' \<le> T)
     \<and> r_attempts r \<le> r_attempts r' \<and> same_config (r_mgr r) (r_mgr r')"

lemma advances_refl [simp]: "advances T r r"
  by (simp add: advances_def)

lemma advances_trans: "advances T r r' \<Longrightarrow> advances T r' r'' \<Longrightarrow> advances T r r''"
  by (auto simp: advances_def intro: same_config_trans)

text \<open>An answer the answer manager handed over for this request in one of the attempts.\<close>

definition received :: "env \<Rightarrow> command \<Rightarrow> run \<Rightarrow> run \<Rightarrow> command \<Rightarrow> bool" where
  "received env request r r' a \<longleftrightarrow>
     (\<exists>k. r_attempts r \<le> k \<and> k < r_attempts r'
        \<and> wait_answer (e_wait_begins env k) (e_wait_ends env k) (c_hop_by_hop_id request) = Some (Some a))"

definition final_answer :: "manager \<Rightarrow> command \<Rightarrow> bool" where
  "final_answer m a \<longleftrightarrow> result_code_or_success a \<notin> set (cm_retryable m)"

lemma send_request_command_Ok:
  "send_request_command env k lb c request = (Some (Ok a), lb') \<Longrightarrow>
   wait_answer (e_wait_begins env k) (e_wait_ends env k) (c_hop_by_hop_id request) = Some (Some a)"
  by (auto simp: send_request_command_def split: prod.splits outcome.splits option.splits)

lemma send_request_with_timeout_facts:
  assumes "send_request_with_timeout env request c T r = (x, r')"
  shows "advances T r r'" "r_attempts r' \<le> r_attempts r + 1"
    and "x = Ok a \<Longrightarrow> received env request r r' a \<and> final_answer (r_mgr r) a"
    and "T \<le> r_now r \<and> x = Err TotalTimeout \<and> r' = r \<or> r_attempts r' = r_attempts r + 1"
proof -
  obtain reply lb where q: "send_request_command env (r_attempts r) (cm_lb (r_mgr r)) c request = (reply, lb)"
    by fastforce
  show "advances T r r'" "r_attempts r' \<le> r_attempts r + 1"
    using assms q
    by (auto simp: send_request_with_timeout_def Let_def advances_def split: if_splits outcome.splits)
  show "received env request r r' a \<and> final_answer (r_mgr r) a" if "x = Ok a"
  proof -
    have r: "reply = Some (Ok a)" "r_attempts r' = r_attempts r + 1" "final_answer (r_mgr r) a"
      using assms q that
      by (auto simp: send_request_with_timeout_def Let_def final_answer_def split: if_splits outcome.splits)
    have "wait_answer (e_wait_begins env (r_attempts r)) (e_wait_ends env (r_attempts r)) (c_hop_by_hop_id request)
        = Some (Some a)"
      by (rule send_request_command_Ok) (use q r(1) in simp)
    then have "received env request r r' a"
      unfolding received_def by (intro exI [of _ "r_attempts r"]) (simp add: r(2))
    then show ?thesis using r(3) by simp
  qed
  show "T \<le> r_now r \<and> x = Err TotalTimeout \<and> r' = r \<or> r_attempts r' = r_attempts r + 1"
    using assms q
    by (auto simp: send_request_with_timeout_def Let_def split: if_splits outcome.splits)
qed

lemma received_mono:
  "received env q r r' a \<Longrightarrow> advances T r0 r \<Longrightarrow> advances T r' r1 \<Longrightarrow> received env q r0 r1 a"
  unfolding received_def advances_def by (meson le_trans less_le_trans)

lemma final_answer_same: "advances T r r' \<Longrightarrow> final_answer (r_mgr r') a = final_answer (r_mgr r) a"
  by (simp add: final_answer_def advances_def same_config_def)

text \<open>The two loops end with one of these.\<close>

definition loop_result ::
  "env \<Rightarrow> command \<Rightarrow> instant \<Rightarrow> run \<Rightarrow> (send_error, command) outcome \<times> run \<Rightarrow> bool" where
  "loop_result env request T r res \<longleftrightarrow>
     advances T r (snd res)
     \<and> (\<forall>a. fst res = Ok a \<longrightarrow> received env request r (snd res) a \<and> final_answer (r_mgr r) a)"

lemma loop_result_step:
  assumes "advances T r r1" "loop_result env request T r1 res"
  shows "loop_result env request T r res"
  using assms advances_trans received_mono [of env request r1 "snd res" _ T r "snd res"]
    final_answer_same [OF assms(1)]
  by (auto simp: loop_result_def)

lemma loop_result_now:
  "send_request_with_timeout env request c T r = (x, r') \<Longrightarrow> loop_result env request T r (x, r')"
  using send_request_with_timeout_facts [of env request c T r x r'] by (simp add: loop_result_def)

lemma loop_result_Err [simp]: "advances T r r' \<Longrightarrow> loop_result env request T r (Err e, r')"
  by (simp add: loop_result_def)

lemma loop_result_Panic [simp]: "advances T r r' \<Longrightarrow> loop_result env request T r (Panic, r')"
  by (simp add: loop_result_def)

lemma redirect_request_result: "loop_result env request T r (redirect_request env request T cs r)"
proof (induction cs arbitrary: r)
  case (Cons c cs)
  obtain x r1 where s: "send_request_with_timeout env request c T r = (x, r1)" by fastforce
  note f = send_request_with_timeout_facts(1) [OF s]
  show ?case
    using s f loop_result_now [OF s] loop_result_step [OF f Cons.IH] by (cases x) auto
qed simp

lemma advances_mgr: "same_config (r_mgr r) m \<Longrightarrow> advances T r (r\<lparr>r_mgr := m\<rparr>)"
  by (simp add: advances_def)

lemma get_connections_by_hosts_config:
  "get_connections_by_hosts env m hosts = (x, m') \<Longrightarrow> same_config m m'"
  by (auto simp: get_connections_by_hosts_def Let_def split: prod.splits)

lemma follow_redirect_result: "loop_result env request T r (follow_redirect env request T hosts r)"
proof -
  obtain x m1 where g: "get_connections_by_hosts env (r_mgr r) hosts = (x, m1)" by fastforce
  have a: "advances T r (r\<lparr>r_mgr := m1\<rparr>)"
    by (rule advances_mgr) (rule get_connections_by_hosts_config [OF g])
  show ?thesis
    using g a loop_result_step [OF a redirect_request_result]
    by (cases x) (auto simp: follow_redirect_def)
qed

lemma send_loop_result: "loop_result env request T r (send_loop env request T cs r)"
proof (induction cs arbitrary: r)
  case (Cons c cs)
  obtain x r1 where s: "send_request_with_timeout env request c T r = (x, r1)" by fastforce
  note f = send_request_with_timeout_facts(1) [OF s]
  let ?r2 = "\<lambda>a. r1\<lparr>r_mgr := (r_mgr r1)\<lparr>cm_redirects := add_redirect (cm_redirects (r_mgr r1)) (r_now r1) a\<rparr>\<rparr>"
  have r2: "advances T r (?r2 a)" for a
    by (rule advances_trans [OF f advances_mgr]) simp
  show ?case
  proof (cases x)
    case (Ok a)
    then show ?thesis
      using s loop_result_now [OF s] loop_result_step [OF r2 follow_redirect_result]
      by (auto simp: Let_def get_redirect_hosts_def)
  qed (use s f loop_result_step [OF f Cons.IH] in auto)
qed simp

lemma get_connections_for_request_config:
  "get_connections_for_request env now m request = (x, m') \<Longrightarrow> same_config m m'"
  by (auto simp: get_connections_for_request_def get_redirect_connections_def get_connections_by_hosts_def
      Let_def split: prod.splits option.splits if_splits)

lemma send_loop_gives_up:
  assumes "send_loop env request T cs r = (Err FailToSend, r')" "r_now r < T"
  shows "r_attempts r' = r_attempts r + length cs"
  using assms
proof (induction cs arbitrary: r)
  case (Cons c cs)
  obtain x r1 where s: "send_request_with_timeout env request c T r = (x, r1)" by fastforce
  have a: "r_attempts r1 = r_attempts r + 1" using send_request_with_timeout_facts(4) [OF s] Cons.prems(2) by simp
  have "redirect_request env request T ds r2 \<noteq> (Err FailToSend, r')" for ds r2
    by (induction ds arbitrary: r2) (auto split: prod.splits outcome.splits)
  then have f: "follow_redirect env request T hosts r2 \<noteq> (Err FailToSend, r')" for hosts r2
    by (auto simp: follow_redirect_def split: prod.splits option.splits)
  obtain e where "x = Err e" "r_now r1 < T" "send_loop env request T cs r1 = (Err FailToSend, r')"
    using Cons.prems(1) s f by (cases x) (auto simp: Let_def get_redirect_hosts_def not_le split: if_splits)
  then show ?case using Cons.IH a by simp
qed simp

section \<open>The registry\<close>

text \<open>What is registered under \<open>host@realm\<close> is a container.\<close>

definition registry_ok :: "manager \<Rightarrow> bool" where
  "registry_ok m \<longleftrightarrow> (\<forall>k c. cm_host_realm m k = Some c \<longrightarrow> is_container c)"

definition host_realm_leaves :: "manager \<Rightarrow> string \<Rightarrow> nat multiset" where
  "host_realm_leaves m k = (case cm_host_realm m k of Some c \<Rightarrow> conn_leaves c | None \<Rightarrow> {#})"

lemma conn_add_connection_container:
  "is_container c \<Longrightarrow> is_container (conn_add_connection c d)
     \<and> conn_leaves (conn_add_connection c d) = conn_leaves c + conn_leaves d"
  by (cases c) (simp_all add: list_add_connection_def)

lemma cm_add_connection_simps:
  "cm_connections (cm_add_connection m i e) = AList.update i e (cm_connections m)"
  "cm_host_realm (cm_add_connection m i e) = (cm_host_realm m)
     (peer_key (ce_host e) (ce_realm e) \<mapsto>
        conn_add_connection (case cm_host_realm m (peer_key (ce_host e) (ce_realm e)) of
             Some c \<Rightarrow> c | None \<Rightarrow> Node (cm_fresh m) RoundRobin []) (ce_conn e))"
  by (simp_all add: cm_add_connection_def Let_def split: option.split)

lemma cm_add_connection_registry:
  assumes "registry_ok m"
  shows "registry_ok (cm_add_connection m i e)"
    and "host_realm_leaves (cm_add_connection m i e) k =
      (if k = peer_key (ce_host e) (ce_realm e) then host_realm_leaves m k + conn_leaves (ce_conn e)
       else host_realm_leaves m k)"
  using assms conn_add_connection_container [of _ "ce_conn e"]
  by (auto simp: registry_ok_def host_realm_leaves_def cm_add_connection_simps split: option.splits)

lemma forget_names_registry: "registry_ok m \<Longrightarrow> registry_ok (forget_names m e)"
  by (auto simp: registry_ok_def forget_names_def)

lemma underlying_leaves:
  "\<exists>hs. fst (get_underlying_connections rnd lb c) = map Leaf hs \<and> mset hs = conn_leaves c"
  using underlying_loop_leaves [of rnd lb "[c]" "[]"] by (auto simp: get_underlying_connections_def)

lemma offered_leaves:
  assumes "cm_host_realm m (peer_key host realm) = Some c"
    and "get_destination_host request = Some host" "get_destination_realm request = Some realm"
    and "fst (get_redirect (cm_redirects m) now request) = None"
  shows "\<exists>hs. fst (get_connections_for_request env now m request) = Ok (map Leaf hs)
    \<and> mset hs = host_realm_leaves m (peer_key host realm)"
proof -
  obtain rcs where "get_redirect (cm_redirects m) now request = (None, rcs)"
    using assms(4) by (cases "get_redirect (cm_redirects m) now request") auto
  then show ?thesis
    using assms underlying_leaves [of "e_rnd env" "cm_lb m" c]
    by (auto simp: get_connections_for_request_def get_redirect_connections_def str_or_default_def
        host_realm_leaves_def Let_def split: prod.splits)
qed

lemma send_request_result:
  "loop_result env request (r_now r + cm_total_timeout (r_mgr r)) r (send_request env request r)"
proof -
  obtain cs m1 where g: "get_connections_for_request env (r_now r) (r_mgr r) request = (cs, m1)" by fastforce
  have c: "same_config (r_mgr r) m1" by (rule get_connections_for_request_config [OF g])
  let ?T = "r_now r + cm_total_timeout (r_mgr r)"
  have a: "advances ?T r (r\<lparr>r_mgr := m1\<rparr>)" by (rule advances_mgr [OF c])
  have T: "cm_total_timeout m1 = cm_total_timeout (r_mgr r)" using c by (simp add: same_config_def)
  show ?thesis
    using loop_result_step [OF a send_loop_result] a g T
    by (cases cs) (auto simp: send_request_def)
qed

section \<open>Properties\<close>

text \<open>C7. A request is over by its total timeout: \<open>send_request\<close> returns no later than
  \<open>total_timeout\<close> after it began, through retries and redirection. An answer it returns is
  one the answer manager handed over for the request's hop-by-hop id in one of the attempts, and its
  result code is not retryable.\<close>

theorem send_request_bounded:
  "case send_request env request r of (x, r') \<Rightarrow>
     r_now r \<le> r_now r' \<and> r_now r' \<le> r_now r + cm_total_timeout (r_mgr r)
     \<and> (case x of Ok a \<Rightarrow> received env request r r' a \<and> final_answer (r_mgr r) a | Err e \<Rightarrow> True | Panic \<Rightarrow> True)"
  using send_request_result [of env request r]
  by (cases "send_request env request r") (auto simp: loop_result_def advances_def split: outcome.split)

text \<open>\<open>send_request\<close> gives up with "Fail to send command" only after it has tried every
  connection chosen for the request, each once.\<close>

theorem send_request_tries_all:
  assumes "send_request env request r = (Err FailToSend, r')" "0 < cm_total_timeout (r_mgr r)"
    and "get_connections_for_request env (r_now r) (r_mgr r) request = (Ok cs, m1)"
  shows "r_attempts r' = r_attempts r + length cs"
proof -
  have "cm_total_timeout m1 = cm_total_timeout (r_mgr r)"
    using get_connections_for_request_config [OF assms(3)] by (simp add: same_config_def)
  then show ?thesis
    using send_loop_gives_up [of env request _ cs "r\<lparr>r_mgr := m1\<rparr>" r'] assms by (simp add: send_request_def)
qed

text \<open>A registered connection is found: by its id, and under its \<open>host@realm\<close> together
  with those registered there before. Without a cached redirection a request to that host and realm
  is offered to every peer connection below, each once. The registry stays well formed.\<close>

theorem added_connection_found:
  assumes "registry_ok m" "m' = cm_add_connection m i e"
  shows "registry_ok m' \<and> get_connection_by_id m' i = Some e
    \<and> (\<forall>j. j \<noteq> i \<longrightarrow> get_connection_by_id m' j = get_connection_by_id m j)
    \<and> host_realm_leaves m' (peer_key (ce_host e) (ce_realm e)) =
        host_realm_leaves m (peer_key (ce_host e) (ce_realm e)) + conn_leaves (ce_conn e)
    \<and> (\<forall>env now request. get_destination_host request = Some (ce_host e) \<longrightarrow>
        get_destination_realm request = Some (ce_realm e) \<longrightarrow>
        fst (get_redirect (cm_redirects m') now request) = None \<longrightarrow>
        (\<exists>hs. fst (get_connections_for_request env now m' request) = Ok (map Leaf hs)
           \<and> mset hs = host_realm_leaves m' (peer_key (ce_host e) (ce_realm e))))"
proof -
  let ?k = "peer_key (ce_host e) (ce_realm e)"
  obtain c where c: "cm_host_realm m' ?k = Some c" using assms(2) by (simp add: cm_add_connection_simps)
  note offered_leaves [OF c]
  then show ?thesis
    using cm_add_connection_registry [OF assms(1)] assms(2)
    by (auto simp: get_connection_by_id_def cm_add_connection_simps update_conv')
qed

definition example_env :: env where
  "example_env =
     \<lparr>e_up = (\<lambda>_ _. False), e_rnd = (\<lambda>_ _. 0), e_wait_begins = (\<lambda>_. answer_manager_new 0),
      e_wait_ends = (\<lambda>_. answer_manager_new 0), e_elapsed = (\<lambda>_. 1), e_order = (\<lambda>xs. xs)\<rparr>"

definition example_manager :: manager where
  "example_manager =
     cm_add_connection (new_manager 5 10 None [] (redirect_caches_new 0) \<lparr>lb_index = \<lambda>_. 0, lb_draws = 0\<rparr> 0) ''c1''
       \<lparr>ce_conn = Leaf 1, ce_host = ''h'', ce_realm = ''x''\<rparr>"

definition example_request :: command where
  "example_request = set_destination_host (set_destination_realm (command_new 272 0x80 4 7 9 []) ''x'') ''h''"

theorem send_request_tries_all_witness:
  "let r = \<lparr>r_mgr = example_manager, r_now = 0, r_attempts = 0\<rparr> in
   r_attempts (snd (send_request example_env example_request r)) = 1"
proof -
  let ?r = "\<lparr>r_mgr = example_manager, r_now = 0, r_attempts = 0\<rparr>"
  have "fst (get_connections_for_request example_env 0 example_manager example_request) = Ok [Leaf 1]" by code_simp
  then obtain m1 where g: "get_connections_for_request example_env (r_now ?r) (r_mgr ?r) example_request = (Ok [Leaf 1], m1)"
    by (cases "get_connections_for_request example_env 0 example_manager example_request") auto
  have "fst (send_request example_env example_request ?r) = Err FailToSend" by code_simp
  then have "send_request example_env example_request ?r = (Err FailToSend, snd (send_request example_env example_request ?r))"
    by (cases "send_request example_env example_request ?r") auto
  moreover have "0 < cm_total_timeout (r_mgr ?r)" by code_simp
  ultimately show ?thesis
    using send_request_tries_all [of example_env example_request ?r _ "[Leaf 1]" m1] g by simp
qed

theorem added_connection_found_witness:
  "get_connection_by_id example_manager ''c1'' = Some \<lparr>ce_conn = Leaf 1, ce_host = ''h'', ce_realm = ''x''\<rparr>
   \<and> host_realm_leaves example_manager ''h@x'' = {#1#}"
proof -
  let ?m = "new_manager 5 10 None [] (redirect_caches_new 0) \<lparr>lb_index = \<lambda>_. 0, lb_draws = 0\<rparr> 0"
  have "registry_ok ?m" by (simp add: registry_ok_def new_manager_def)
  moreover have "host_realm_leaves ?m k = {#}" for k by (simp add: host_realm_leaves_def new_manager_def)
  ultimately show ?thesis
    using added_connection_found [of ?m example_manager "''c1''" "\<lparr>ce_conn = Leaf 1, ce_host = ''h'', ce_realm = ''x''\<rparr>"]
    by (simp add: example_manager_def peer_key_def)
qed

text \<open>C32. Removing one of several connections to the same host and realm drops the whole group: the
  others stay registered by id, but nothing is found under their \<open>host@realm\<close> any more, and
  without routing a request to them is refused.\<close>

theorem removal_drops_group:
  assumes "ce_host e = ce_host f" "ce_realm e = ce_realm f" "i \<noteq> j" "cm_routing m = None"
    and "m' = cm_remove_connection (cm_add_connection (cm_add_connection m j f) i e) i e"
  shows "get_connection_by_id m' j = Some f
    \<and> get_connection_by_host_realm m' (ce_host f) (ce_realm f) = None
    \<and> (\<forall>env now request. get_destination_host request = Some (ce_host f) \<longrightarrow>
        get_destination_realm request = Some (ce_realm f) \<longrightarrow>
        fst (get_redirect (cm_redirects m') now request) = None \<longrightarrow>
        fst (get_connections_for_request env now m' request) = Err NoConnection)"
proof -
  have n: "cm_host_realm m' (peer_key (ce_host f) (ce_realm f)) = None"
    using assms by (simp add: cm_remove_connection_def forget_names_def)
  have r: "cm_routing m' = None"
    using assms(4,5) by (simp add: cm_remove_connection_def forget_names_def cm_add_connection_def Let_def split: option.split)
  have "fst (get_connections_for_request env now m' request) = Err NoConnection"
    if "get_destination_host request = Some (ce_host f)" "get_destination_realm request = Some (ce_realm f)"
      "fst (get_redirect (cm_redirects m') now request) = None" for env now request
    using that n r
    by (cases "get_redirect (cm_redirects m') now request")
       (simp add: get_connections_for_request_def get_redirect_connections_def str_or_default_def Let_def)
  moreover have "get_connection_by_id m' j = Some f"
    using assms
    by (simp add: get_connection_by_id_def cm_remove_connection_def forget_names_def cm_add_connection_simps
        delete_conv' update_conv')
  ultimately show ?thesis using n by (simp add: get_connection_by_host_realm_def)
qed

theorem removal_drops_group_witness:
  "let e = \<lparr>ce_conn = Leaf 2, ce_host = ''h'', ce_realm = ''x''\<rparr>;
       m' = cm_remove_connection (cm_add_connection example_manager ''c2'' e) ''c2'' e in
   get_connection_by_id m' ''c1'' = Some \<lparr>ce_conn = Leaf 1, ce_host = ''h'', ce_realm = ''x''\<rparr>
   \<and> get_connection_by_host_realm m' ''h'' ''x'' = None"
  using removal_drops_group [of "\<lparr>ce_conn = Leaf 2, ce_host = ''h'', ce_realm = ''x''\<rparr>"
      "\<lparr>ce_conn = Leaf 1, ce_host = ''h'', ce_realm = ''x''\<rparr>" "''c2''" "''c1''"
      "new_manager 5 10 None [] (redirect_caches_new 0) \<lparr>lb_index = \<lambda>_. 0, lb_draws = 0\<rparr> 0"]
  by (simp add: example_manager_def new_manager_def Let_def)

end
