(* ===== verification/Manager_Locks.thy ===== *)
theory Manager_Locks
  imports Connection_Manager
begin

text \<open>
  The mutexes of the connection manager (\<open>transport/connection_manager.rs\<close>) and the order in
  which its operations take them: those of the map of connections, of the host-realm map, of the
  redirect caches, and of the list of children of every container
  (\<open>transport/connection_list.rs\<close>). Tasks run concurrently; an operation is the sequence of
  its acquisitions and releases, and a task blocks on a mutex another task holds. A guard lives to the
  end of its block; in the 2024 edition the guard in the condition of an \<open>if let\<close> is
  dropped before the \<open>else\<close>. Nothing but a mutex is awaited while one is held.
\<close>

datatype mutex = Connections_Mutex | Host_Realm_Mutex | Redirect_Mutex | List_Mutex nat

datatype lock_op = Acquire mutex | Release mutex

definition guarded :: "mutex \<Rightarrow> lock_op list \<Rightarrow> lock_op list" where
  "guarded x body = Acquire x # body @ [Release x]"

text \<open>The containers an operation looks at, one after the other, each under its own mutex.\<close>

definition list_locks :: "nat list \<Rightarrow> lock_op list" where
  "list_locks ls = concat (map (\<lambda>i. guarded (List_Mutex i) []) ls)"

text \<open>\<open>add_connection\<close>: the containers of the routing, then both maps and the group of the peer.\<close>

definition add_connection_locks :: "nat list \<Rightarrow> nat \<Rightarrow> lock_op list" where
  "add_connection_locks routing peers =
     list_locks routing @ guarded Connections_Mutex (guarded Host_Realm_Mutex (list_locks [peers]))"

text \<open>\<open>remove_connection_by_id\<close> of a known id, with the containers of the routing, and of
  an unknown one.\<close>

definition remove_connection_by_id_locks :: "nat list option \<Rightarrow> lock_op list" where
  "remove_connection_by_id_locks found =
     (case found of
        Some routing \<Rightarrow> guarded Connections_Mutex (list_locks routing @ guarded Host_Realm_Mutex [])
      | None \<Rightarrow> guarded Connections_Mutex [])"

definition get_connection_by_id_locks :: "lock_op list" where
  "get_connection_by_id_locks = guarded Connections_Mutex []"

definition get_connection_by_host_realm_locks :: "lock_op list" where
  "get_connection_by_host_realm_locks = guarded Host_Realm_Mutex []"

text \<open>With the containers below the redirect hosts, when there is a redirect.\<close>

definition get_redirect_connections_locks :: "nat list option \<Rightarrow> lock_op list" where
  "get_redirect_connections_locks redirect =
     guarded Redirect_Mutex [] @
     (case redirect of Some ls \<Rightarrow> guarded Connections_Mutex (list_locks ls) | None \<Rightarrow> [])"

definition get_connections_by_hosts_locks :: "nat list \<Rightarrow> lock_op list" where
  "get_connections_by_hosts_locks ls = guarded Connections_Mutex (list_locks ls)"

datatype request_route = Through_Redirect | Direct "nat list" | Routed "nat list"

definition get_connections_for_request_locks :: "nat list option \<Rightarrow> request_route \<Rightarrow> lock_op list" where
  "get_connections_for_request_locks redirect route =
     get_redirect_connections_locks redirect @
     (case route of
        Through_Redirect \<Rightarrow> []
      | Direct ls \<Rightarrow> guarded Host_Realm_Mutex (list_locks ls)
      | Routed ls \<Rightarrow> guarded Host_Realm_Mutex [] @ list_locks ls)"

definition add_redirect_locks :: "lock_op list" where
  "add_redirect_locks = guarded Redirect_Mutex []"

text \<open>\<open>remove_connection\<close>, which no part of the program calls.\<close>

definition remove_connection_locks :: "nat list \<Rightarrow> lock_op list" where
  "remove_connection_locks routing =
     list_locks routing @ guarded Host_Realm_Mutex (guarded Connections_Mutex [])"

text \<open>The operations the program calls; a send goes through the lists of the containers it tries,
  and \<open>send_request\<close> and \<open>send_response\<close> are sequences of these.\<close>

datatype manager_op =
    Add_Connection "nat list" nat
  | Remove_Connection_By_Id "nat list option"
  | Get_Connection_By_Id
  | Get_Connection_By_Host_Realm
  | Get_Connections_By_Hosts "nat list"
  | Get_Connections_For_Request "nat list option" request_route
  | Add_Redirect
  | Conn_Send "nat list"

fun op_locks :: "manager_op \<Rightarrow> lock_op list" where
  "op_locks (Add_Connection routing peers) = add_connection_locks routing peers"
| "op_locks (Remove_Connection_By_Id found) = remove_connection_by_id_locks found"
| "op_locks Get_Connection_By_Id = get_connection_by_id_locks"
| "op_locks Get_Connection_By_Host_Realm = get_connection_by_host_realm_locks"
| "op_locks (Get_Connections_By_Hosts ls) = get_connections_by_hosts_locks ls"
| "op_locks (Get_Connections_For_Request redirect route) = get_connections_for_request_locks redirect route"
| "op_locks Add_Redirect = add_redirect_locks"
| "op_locks (Conn_Send ls) = list_locks ls"

definition task_locks :: "manager_op list \<Rightarrow> lock_op list" where
  "task_locks ops = concat (map op_locks ops)"

section \<open>Tasks\<close>

record lock_state =
  l_holder :: "mutex \<rightharpoonup> nat"
  l_todo :: "nat \<Rightarrow> lock_op list"

definition start_locks :: "(nat \<Rightarrow> lock_op list) \<Rightarrow> lock_state" where
  "start_locks todo = \<lparr>l_holder = Map.empty, l_todo = todo\<rparr>"

inductive lock_step :: "lock_state \<Rightarrow> lock_state \<Rightarrow> bool" where
  acquire: "l_todo s t = Acquire x # ops \<Longrightarrow> l_holder s x = None \<Longrightarrow>
    lock_step s (s\<lparr>l_holder := (l_holder s)(x \<mapsto> t), l_todo := (l_todo s)(t := ops)\<rparr>)"
| release: "l_todo s t = Release x # ops \<Longrightarrow> l_holder s x = Some t \<Longrightarrow>
    lock_step s (s\<lparr>l_holder := (l_holder s)(x := None), l_todo := (l_todo s)(t := ops)\<rparr>)"

inductive_cases lock_stepE: "lock_step s s'"

definition finished :: "lock_state \<Rightarrow> bool" where
  "finished s \<longleftrightarrow> (\<forall>t. l_todo s t = [])"

definition stuck :: "lock_state \<Rightarrow> bool" where
  "stuck s \<longleftrightarrow> \<not> finished s \<and> (\<forall>s'. \<not> lock_step s s')"

section \<open>The order of the mutexes\<close>

text \<open>A task that holds the mutexes of \<open>H\<close> keeps to the order when it takes a mutex only above
  all it holds, releases only what it holds, and ends with nothing held.\<close>

fun rank :: "mutex \<Rightarrow> nat" where
  "rank Connections_Mutex = 0"
| "rank Host_Realm_Mutex = 1"
| "rank Redirect_Mutex = 2"
| "rank (List_Mutex i) = 2"

fun in_order :: "mutex set \<Rightarrow> lock_op list \<Rightarrow> bool" where
  "in_order H [] \<longleftrightarrow> H = {}"
| "in_order H (Acquire x # ops) \<longleftrightarrow> (\<forall>y\<in>H. rank y < rank x) \<and> in_order (insert x H) ops"
| "in_order H (Release x # ops) \<longleftrightarrow> x \<in> H \<and> in_order (H - {x}) ops"

text \<open>A part of a program that leaves the mutexes held as they were.\<close>

definition neutral :: "mutex set \<Rightarrow> lock_op list \<Rightarrow> bool" where
  "neutral H ops \<longleftrightarrow> (\<forall>rest. in_order H rest \<longrightarrow> in_order H (ops @ rest))"

lemma neutral_Nil [simp]: "neutral H []"
  by (simp add: neutral_def)

lemma neutral_append: "neutral H a \<Longrightarrow> neutral H b \<Longrightarrow> neutral H (a @ b)"
  by (simp add: neutral_def)

lemma neutral_guarded:
  assumes "\<forall>y\<in>H. rank y < rank x" "neutral (insert x H) body"
  shows "neutral H (guarded x body)"
proof -
  have "insert x H - {x} = H" using assms(1) by auto
  then show ?thesis using assms by (simp add: neutral_def guarded_def)
qed

lemma neutral_list_locks: "\<forall>y\<in>H. rank y < 2 \<Longrightarrow> neutral H (list_locks ls)"
  by (induction ls) (simp_all add: list_locks_def neutral_append neutral_guarded)

lemma neutral_op: "neutral {} (op_locks op)"
  by (cases op rule: op_locks.cases)
    (auto simp: add_connection_locks_def remove_connection_by_id_locks_def get_connection_by_id_locks_def
      get_connection_by_host_realm_locks_def get_connections_by_hosts_locks_def get_connections_for_request_locks_def
      get_redirect_connections_locks_def add_redirect_locks_def
      intro!: neutral_append neutral_guarded neutral_list_locks split: option.split request_route.split)

lemma task_in_order: "in_order {} (task_locks ops)"
proof -
  have "neutral {} (task_locks ops)" by (induction ops) (simp_all add: task_locks_def neutral_append neutral_op)
  then have "in_order {} (task_locks ops @ [])" unfolding neutral_def by (metis in_order.simps(1))
  then show ?thesis by simp
qed

section \<open>Tasks that keep to the order\<close>

definition holds :: "lock_state \<Rightarrow> nat \<Rightarrow> mutex set" where
  "holds s t = {x. l_holder s x = Some t}"

definition all_in_order :: "lock_state \<Rightarrow> bool" where
  "all_in_order s \<longleftrightarrow> (\<forall>t. in_order (holds s t) (l_todo s t))"

lemma holds_acquire:
  "l_holder s x = None \<Longrightarrow>
   holds (s\<lparr>l_holder := (l_holder s)(x \<mapsto> t), l_todo := f\<rparr>) u = (if u = t then insert x (holds s t) else holds s u)"
  by (auto simp: holds_def split: if_splits)

lemma holds_release:
  "l_holder s x = Some t \<Longrightarrow>
   holds (s\<lparr>l_holder := (l_holder s)(x := None), l_todo := f\<rparr>) u = (if u = t then holds s t - {x} else holds s u)"
  by (auto simp: holds_def split: if_splits)

lemma all_in_order_step:
  assumes "lock_step s s'" "all_in_order s"
  shows "all_in_order s'"
  using assms(1)
proof (cases rule: lock_step.cases)
  case (acquire t x ops)
  have "in_order (holds s t) (Acquire x # ops)" using assms(2) acquire(2) unfolding all_in_order_def by metis
  then show ?thesis
    using assms(2) acquire holds_acquire [OF acquire(3)] by (simp add: all_in_order_def)
next
  case (release t x ops)
  have "in_order (holds s t) (Release x # ops)" using assms(2) release(2) unfolding all_in_order_def by metis
  then show ?thesis
    using assms(2) release holds_release [OF release(3)] by (simp add: all_in_order_def)
qed

text \<open>A task that holds a mutex of the highest rank any task holds can go on.\<close>

lemma highest_holder_steps:
  assumes "all_in_order s" "l_holder s x = Some t" "\<And>y u. l_holder s y = Some u \<Longrightarrow> rank y \<le> rank x"
  shows "\<exists>s'. lock_step s s'"
proof -
  have o: "in_order (holds s t) (l_todo s t)" and x: "x \<in> holds s t"
    using assms(1,2) by (simp_all add: all_in_order_def holds_def)
  show ?thesis
  proof (cases "l_todo s t")
    case Nil
    then show ?thesis using o x by auto
  next
    case (Cons op ops)
    show ?thesis
    proof (cases op)
      case (Acquire y)
      then have "rank x < rank y" using o x Cons by auto
      then have "l_holder s y = None" using assms(3) by (metis not_le option.exhaust)
      then show ?thesis using Cons Acquire lock_step.acquire by blast
    next
      case (Release y)
      then have "l_holder s y = Some t" using o Cons by (simp add: holds_def)
      then show ?thesis using Cons Release lock_step.release by blast
    qed
  qed
qed

lemma all_in_order_progress:
  assumes "all_in_order s" "\<not> finished s"
  shows "\<exists>s'. lock_step s s'"
proof (cases "\<exists>x t. l_holder s x = Some t")
  case True
  have "rank y < 3" for y by (cases y) simp_all
  moreover obtain x0 where "l_holder s x0 \<noteq> None" using True by auto
  ultimately have "\<exists>x. l_holder s x \<noteq> None \<and> (\<forall>y. l_holder s y \<noteq> None \<longrightarrow> rank y \<le> rank x)"
    by (intro ex_has_greatest_nat [where b = 3 and k = x0]) simp_all
  then obtain x where "l_holder s x \<noteq> None" "\<And>y. l_holder s y \<noteq> None \<Longrightarrow> rank y \<le> rank x" by blast
  then show ?thesis using highest_holder_steps [OF assms(1), of x] by auto
next
  case False
  obtain t op ops where t: "l_todo s t = op # ops" using assms(2) by (auto simp: finished_def neq_Nil_conv)
  have "holds s t = {}" using False by (simp add: holds_def)
  then have "in_order {} (op # ops)" using assms(1) t unfolding all_in_order_def by metis
  then obtain x where "op = Acquire x" by (cases op) auto
  then show ?thesis using False t lock_step.acquire by (metis option.exhaust)
qed

text \<open>Every step is one operation of one task.\<close>

lemma lock_step_work:
  assumes "lock_step s s'" "finite {t. l_todo s t \<noteq> []}"
  shows "finite {t. l_todo s' t \<noteq> []}"
    "(\<Sum>t | l_todo s t \<noteq> []. length (l_todo s t)) = Suc (\<Sum>t | l_todo s' t \<noteq> []. length (l_todo s' t))"
proof -
  obtain t op ops where t: "l_todo s t = op # ops" "l_todo s' = (l_todo s)(t := ops)"
    using assms(1) by (auto elim!: lock_stepE)
  let ?A = "{t. l_todo s t \<noteq> []}" and ?B = "{t. l_todo s' t \<noteq> []}"
  have sub: "?B \<subseteq> ?A" using t by (auto split: if_splits)
  then show "finite ?B" using assms(2) by (rule finite_subset)
  have "(\<Sum>u\<in>?B. length (l_todo s' u)) = (\<Sum>u\<in>?A. length (l_todo s' u))"
    by (rule sum.mono_neutral_left [OF assms(2) sub]) auto
  also have "\<dots> = length ops + (\<Sum>u\<in>?A - {t}. length (l_todo s' u))"
    using assms(2) t by (subst sum.remove [of _ t]) auto
  also have "\<dots> = length ops + (\<Sum>u\<in>?A - {t}. length (l_todo s u))" using t by (auto intro: sum.cong)
  finally show "(\<Sum>u\<in>?A. length (l_todo s u)) = Suc (\<Sum>u\<in>?B. length (l_todo s' u))"
    using assms(2) t by (subst sum.remove [of _ t]) auto
qed

lemma lock_run:
  assumes "(lock_step ^^ n) s s'" "all_in_order s" "finite {t. l_todo s t \<noteq> []}"
  shows "all_in_order s' \<and> n \<le> (\<Sum>t | l_todo s t \<noteq> []. length (l_todo s t))"
  using assms
proof (induction n arbitrary: s)
  case (Suc n)
  obtain s1 where s1: "lock_step s s1" "(lock_step ^^ n) s1 s'" using relpowp_Suc_D2 [OF Suc(2)] by blast
  show ?case
    using Suc(1) [OF s1(2) all_in_order_step [OF s1(1) Suc(3)]] lock_step_work [OF s1(1) Suc(4)] by simp
qed simp

section \<open>Properties\<close>



text \<open>With \<open>remove_connection\<close>, which nothing calls, it would not hold: a task that adds a connection and one
  that removes one can each hold the mutex the other waits for.\<close>

theorem add_remove_deadlock:
  "\<exists>s. lock_step\<^sup>*\<^sup>* (start_locks (\<lambda>t. if t = 0 then add_connection_locks [] peers
                                   else if t = 1 then remove_connection_locks [] else [])) s \<and> stuck s"
proof -
  let ?todo = "\<lambda>t :: nat. if t = 0 then add_connection_locks [] peers else if t = 1 then remove_connection_locks [] else []"
  let ?s0 = "start_locks ?todo"
  let ?s1 = "?s0\<lparr>l_holder := (l_holder ?s0)(Connections_Mutex \<mapsto> 0), l_todo := (l_todo ?s0)(0 := drop 1 (?todo 0))\<rparr>"
  let ?s2 = "?s1\<lparr>l_holder := (l_holder ?s1)(Host_Realm_Mutex \<mapsto> 1), l_todo := (l_todo ?s1)(1 := drop 1 (?todo 1))\<rparr>"
  note defs = start_locks_def add_connection_locks_def remove_connection_locks_def list_locks_def guarded_def
  have "lock_step ?s0 ?s1" by (rule lock_step.acquire) (simp_all add: defs)
  moreover have "lock_step ?s1 ?s2" by (rule lock_step.acquire) (simp_all add: defs)
  moreover have "\<not> lock_step ?s2 s" for s
    by (auto elim!: lock_stepE simp: defs split: if_splits)
  moreover have "\<not> finished ?s2" by (auto simp: finished_def defs intro!: exI [of _ 0])
  ultimately show ?thesis unfolding stuck_def by (meson rtranclp.rtrancl_into_rtrancl rtranclp.rtrancl_refl)
qed

end
