(* ===== verification/Command_Processor.thy ===== *)
theory Command_Processor
  imports Connection_Manager Request_Handler
begin

text \<open>
  What a node does with an application command from a peer
  (\<open>transport/command_processor.rs\<close>): reject a looped request, answer a request for this node
  through the command handler, forward any other request under a fresh hop-by-hop id, and send an
  answer back to where its request came from with the id it came with. This composes the identifier
  generator, the hop-by-hop mapper, the answer manager, the connection manager and the handler.

  A node is the shared state of the tasks; \<open>nd_sent\<close> is the log of responses taken by peer
  connections. A handler is run to its end; what other tasks do while it waits for an answer is in
  the oracles of the connection manager.
\<close>

record proc_context =
  cx_connection_id :: string
  cx_my_host :: string
  cx_my_realm :: string
  cx_peer_host :: string
  cx_peer_realm :: string
  cx_handler :: default_handler

record node =
  nd_mgr :: manager
  nd_ids :: id_generator
  nd_mapper :: hbh_mapper
  nd_answers :: answer_manager
  nd_handler :: handler_state
  nd_now :: instant
  nd_attempts :: nat
  nd_sent :: "(nat \<times> command) list"

record outside =
  o_env :: env
  o_platform :: platform
  o_http :: "nat \<Rightarrow> string \<Rightarrow> json \<Rightarrow> http_reply"
  o_parse :: "string \<Rightarrow> json option"

datatype process_error = ResponseFailed send_error | NoMapping u32 u32

definition is_looped_request :: "proc_context \<Rightarrow> command \<Rightarrow> bool" where
  "is_looped_request cx cmd \<longleftrightarrow> is_request cmd \<and> has_record_route cmd (cx_my_host cx)"

definition is_my_command :: "proc_context \<Rightarrow> command \<Rightarrow> bool" where
  "is_my_command cx cmd \<longleftrightarrow>
     str_or_default (get_destination_host cmd) = cx_my_host cx
     \<and> str_or_default (get_destination_realm cmd) = cx_my_realm cx"

text \<open>A response through the connection manager, and the log of it.\<close>

definition respond ::
  "outside \<Rightarrow> string \<Rightarrow> string \<Rightarrow> string \<Rightarrow> command \<Rightarrow> node \<Rightarrow> (process_error, unit) outcome \<times> node" where
  "respond out i host realm response nd =
     (case send_response (o_env out) (nd_attempts nd) (nd_mgr nd) i host realm response of
        (Ok s, m) \<Rightarrow> (Ok (), nd\<lparr>nd_mgr := m, nd_attempts := nd_attempts nd + 1, nd_sent := nd_sent nd @ [s]\<rparr>)
      | (Err e, m) \<Rightarrow> (Err (ResponseFailed e), nd\<lparr>nd_mgr := m, nd_attempts := nd_attempts nd + 1\<rparr>)
      | (Panic, m) \<Rightarrow> (Panic, nd\<lparr>nd_mgr := m, nd_attempts := nd_attempts nd + 1\<rparr>))"

definition own_response :: "proc_context \<Rightarrow> command \<Rightarrow> result_code \<Rightarrow> command" where
  "own_response cx cmd rc =
     set_result_code
       (set_origin_realm (set_origin_host (create_response cmd) (cx_my_host cx)) (cx_my_realm cx))
       (result_code_u32 rc)"

definition reject_looped_request ::
  "outside \<Rightarrow> proc_context \<Rightarrow> command \<Rightarrow> node \<Rightarrow> (process_error, unit) outcome \<times> node" where
  "reject_looped_request out cx cmd nd =
     respond out (cx_connection_id cx) (str_or_default (get_origin_host cmd))
       (str_or_default (get_origin_realm cmd)) (own_response cx cmd DiameterLoopDetected) nd"

text \<open>The answer of the handler is rendered for the log, with the dictionaries the handler has too.\<close>

definition process_local_command ::
  "outside \<Rightarrow> proc_context \<Rightarrow> command \<Rightarrow> node \<Rightarrow> (process_error, unit) outcome \<times> node" where
  "process_local_command out cx cmd nd =
     (case handle_command (o_platform out) (o_http out) (o_parse out) (cx_handler cx) cmd (nd_handler nd) of
        (r, hs) \<Rightarrow>
          let nd1 = nd\<lparr>nd_handler := hs\<rparr> in
          case r of
            Ok (Some answer) \<Rightarrow>
              if log_info (o_platform out)
                 \<and> to_json (o_platform out) answer (dh_command_map (cx_handler cx)) (dh_avp_map (cx_handler cx)) = Panic
              then (Panic, nd1)
              else respond out (cx_connection_id cx) (str_or_default (get_destination_host answer))
                (str_or_default (get_destination_realm answer)) answer nd1
          | Ok None \<Rightarrow> (Ok (), nd1)
          | Err e \<Rightarrow> (Ok (), nd1)
          | Panic \<Rightarrow> (Panic, nd1))"

text \<open>\<open>forward_request\<close> up to the send: the request as it goes out, and the bookkeeping for
  its answer.\<close>

definition prepare_forward :: "proc_context \<Rightarrow> command \<Rightarrow> node \<Rightarrow> command \<times> node" where
  "prepare_forward cx request nd =
     (let (new_id, ids) = next_id (nd_ids nd);
          request1 = (add_record_route request (cx_my_host cx))\<lparr>c_hop_by_hop_id := new_id\<rparr> in
      (request1,
       nd\<lparr>nd_ids := ids,
          nd_mapper := add_mapping (nd_mapper nd) (nd_now nd) new_id (c_hop_by_hop_id request),
          nd_answers := prepare_for_answer (nd_answers nd) (nd_now nd) new_id (cx_connection_id cx)
                          (cx_peer_host cx) (cx_peer_realm cx)\<rparr>))"

definition undeliverable :: "proc_context \<Rightarrow> command \<Rightarrow> u32 \<Rightarrow> command" where
  "undeliverable cx request original_id =
     set_result_code
       ((set_origin_realm (set_origin_host (create_response request) (cx_my_host cx)) (cx_my_realm cx))
          \<lparr>c_hop_by_hop_id := original_id\<rparr>)
       (result_code_u32 DiameterUnableToDeliver)"

definition forward_request ::
  "outside \<Rightarrow> proc_context \<Rightarrow> command \<Rightarrow> node \<Rightarrow> (process_error, unit) outcome \<times> node" where
  "forward_request out cx request nd =
     (let (request1, nd1) = prepare_forward cx request nd;
          (x, r) = send_request (o_env out) request1
                     \<lparr>r_mgr = nd_mgr nd1, r_now = nd_now nd1, r_attempts = nd_attempts nd1\<rparr>;
          nd2 = nd1\<lparr>nd_mgr := r_mgr r, nd_now := r_now r, nd_attempts := r_attempts r\<rparr> in
      case x of
        Ok answer \<Rightarrow> (Ok (), nd2)
      | Err e \<Rightarrow>
          respond out (cx_connection_id cx) (str_or_default (get_origin_host request1))
            (str_or_default (get_origin_realm request1))
            (undeliverable cx request1 (c_hop_by_hop_id request)) nd2
      | Panic \<Rightarrow> (Panic, nd2))"

definition process_answer ::
  "outside \<Rightarrow> proc_context \<Rightarrow> command \<Rightarrow> node \<Rightarrow> (process_error, unit) outcome \<times> node" where
  "process_answer out cx answer nd =
     (let answer1 = remove_record_route answer (cx_my_host cx);
          (original_id, mp) = remove_mapping (nd_mapper nd) (nd_now nd) (c_hop_by_hop_id answer1);
          (found, am) = answer_received (nd_answers nd) answer1;
          nd1 = nd\<lparr>nd_mapper := mp, nd_answers := am\<rparr> in
      case found of
        None \<Rightarrow> (Err (NoMapping (c_hop_by_hop_id answer1) (c_code answer1)), nd1)
      | Some (i, host, realm) \<Rightarrow>
          if host = cx_my_host cx \<and> realm = cx_my_realm cx then (Ok (), nd1)
          else
            let answer2 = (case original_id of
                             Some o_id \<Rightarrow> answer1\<lparr>c_hop_by_hop_id := o_id\<rparr> | None \<Rightarrow> answer1) in
            case respond out i host realm answer2 nd1 of
              (Panic, nd2) \<Rightarrow> (Panic, nd2)
            | (_, nd2) \<Rightarrow> (Ok (), nd2))"

definition process_command ::
  "outside \<Rightarrow> proc_context \<Rightarrow> command \<Rightarrow> node \<Rightarrow> (process_error, unit) outcome \<times> node" where
  "process_command out cx cmd nd =
     (if is_looped_request cx cmd then reject_looped_request out cx cmd nd
      else if is_request cmd then
        if is_my_command cx cmd then process_local_command out cx cmd nd else forward_request out cx cmd nd
      else process_answer out cx cmd nd)"

section \<open>Forwarding and the answer\<close>

lemma prepare_forward_simps [simp]:
  "c_hop_by_hop_id (fst (prepare_forward cx q nd)) = nd_ids nd"
  "nd_ids (snd (prepare_forward cx q nd)) = nd_ids nd + 1"
  "nd_mapper (snd (prepare_forward cx q nd)) = add_mapping (nd_mapper nd) (nd_now nd) (nd_ids nd) (c_hop_by_hop_id q)"
  "nd_answers (snd (prepare_forward cx q nd)) =
     prepare_for_answer (nd_answers nd) (nd_now nd) (nd_ids nd) (cx_connection_id cx) (cx_peer_host cx) (cx_peer_realm cx)"
  "nd_mgr (snd (prepare_forward cx q nd)) = nd_mgr nd" "nd_sent (snd (prepare_forward cx q nd)) = nd_sent nd"
  "nd_attempts (snd (prepare_forward cx q nd)) = nd_attempts nd"
  by (simp_all add: prepare_forward_def next_id_def Let_def)

text \<open>Further requests are prepared, each at its own time.\<close>

fun prepare_all :: "(proc_context \<times> instant \<times> command) list \<Rightarrow> node \<Rightarrow> node" where
  "prepare_all [] nd = nd"
| "prepare_all ((cx, t, q) # qs) nd = prepare_all qs (snd (prepare_forward cx q (nd\<lparr>nd_now := t\<rparr>)))"

lemma prepare_all_simps [simp]:
  "nd_mgr (prepare_all qs nd) = nd_mgr nd" "nd_sent (prepare_all qs nd) = nd_sent nd"
  "nd_attempts (prepare_all qs nd) = nd_attempts nd"
  by (induction qs nd rule: prepare_all.induct) simp_all

lemma prepare_all_mapper:
  "nd_mapper (prepare_all qs nd) =
     mapper.ins_all (nd_mapper nd)
       (map2 (\<lambda>i (cx, t, q). (t, i, c_hop_by_hop_id q)) (take_ids (length qs) (nd_ids nd)) qs)"
  by (induction qs nd rule: prepare_all.induct) (simp_all add: next_id_def mapper.ins_all_def Let_def)

lemma prepare_all_answers:
  "nd_answers (prepare_all qs nd) =
     answers.ins_all (nd_answers nd)
       (map2 (\<lambda>i (cx, t, q). (t, i, cx_connection_id cx, cx_peer_host cx, cx_peer_realm cx))
          (take_ids (length qs) (nd_ids nd)) qs)"
  by (induction qs nd rule: prepare_all.induct) (simp_all add: next_id_def answers.ins_all_def Let_def)

lemma later_ids:
  assumes "length qs < 2 ^ 32 - 1"
  shows "g \<notin> set (take_ids (length qs) (g + 1))"
proof -
  have "distinct (take_ids (Suc (length qs)) g)" using assms by (intro distinct_take_ids) simp
  then show ?thesis by (simp add: next_id_def)
qed

text \<open>The state when the answer to a forwarded request arrives.\<close>

lemma forwarded_state:
  fixes cx :: proc_context and request :: command
  assumes "am_wf (nd_answers nd)" "length qs < 2 ^ 32 - 1" "\<forall>(cx, t, q)\<in>set qs. t \<le> nd_now nd + 60"
  defines "nd' \<equiv> prepare_all qs (snd (prepare_forward cx request nd))"
  shows "hm_map (nd_mapper nd') (nd_ids nd) = Some (c_hop_by_hop_id request, nd_now nd + 300)"
    and "am_lookup (nd_answers nd') (nd_ids nd) = Some (cx_connection_id cx, cx_peer_host cx, cx_peer_realm cx)"
    and "am_wf (nd_answers nd')"
proof -
  let ?nd1 = "snd (prepare_forward cx request nd)" and ?i = "nd_ids nd"
  note new = later_ids [OF assms(2), of ?i]
  let ?ms = "map2 (\<lambda>i (cx, t, q). (t, i, c_hop_by_hop_id q)) (take_ids (length qs) (?i + 1)) qs"
  have "\<forall>(t, k', v)\<in>set ?ms. k' \<noteq> ?i \<and> t \<le> nd_now nd + 300"
    using new assms(3) by (fastforce dest: set_zip_leftD set_zip_rightD)
  from mapper.found_until_deadline [OF TrueI this, of "nd_mapper nd" "c_hop_by_hop_id request"]
  show "hm_map (nd_mapper nd') ?i = Some (c_hop_by_hop_id request, nd_now nd + 300)"
    by (auto simp: nd'_def prepare_all_mapper hm_lookup_def hm_deadline_def split: option.splits)
  let ?as = "map2 (\<lambda>i (cx, t, q). (t, i, cx_connection_id cx, cx_peer_host cx, cx_peer_realm cx))
      (take_ids (length qs) (?i + 1)) qs"
  have "\<forall>(t, k', v)\<in>set ?as. k' \<noteq> ?i \<and> t \<le> nd_now nd + 60"
    using new assms(3) by (fastforce dest: set_zip_leftD set_zip_rightD)
  from answers.found_until_deadline [OF assms(1) this, of "(cx_connection_id cx, cx_peer_host cx, cx_peer_realm cx)"]
  show "am_lookup (nd_answers nd') ?i = Some (cx_connection_id cx, cx_peer_host cx, cx_peer_realm cx)"
    by (simp add: nd'_def prepare_all_answers)
  have "am_wf (nd_answers ?nd1)"
    using answers.inv_ins [OF assms(1), of "nd_now nd" ?i "(cx_connection_id cx, cx_peer_host cx, cx_peer_realm cx)"]
    by simp
  then show "am_wf (nd_answers nd')" unfolding nd'_def prepare_all_answers by (rule answers.inv_ins_all)
qed

lemma answer_received_lookup:
  assumes "am_wf s" "am_lookup s (c_hop_by_hop_id a) = Some v"
  shows "\<exists>s'. answer_received s a = (Some v, s') \<and> am_wf s' \<and> am_lookup s' = am_lookup s"
proof -
  obtain h where h: "am_map s (c_hop_by_hop_id a) = Some h" "h < length (am_infos s)"
    "v = (ai_connection_id (am_infos s ! h), ai_answer_host (am_infos s ! h), ai_answer_realm (am_infos s ! h))"
    using assms by (auto simp: am_lookup_def am_wf_def)
  have "am_lookup (set_answer s h a) k = am_lookup s k" for k
    using h(2) by (auto simp: am_lookup_def set_answer_def nth_list_update map_option_case split: option.split)
  moreover have "am_wf (set_answer s h a)" using assms(1) by (simp add: am_wf_def set_answer_def)
  ultimately show ?thesis using h by (auto simp: answer_received_def get_answer_info_def)
qed

text \<open>A response for which there is a live connection is sent.\<close>

lemma respond_sent:
  assumes "response_connection (nd_mgr nd) i host realm = Some c" "h \<in># conn_leaves c"
    and "e_up (o_env out) (nd_attempts nd) h"
  shows "\<exists>h' nd'. respond out i host realm a nd = (Ok (), nd')
    \<and> nd_sent nd' = nd_sent nd @ [(h', a)] \<and> h' \<in># conn_leaves c
    \<and> nd_mapper nd' = nd_mapper nd \<and> nd_answers nd' = nd_answers nd \<and> nd_now nd' = nd_now nd
    \<and> nd_attempts nd' = nd_attempts nd + 1
    \<and> response_connection (nd_mgr nd') i host realm = Some c"
  using conn_send_delivers(1) [of "e_up (o_env out) (nd_attempts nd)" c "e_rnd (o_env out)" "cm_lb (nd_mgr nd)"] assms
  by (auto simp: respond_def send_response_def response_connection_def get_connection_by_id_def
      get_connection_by_host_realm_def split: prod.splits outcome.splits option.splits)

text \<open>A response for which there is none is not.\<close>

lemma respond_unsent:
  assumes "\<And>c h. response_connection (nd_mgr nd) i host realm = Some c \<Longrightarrow> h \<in># conn_leaves c
      \<Longrightarrow> \<not> e_up (o_env out) (nd_attempts nd) h"
  shows "\<exists>e nd'. respond out i host realm a nd = (Err e, nd') \<and> nd_sent nd' = nd_sent nd"
proof (cases "response_connection (nd_mgr nd) i host realm")
  case (Some c)
  then show ?thesis
    using conn_send_delivers(1) [of "e_up (o_env out) (nd_attempts nd)" c "e_rnd (o_env out)" "cm_lb (nd_mgr nd)"] assms
    by (auto simp: respond_def send_response_def split: prod.splits outcome.splits)
qed (simp add: respond_def send_response_def)

lemma respond_frame:
  assumes "respond out i host realm a nd = (x, nd')"
  shows "nd_ids nd' = nd_ids nd" "nd_mapper nd' = nd_mapper nd" "nd_answers nd' = nd_answers nd"
    "nd_handler nd' = nd_handler nd"
  using assms by (auto simp: respond_def split: prod.splits outcome.splits)

text \<open>The answers a node makes itself: what one to a request agrees with it on.\<close>

definition error_answer :: "proc_context \<Rightarrow> command \<Rightarrow> u32 \<Rightarrow> command \<Rightarrow> bool" where
  "error_answer cx request rc a \<longleftrightarrow> is_answer a \<and> get_result_code a = Some rc
     \<and> c_code a = c_code request \<and> c_application_id a = c_application_id request
     \<and> c_hop_by_hop_id a = c_hop_by_hop_id request \<and> c_end_to_end_id a = c_end_to_end_id request
     \<and> get_origin_host a = Some (cx_my_host cx) \<and> get_origin_realm a = Some (cx_my_realm cx)"

lemma own_response_answers:
  assumes "rust_string (cx_my_host cx)" "rust_string (cx_my_realm cx)"
  shows "error_answer cx request (result_code_u32 rc) (own_response cx request rc)"
proof -
  let ?a = "own_response cx request rc"
  have "get_origin_host ?a = Some (cx_my_host cx)" "get_origin_realm ?a = Some (cx_my_realm cx)"
    using origin_host.get_set [OF assms(1)] origin_realm.get_set [OF assms(2)]
    by (simp_all add: own_response_def get_origin_host_def get_origin_realm_def result_code.get_avp_other
        origin_realm.get_avp_other)
  moreover have "is_answer ?a"
    using create_response_is_answer [of request]
    by (simp add: own_response_def is_answer_def is_request_def set_result_code_def set_origin_host_def set_origin_realm_def)
  moreover have "get_result_code ?a = Some (result_code_u32 rc)" by (simp add: own_response_def result_code.get_set)
  moreover have "c_code ?a = c_code request \<and> c_application_id ?a = c_application_id request
      \<and> c_hop_by_hop_id ?a = c_hop_by_hop_id request \<and> c_end_to_end_id ?a = c_end_to_end_id request"
    by (simp add: own_response_def set_result_code_def set_origin_host_def set_origin_realm_def)
  ultimately show ?thesis by (simp add: error_answer_def)
qed

lemma undeliverable_own_response: "undeliverable cx request i = (own_response cx request DiameterUnableToDeliver)\<lparr>c_hop_by_hop_id := i\<rparr>"
  by (simp add: undeliverable_def own_response_def set_result_code_def)

lemma remove_record_route_header [simp]:
  "c_hop_by_hop_id (remove_record_route a h) = c_hop_by_hop_id a" "c_code (remove_record_route a h) = c_code a"
  by (simp_all add: remove_record_route_def)

lemma get_origin_host_upd [simp]: "get_origin_host (c\<lparr>c_hop_by_hop_id := i\<rparr>) = get_origin_host c"
  by (simp add: get_origin_host_def get_avp_def)

text \<open>The way of an answer that is not for this node.\<close>

lemma process_answer_relays:
  assumes "am_wf (nd_answers nd)" "am_lookup (nd_answers nd) (c_hop_by_hop_id a) = Some (i, host, realm)"
    and "remove_mapping (nd_mapper nd) (nd_now nd) (c_hop_by_hop_id a) = (orig, mp)"
    and "\<not> (host = cx_my_host cx \<and> realm = cx_my_realm cx)"
    and "response_connection (nd_mgr nd) i host realm = Some c" "h \<in># conn_leaves c"
    and "e_up (o_env out) (nd_attempts nd) h"
  shows "\<exists>h' nd'. process_answer out cx a nd = (Ok (), nd') \<and> h' \<in># conn_leaves c
    \<and> nd_sent nd' = nd_sent nd @ [(h', (remove_record_route a (cx_my_host cx))
          \<lparr>c_hop_by_hop_id := (case orig of Some o_id \<Rightarrow> o_id | None \<Rightarrow> c_hop_by_hop_id a)\<rparr>)]
    \<and> nd_mapper nd' = mp \<and> am_wf (nd_answers nd') \<and> am_lookup (nd_answers nd') = am_lookup (nd_answers nd)
    \<and> nd_now nd' = nd_now nd \<and> nd_attempts nd' = nd_attempts nd + 1
    \<and> response_connection (nd_mgr nd') i host realm = Some c"
proof -
  let ?a = "remove_record_route a (cx_my_host cx)"
  obtain am where am: "answer_received (nd_answers nd) ?a = (Some (i, host, realm), am)"
      "am_wf am" "am_lookup am = am_lookup (nd_answers nd)"
    using answer_received_lookup [OF assms(1), of ?a] assms(2) by auto
  let ?nd1 = "nd\<lparr>nd_mapper := mp, nd_answers := am\<rparr>"
  let ?a2 = "?a\<lparr>c_hop_by_hop_id := (case orig of Some o_id \<Rightarrow> o_id | None \<Rightarrow> c_hop_by_hop_id a)\<rparr>"
  have a2: "?a2 = (case orig of Some o_id \<Rightarrow> ?a\<lparr>c_hop_by_hop_id := o_id\<rparr> | None \<Rightarrow> ?a)"
    by (simp add: remove_record_route_def split: option.split)
  obtain h' nd' where "respond out i host realm ?a2 ?nd1 = (Ok (), nd')"
    "nd_sent nd' = nd_sent nd @ [(h', ?a2)]" "h' \<in># conn_leaves c" "nd_mapper nd' = mp" "nd_answers nd' = am"
    "nd_now nd' = nd_now nd" "nd_attempts nd' = nd_attempts nd + 1" "response_connection (nd_mgr nd') i host realm = Some c"
    using respond_sent [of ?nd1 i host realm c h out ?a2] assms(5-7) by auto
  then show ?thesis
    using assms(3,4) am unfolding a2 by (auto simp: process_answer_def Let_def)
qed

text \<open>Processing a command changes neither the registry nor the configuration of the connection
  manager.\<close>

lemma respond_config: "same_config (nd_mgr nd) (nd_mgr (snd (respond out i host realm a nd)))"
  by (auto simp: respond_def send_response_def split: prod.split outcome.split option.split)

lemma process_command_config: "same_config (nd_mgr nd) (nd_mgr (snd (process_command out cx q nd)))"
proof -
  have "same_config (nd_mgr nd) (nd_mgr (snd (forward_request out cx q nd)))"
  proof -
    obtain q1 nd1 where p: "prepare_forward cx q nd = (q1, nd1)" by fastforce
    obtain x r where s: "send_request (o_env out) q1 \<lparr>r_mgr = nd_mgr nd1, r_now = nd_now nd1, r_attempts = nd_attempts nd1\<rparr>
        = (x, r)" by fastforce
    have "same_config (nd_mgr nd) (r_mgr r)"
      using send_request_result [of "o_env out" q1 "\<lparr>r_mgr = nd_mgr nd1, r_now = nd_now nd1, r_attempts = nd_attempts nd1\<rparr>"]
        s prepare_forward_simps(5) [of cx q nd] p by (simp add: loop_result_def advances_def)
    then show ?thesis
      using p s respond_config [of "nd1\<lparr>nd_mgr := r_mgr r, nd_now := r_now r, nd_attempts := r_attempts r\<rparr>"]
      by (auto simp: forward_request_def Let_def split: outcome.split intro: same_config_trans)
  qed
  moreover have "same_config (nd_mgr nd) (nd_mgr (snd (process_local_command out cx q nd)))"
    using respond_config [of "nd\<lparr>nd_handler := _\<rparr>" out]
    by (auto simp: process_local_command_def Let_def split: prod.split outcome.split option.split)
  moreover have "same_config (nd_mgr nd) (nd_mgr (snd (process_answer out cx q nd)))"
  proof -
    have "same_config (nd_mgr nd) (nd_mgr nd')" if "respond out i host realm a (nd\<lparr>nd_mapper := mp, nd_answers := am\<rparr>) = (x, nd')"
      for i host realm a mp am x nd'
      using respond_config [of "nd\<lparr>nd_mapper := mp, nd_answers := am\<rparr>" out i host realm a] that by simp
    then show ?thesis by (auto simp: process_answer_def Let_def split: prod.split outcome.split option.split)
  qed
  ultimately show ?thesis
    by (simp add: process_command_def reject_looped_request_def respond_config)
qed

section \<open>Properties\<close>

text \<open>C4. A forwarded request is answered where it came from: while up to \<open>2 ^ 32 - 2\<close>
  further requests are forwarded, an answer with the fresh hop-by-hop id that arrives within 60
  seconds is sent to the connection the request came over, with the hop-by-hop id the request came
  with, and with this node's Route-Record removed.\<close>

theorem forwarded_answer_returns:
  assumes "am_wf (nd_answers nd)" "length qs < 2 ^ 32 - 1" "\<forall>(cx, t, q)\<in>set qs. t \<le> nd_now nd + 60"
    and "c_hop_by_hop_id a = nd_ids nd" "now \<le> nd_now nd + 60"
    and "\<not> (cx_peer_host cx = cx_my_host cx' \<and> cx_peer_realm cx = cx_my_realm cx')"
    and "response_connection (nd_mgr nd) (cx_connection_id cx) (cx_peer_host cx) (cx_peer_realm cx) = Some c"
    and "h \<in># conn_leaves c" "e_up (o_env out) (nd_attempts nd) h"
  shows "\<exists>h' nd'. process_answer out cx' a ((prepare_all qs (snd (prepare_forward cx request nd)))\<lparr>nd_now := now\<rparr>)
      = (Ok (), nd') \<and> h' \<in># conn_leaves c
    \<and> nd_sent nd' = nd_sent nd @
        [(h', (remove_record_route a (cx_my_host cx'))\<lparr>c_hop_by_hop_id := c_hop_by_hop_id request\<rparr>)]"
proof -
  let ?nd = "prepare_all qs (snd (prepare_forward cx request nd))"
  note f = forwarded_state [OF assms(1-3), of cx request]
  obtain mp where "remove_mapping (nd_mapper ?nd) now (c_hop_by_hop_id a) = (Some (c_hop_by_hop_id request), mp)"
    using f(1) assms(4,5) by (simp add: remove_mapping_def)
  then show ?thesis
    using process_answer_relays [of "?nd\<lparr>nd_now := now\<rparr>" a "cx_connection_id cx" "cx_peer_host cx"
        "cx_peer_realm cx" "Some (c_hop_by_hop_id request)" mp cx' c h out] f(2,3) assms(4-9)
    by simp blast
qed

text \<open>A node with one connection, over which a request came.\<close>

definition example_node :: node where
  "example_node =
     \<lparr>nd_mgr = example_manager, nd_ids = 500, nd_mapper = hbh_mapper_new 0, nd_answers = answer_manager_new 0,
      nd_handler = \<lparr>hs_requests_received = 0, hs_processed_requests = 0, hs_responses_received = 0, hs_posts = 0\<rparr>,
      nd_now = 0, nd_attempts = 0, nd_sent = []\<rparr>"

definition example_context :: proc_context where
  "example_context =
     \<lparr>cx_connection_id = ''c1'', cx_my_host = ''me'', cx_my_realm = ''x'', cx_peer_host = ''h'', cx_peer_realm = ''x'',
      cx_handler = \<lparr>dh_request_processors = [], dh_command_map = \<lparr>code_to_command = Map.empty, name_to_command = Map.empty\<rparr>,
         dh_avp_map = \<lparr>code_to_avp = Map.empty, name_to_avp = Map.empty\<rparr>\<rparr>\<rparr>"

definition example_outside :: "platform \<Rightarrow> outside" where
  "example_outside p =
     \<lparr>o_env = example_env\<lparr>e_up := (\<lambda>_ _. True)\<rparr>, o_platform = p, o_http = (\<lambda>_ _ _. HttpFailed), o_parse = (\<lambda>_. None)\<rparr>"

lemma example_node_facts:
  "am_wf (nd_answers example_node)"
  "response_connection (nd_mgr example_node) (cx_connection_id example_context)
     (cx_peer_host example_context) (cx_peer_realm example_context) = Some (Leaf 1)"
  by (simp_all add: example_node_def am_wf_def answer_manager_new_def response_connection_def
      get_connection_by_id_def example_manager_def example_context_def cm_add_connection_simps new_manager_def)

theorem forwarded_answer_returns_witness:
  "\<forall>p. \<exists>h' nd'. process_answer (example_outside p) example_context (command_new 272 0x40 4 500 9 [])
      ((prepare_all [] (snd (prepare_forward example_context (command_new 272 0xC0 4 42 9 []) example_node)))\<lparr>nd_now := 60\<rparr>)
      = (Ok (), nd') \<and> h' \<in># conn_leaves (Leaf 1)
    \<and> nd_sent nd' = nd_sent example_node @
        [(h', (remove_record_route (command_new 272 0x40 4 500 9 []) ''me'')\<lparr>c_hop_by_hop_id := 42\<rparr>)]"
proof
  fix p
  show "\<exists>h' nd'. process_answer (example_outside p) example_context (command_new 272 0x40 4 500 9 [])
      ((prepare_all [] (snd (prepare_forward example_context (command_new 272 0xC0 4 42 9 []) example_node)))\<lparr>nd_now := 60\<rparr>)
      = (Ok (), nd') \<and> h' \<in># conn_leaves (Leaf 1)
    \<and> nd_sent nd' = nd_sent example_node @
        [(h', (remove_record_route (command_new 272 0x40 4 500 9 []) ''me'')\<lparr>c_hop_by_hop_id := 42\<rparr>)]"
    using forwarded_answer_returns [of example_node "[]" "command_new 272 0x40 4 500 9 []" 60 example_context
        example_context "Leaf 1" 1 "example_outside p" "command_new 272 0xC0 4 42 9 []"] example_node_facts
    by (simp add: command_new_def example_outside_def example_context_def) (simp add: example_node_def)
qed

text \<open>C29. Forwarding loops are broken: a request that carries this node's Route-Record, as every
  request this node forwarded does, is not forwarded or handled again. Its sender gets exactly one
  answer, with result code 3005, DIAMETER_LOOP_DETECTED, the identifiers of the request and this node
  as its origin, if the connection it came over (or the one registered for its origin) is up;
  otherwise nothing is sent and the error is returned. No identifier, mapping or pending answer is
  created.\<close>

theorem looped_request_rejected:
  assumes "is_request request" "has_record_route request (cx_my_host cx)"
    and "rust_string (cx_my_host cx)" "rust_string (cx_my_realm cx)"
    and "conn = response_connection (nd_mgr nd) (cx_connection_id cx) (str_or_default (get_origin_host request))
           (str_or_default (get_origin_realm request))"
    and "process_command out cx request nd = (x, nd')"
  shows "(if \<exists>c h. conn = Some c \<and> h \<in># conn_leaves c \<and> e_up (o_env out) (nd_attempts nd) h
          then x = Ok () \<and> (\<exists>h a. nd_sent nd' = nd_sent nd @ [(h, a)] \<and> h \<in># conn_leaves (the conn)
                 \<and> error_answer cx request 3005 a)
          else (\<exists>e. x = Err e) \<and> nd_sent nd' = nd_sent nd)
    \<and> nd_ids nd' = nd_ids nd \<and> nd_mapper nd' = nd_mapper nd \<and> nd_answers nd' = nd_answers nd
    \<and> nd_handler nd' = nd_handler nd
    \<and> (\<forall>q nd0 i. has_record_route ((fst (prepare_forward cx q nd0))\<lparr>c_hop_by_hop_id := i\<rparr>) (cx_my_host cx))"
proof -
  let ?a = "own_response cx request DiameterLoopDetected" and ?i = "cx_connection_id cx"
  let ?ho = "str_or_default (get_origin_host request)" and ?re = "str_or_default (get_origin_realm request)"
  have r: "respond out ?i ?ho ?re ?a nd = (x, nd')"
    using assms(1,2,6) by (simp add: process_command_def is_looped_request_def reject_looped_request_def)
  have a: "error_answer cx request 3005 ?a"
    using own_response_answers [OF assms(3,4), of request DiameterLoopDetected] by simp
  have "if \<exists>c h. conn = Some c \<and> h \<in># conn_leaves c \<and> e_up (o_env out) (nd_attempts nd) h
      then x = Ok () \<and> (\<exists>h a. nd_sent nd' = nd_sent nd @ [(h, a)] \<and> h \<in># conn_leaves (the conn)
             \<and> error_answer cx request 3005 a)
      else (\<exists>e. x = Err e) \<and> nd_sent nd' = nd_sent nd"
  proof (cases "\<exists>c h. conn = Some c \<and> h \<in># conn_leaves c \<and> e_up (o_env out) (nd_attempts nd) h")
    case True
    then obtain c h where "conn = Some c" "h \<in># conn_leaves c" "e_up (o_env out) (nd_attempts nd) h" by blast
    then show ?thesis using respond_sent [of nd ?i ?ho ?re c h out ?a] r a assms(5) by auto
  next
    case False
    then show ?thesis using respond_unsent [of nd ?i ?ho ?re out ?a] r assms(5) by auto
  qed
  moreover have "has_record_route ((fst (prepare_forward cx q nd0))\<lparr>c_hop_by_hop_id := i\<rparr>) (cx_my_host cx)" for q nd0 i
    using as_utf8_from_utf8 [OF assms(3)]
    by (simp add: prepare_forward_def next_id_def Let_def add_record_route_def has_record_route_def
        is_route_record_def from_utf8_string_def)
  ultimately show ?thesis using respond_frame [OF r] by blast
qed

lemma example_context_names: "rust_string (cx_my_host example_context)" "rust_string (cx_my_realm example_context)"
  by (rule ascii_rust_string, simp add: example_context_def ascii_def byte_of_char_def)+

theorem looped_request_rejected_witness:
  "\<forall>p. let q = command_new 272 0x80 4 42 9 [from_utf8_string 282 0x40 None ''me''] in
     \<exists>h a nd'. process_command (example_outside p) example_context q example_node = (Ok (), nd')
       \<and> nd_sent nd' = [(h, a)] \<and> get_result_code a = Some 3005 \<and> c_hop_by_hop_id a = 42"
proof
  fix p
  let ?q = "command_new 272 0x80 4 42 9 [from_utf8_string 282 0x40 None ''me'']"
  have q: "is_request ?q" "has_record_route ?q (cx_my_host example_context)" "c_hop_by_hop_id ?q = 42" by code_simp+
  have n: "response_connection (nd_mgr example_node) (cx_connection_id example_context) ho re = Some (Leaf 1)" for ho re
    by (simp add: example_node_def response_connection_def get_connection_by_id_def example_manager_def
        example_context_def cm_add_connection_simps new_manager_def)
  obtain x nd' where r: "process_command (example_outside p) example_context ?q example_node = (x, nd')" by fastforce
  have u: "e_up (o_env (example_outside p)) (nd_attempts example_node) 1" "nd_sent example_node = []"
    by (simp_all add: example_outside_def example_node_def)
  show "let q = ?q in \<exists>h a nd'. process_command (example_outside p) example_context q example_node = (Ok (), nd')
       \<and> nd_sent nd' = [(h, a)] \<and> get_result_code a = Some 3005 \<and> c_hop_by_hop_id a = 42"
    using looped_request_rejected [OF q(1,2) example_context_names refl r] n u q(3) r
    by (auto simp: error_answer_def Let_def)
qed

text \<open>C30. When a request cannot be delivered, its sender is told: if a request is neither looped nor
  for this node, \<open>send_request\<close> fails, and the connection the request came over is alive then, processing
  the request sends that connection exactly one answer, with result code 3002,
  DIAMETER_UNABLE_TO_DELIVER, both identifiers the request came with, and this node as its origin.\<close>

theorem undeliverable_reported:
  assumes "is_request request" "\<not> is_looped_request cx request" "\<not> is_my_command cx request"
    and "prepare_forward cx request nd = (request1, nd1)"
    and "send_request (o_env out) request1
           \<lparr>r_mgr = nd_mgr nd1, r_now = nd_now nd1, r_attempts = nd_attempts nd1\<rparr> = (Err e, r)"
    and "response_connection (r_mgr r) (cx_connection_id cx) (str_or_default (get_origin_host request1))
           (str_or_default (get_origin_realm request1)) = Some c"
    and "h \<in># conn_leaves c" "e_up (o_env out) (r_attempts r) h"
    and "rust_string (cx_my_host cx)" "rust_string (cx_my_realm cx)"
  shows "\<exists>h' a nd'. process_command out cx request nd = (Ok (), nd')
    \<and> nd_sent nd' = nd_sent nd @ [(h', a)] \<and> h' \<in># conn_leaves c \<and> error_answer cx request 3002 a"
proof -
  let ?nd2 = "nd1\<lparr>nd_mgr := r_mgr r, nd_now := r_now r, nd_attempts := r_attempts r\<rparr>"
  let ?a = "undeliverable cx request1 (c_hop_by_hop_id request)"
  obtain h' nd' where s: "respond out (cx_connection_id cx) (str_or_default (get_origin_host request1))
      (str_or_default (get_origin_realm request1)) ?a ?nd2 = (Ok (), nd')"
    "nd_sent nd' = nd_sent nd @ [(h', ?a)]" "h' \<in># conn_leaves c"
    using respond_sent [of ?nd2 "cx_connection_id cx" "str_or_default (get_origin_host request1)"
        "str_or_default (get_origin_realm request1)" c h out ?a]
      assms(6-8) prepare_forward_simps(6) [of cx request nd] assms(4)
    by auto
  have "request1 = (add_record_route request (cx_my_host cx))\<lparr>c_hop_by_hop_id := nd_ids nd\<rparr>"
    using assms(4) by (simp add: prepare_forward_def next_id_def Let_def)
  then have "error_answer cx request 3002 ?a"
    using own_response_answers [OF assms(9,10), of request1 DiameterUnableToDeliver]
    by (simp add: error_answer_def undeliverable_own_response add_record_route_def is_answer_def is_request_def
        get_result_code_def get_origin_realm_def get_avp_def)
  moreover have "process_command out cx request nd = (Ok (), nd')"
    using s(1) assms(1-5) by (simp add: process_command_def forward_request_def)
  ultimately show ?thesis using s(2,3) by blast
qed

theorem undeliverable_reported_witness:
  "\<forall>p. \<exists>h' a nd'. process_command ((example_outside p)\<lparr>o_env := example_env\<lparr>e_up := (\<lambda>k _. 0 < k)\<rparr>\<rparr>) example_context
       example_request example_node = (Ok (), nd')
    \<and> nd_sent nd' = nd_sent example_node @ [(h', a)] \<and> get_result_code a = Some 3002
    \<and> c_hop_by_hop_id a = 7 \<and> c_end_to_end_id a = 9"
proof
  fix p
  let ?out = "(example_outside p)\<lparr>o_env := example_env\<lparr>e_up := (\<lambda>k _. 0 < k)\<rparr>\<rparr>"
  obtain q1 nd1 where q1: "prepare_forward example_context example_request example_node = (q1, nd1)" by fastforce
  define run where "run = send_request (example_env\<lparr>e_up := (\<lambda>k _. 0 < k)\<rparr>)
      (fst (prepare_forward example_context example_request example_node))
      (let nd1 = snd (prepare_forward example_context example_request example_node) in
       \<lparr>r_mgr = nd_mgr nd1, r_now = nd_now nd1, r_attempts = nd_attempts nd1\<rparr>)"
  have run: "fst run = Err FailToSend" "r_attempts (snd run) = 1"
    "get_connection_by_id (r_mgr (snd run)) ''c1'' = Some \<lparr>ce_conn = Leaf 1, ce_host = ''h'', ce_realm = ''x''\<rparr>"
    unfolding run_def by code_simp+
  have s: "send_request (o_env ?out) q1 \<lparr>r_mgr = nd_mgr nd1, r_now = nd_now nd1, r_attempts = nd_attempts nd1\<rparr>
      = (Err FailToSend, snd run)"
    using run(1) q1 unfolding run_def by (simp add: Let_def prod_eq_iff)
  have q: "is_request example_request" "\<not> is_looped_request example_context example_request"
    "\<not> is_my_command example_context example_request" by code_simp+
  have c: "response_connection (r_mgr (snd run)) (cx_connection_id example_context) ho re = Some (Leaf 1)" for ho re
    using run(3) by (simp add: response_connection_def example_context_def)
  have i: "c_hop_by_hop_id example_request = 7" "c_end_to_end_id example_request = 9" by code_simp+
  have u: "1 \<in># conn_leaves (Leaf 1)" "e_up (o_env ?out) (r_attempts (snd run)) 1" using run(2) by simp_all
  show "\<exists>h' a nd'. process_command ?out example_context example_request example_node = (Ok (), nd')
    \<and> nd_sent nd' = nd_sent example_node @ [(h', a)] \<and> get_result_code a = Some 3002
    \<and> c_hop_by_hop_id a = 7 \<and> c_end_to_end_id a = 9"
    using undeliverable_reported [OF q q1 s c u example_context_names] i unfolding error_answer_def by metis
qed

text \<open>C31. Only the first answer gets its hop-by-hop id back: a second answer under the same fresh id
  (the answer to a retry after a retryable result code or a redirection) is also sent to the
  requester, with the fresh id, which the requester never used.\<close>

theorem second_answer_keeps_fresh_id:
  assumes "am_wf (nd_answers nd)" "am_lookup (nd_answers nd) new_id = Some (i, host, realm)"
    and "hm_map (nd_mapper nd) new_id = Some (orig, t)" "nd_now nd \<le> t"
    and "\<not> (host = cx_my_host cx \<and> realm = cx_my_realm cx)"
    and "response_connection (nd_mgr nd) i host realm = Some c" "h \<in># conn_leaves c" "\<forall>k. e_up (o_env out) k h"
    and "c_hop_by_hop_id a = new_id" "c_hop_by_hop_id b = new_id"
  shows "\<exists>h1 a1 nd1 h2 b2 nd2. process_answer out cx a nd = (Ok (), nd1) \<and> process_answer out cx b nd1 = (Ok (), nd2)
    \<and> nd_sent nd2 = nd_sent nd @ [(h1, a1), (h2, b2)]
    \<and> c_hop_by_hop_id a1 = orig \<and> c_hop_by_hop_id b2 = new_id"
proof -
  let ?mp = "(nd_mapper nd)\<lparr>hm_map := (hm_map (nd_mapper nd))(new_id := None)\<rparr>"
  have "remove_mapping (nd_mapper nd) (nd_now nd) (c_hop_by_hop_id a) = (Some orig, ?mp)"
    using assms(3,4,9) by (simp add: remove_mapping_def)
  from process_answer_relays [OF assms(1) _ this assms(5,6,7)] assms(2,8,9)
  obtain h1 nd1 where one: "process_answer out cx a nd = (Ok (), nd1)"
    "nd_sent nd1 = nd_sent nd @ [(h1, (remove_record_route a (cx_my_host cx))\<lparr>c_hop_by_hop_id := orig\<rparr>)]"
    "nd_mapper nd1 = ?mp" "am_wf (nd_answers nd1)" "am_lookup (nd_answers nd1) = am_lookup (nd_answers nd)"
    "response_connection (nd_mgr nd1) i host realm = Some c"
    by (simp only: option.case) metis
  have "remove_mapping (nd_mapper nd1) (nd_now nd1) (c_hop_by_hop_id b) = (None, ?mp)"
    using one(3) assms(10) by (simp add: remove_mapping_def)
  from process_answer_relays [OF one(4) _ this assms(5) one(6) assms(7)] assms(2,8,10) one(5)
  obtain h2 nd2 where "process_answer out cx b nd1 = (Ok (), nd2)"
    "nd_sent nd2 = nd_sent nd1 @ [(h2, (remove_record_route b (cx_my_host cx))\<lparr>c_hop_by_hop_id := new_id\<rparr>)]"
    by (simp only: option.case) metis
  then show ?thesis
    using one(1,2)
    by (intro exI [of _ h1] exI [of _ "(remove_record_route a (cx_my_host cx))\<lparr>c_hop_by_hop_id := orig\<rparr>"]
        exI [of _ nd1] exI [of _ h2] exI [of _ "(remove_record_route b (cx_my_host cx))\<lparr>c_hop_by_hop_id := new_id\<rparr>"]
        exI [of _ nd2]) simp
qed

theorem second_answer_keeps_fresh_id_witness:
  "\<forall>p. let nd = snd (prepare_forward example_context (command_new 272 0xC0 4 42 9 []) example_node);
            a = command_new 272 0x40 4 500 9 [] in
   \<exists>h1 a1 nd1 h2 b2 nd2. process_answer (example_outside p) example_context a nd = (Ok (), nd1)
     \<and> process_answer (example_outside p) example_context a nd1 = (Ok (), nd2)
     \<and> nd_sent nd2 = nd_sent nd @ [(h1, a1), (h2, b2)] \<and> c_hop_by_hop_id a1 = 42 \<and> c_hop_by_hop_id b2 = 500"
proof
  fix p
  let ?q = "command_new 272 0xC0 4 42 9 []" and ?a = "command_new 272 0x40 4 500 9 []"
  let ?nd = "snd (prepare_forward example_context ?q example_node)"
  have ids: "nd_ids example_node = 500" "nd_now ?nd = 0"
    by (simp_all add: example_node_def prepare_forward_def next_id_def Let_def)
  have "hm_map (nd_mapper ?nd) 500 = Some (42, nd_now example_node + 300)"
    "am_lookup (nd_answers ?nd) 500 = Some (''c1'', ''h'', ''x'')" "am_wf (nd_answers ?nd)"
    using forwarded_state [of example_node "[]" example_context ?q, OF example_node_facts(1)]
    by (simp_all add: ids(1) example_context_def command_new_def)
  moreover have "response_connection (nd_mgr ?nd) ''c1'' ''h'' ''x'' = Some (Leaf 1)"
    using example_node_facts(2) by (simp add: example_context_def)
  ultimately show "let nd = ?nd; a = ?a in
   \<exists>h1 a1 nd1 h2 b2 nd2. process_answer (example_outside p) example_context a nd = (Ok (), nd1)
     \<and> process_answer (example_outside p) example_context a nd1 = (Ok (), nd2)
     \<and> nd_sent nd2 = nd_sent nd @ [(h1, a1), (h2, b2)] \<and> c_hop_by_hop_id a1 = 42 \<and> c_hop_by_hop_id b2 = 500"
    using second_answer_keeps_fresh_id [of ?nd 500 "''c1''" "''h''" "''x''" 42 "nd_now example_node + 300"
        example_context "Leaf 1" 1 "example_outside p" ?a ?a] ids
    by (simp add: Let_def example_context_def example_outside_def command_new_def)
qed

end
