(* ===== verification/Peer_Messages.thy ===== *)
theory Peer_Messages
  imports Command_Codec Avp_Dict Config
begin

text \<open>
  The messages of the base protocol a node builds itself: the capability AVPs (\<open>utils.rs\<close>), the
  capabilities exchange, the device watchdog and the disconnect request with their answers, as the
  TCP transport (\<open>transport/tcp_transport.rs\<close>) and the SCTP transport
  (\<open>transport/sctp_transport.rs\<close>) build them.

  \<open>name_value_to_avp(..).unwrap()\<close> panics when the dictionary does not know the name or gives
  it another type; here that is the result \<open>None\<close>.
\<close>

section \<open>Capability AVPs\<close>

definition named_u32 :: "platform \<Rightarrow> avp_map \<Rightarrow> string \<Rightarrow> u32 \<Rightarrow> avp option" where
  "named_u32 p m name w = name_value_to_avp p m name (JNumber (number_of_u32 w))"

definition named_string :: "platform \<Rightarrow> avp_map \<Rightarrow> string \<Rightarrow> string \<Rightarrow> avp option" where
  "named_string p m name s = name_value_to_avp p m name (JString s)"

definition host_ip_avp :: "platform \<Rightarrow> avp_map \<Rightarrow> string \<Rightarrow> avp option" where
  "host_ip_avp p m ip =
     map_option (\<lambda>j. from_address p (j_code j) 0 None ip) (avp_get_by_name m ''Host-IP-Address'')"

definition optional_u32 :: "platform \<Rightarrow> avp_map \<Rightarrow> string \<Rightarrow> u32 option \<Rightarrow> avp option list" where
  "optional_u32 p m name w = (case w of Some i \<Rightarrow> [named_u32 p m name i] | None \<Rightarrow> [])"

definition vendor_specific_avp :: "platform \<Rightarrow> avp_map \<Rightarrow> vendor_specific_application_id \<Rightarrow> avp option" where
  "vendor_specific_avp p m vsa =
     Option.bind
       (those (named_u32 p m ''Vendor-Id'' (vsa_vendor_id vsa)
          # optional_u32 p m ''Auth-Application-Id'' (vsa_auth_application_id vsa)
          @ optional_u32 p m ''Acct-Application-Id'' (vsa_acct_application_id vsa)))
       (\<lambda>subs. map_option (\<lambda>j. from_grouped (j_code j) 0 None subs)
          (avp_get_by_name m ''Vendor-Specific-Application-Id''))"

definition create_capability_avps :: "platform \<Rightarrow> stack_capability \<Rightarrow> avp_map \<Rightarrow> avp list option" where
  "create_capability_avps p cap m =
     those
       (map (host_ip_avp p m) (list_or_default (cap_host_ips cap))
        @ [named_u32 p m ''Vendor-Id'' (cap_vendor_id cap),
           named_string p m ''Product-Name'' (cap_product_name cap)]
        @ map (named_u32 p m ''Supported-Vendor-Id'') (list_or_default (cap_supported_vendor_ids cap))
        @ map (named_u32 p m ''Auth-Application-Id'') (list_or_default (cap_auth_application_ids cap))
        @ map (named_u32 p m ''Inband-Security-Id'') (list_or_default (cap_inband_security_ids cap))
        @ map (named_u32 p m ''Acct-Application-Id'') (list_or_default (cap_acct_application_ids cap))
        @ map (vendor_specific_avp p m) (list_or_default (cap_vendor_specific_application_ids cap))
        @ optional_u32 p m ''Firmware-Revision'' (cap_firmware_revision cap))"

section \<open>Messages with dictionary AVPs\<close>

definition named_origin :: "platform \<Rightarrow> avp_map \<Rightarrow> string \<Rightarrow> string \<Rightarrow> avp list option" where
  "named_origin p m host realm =
     those [named_string p m ''Origin-Host'' host, named_string p m ''Origin-Realm'' realm]"

text \<open>The Capabilities-Exchange-Request, the same in both transports.\<close>

definition cer_command ::
  "platform \<Rightarrow> avp_map \<Rightarrow> string \<Rightarrow> string \<Rightarrow> stack_capability \<Rightarrow> u32 \<Rightarrow> u32 \<Rightarrow> command option" where
  "cer_command p m host realm cap hop_by_hop end_to_end =
     Option.bind (named_origin p m host realm) (\<lambda>origin.
     map_option (\<lambda>caps.
       command_new (command_code_u32 CapabilitiesExchange) 0x80 0 hop_by_hop end_to_end (origin @ caps))
     (create_capability_avps p cap m))"

text \<open>The Capabilities-Exchange-Answer; the TCP server puts the result code first.\<close>

definition tcp_create_cea ::
  "platform \<Rightarrow> avp_map \<Rightarrow> string \<Rightarrow> string \<Rightarrow> stack_capability \<Rightarrow> command \<Rightarrow> command option" where
  "tcp_create_cea p m host realm cap cer =
     Option.bind
       (those [named_u32 p m ''Result-Code'' (result_code_u32 DiameterSuccess),
               named_string p m ''Origin-Host'' host, named_string p m ''Origin-Realm'' realm,
               named_u32 p m ''Vendor-Id'' 0]) (\<lambda>avps.
     map_option (\<lambda>caps.
       set_result_code
         (add_avps
            (command_new (command_code_u32 CapabilitiesExchange) 0 0 (c_hop_by_hop_id cer) (c_end_to_end_id cer) avps)
            caps)
         (result_code_u32 DiameterSuccess))
     (create_capability_avps p cap m))"

definition sctp_create_cea ::
  "platform \<Rightarrow> avp_map \<Rightarrow> string \<Rightarrow> string \<Rightarrow> stack_capability \<Rightarrow> command \<Rightarrow> command option" where
  "sctp_create_cea p m host realm cap cer =
     Option.bind
       (those [named_string p m ''Origin-Host'' host, named_string p m ''Origin-Realm'' realm,
               named_u32 p m ''Vendor-Id'' 0]) (\<lambda>avps.
     map_option (\<lambda>caps.
       set_result_code
         (add_avps
            (command_new (command_code_u32 CapabilitiesExchange) 0 0 (c_hop_by_hop_id cer) (c_end_to_end_id cer) avps)
            caps)
         2001)
     (create_capability_avps p cap m))"

definition dwr_command ::
  "platform \<Rightarrow> avp_map \<Rightarrow> string \<Rightarrow> string \<Rightarrow> u32 \<Rightarrow> u32 \<Rightarrow> command option" where
  "dwr_command p m host realm hop_by_hop end_to_end =
     map_option (command_new (command_code_u32 DeviceWatchdog) 0x80 0 hop_by_hop end_to_end)
       (named_origin p m host realm)"

section \<open>Messages with fixed AVPs\<close>

definition fixed_origin :: "string \<Rightarrow> string \<Rightarrow> avp list" where
  "fixed_origin host realm =
     [from_utf8_string (avp_code_u32 AvpOriginHost) 0x40 None host,
      from_utf8_string (avp_code_u32 AvpOriginRealm) 0x40 None realm]"

definition disconnect_cause :: avp where
  "disconnect_cause = from_unsigned32 (avp_code_u32 AvpDisconnectCause) 0x40 None 0"

definition success_avp :: avp where
  "success_avp = from_unsigned32 (avp_code_u32 AvpResultCode) 0x40 None 2001"

text \<open>The watchdog answer and the disconnect answer of a server connection, of either transport.\<close>

definition server_dwa :: "string \<Rightarrow> string \<Rightarrow> command \<Rightarrow> command" where
  "server_dwa host realm request =
     command_new (command_code_u32 DeviceWatchdog) 0 0 (c_hop_by_hop_id request) (c_end_to_end_id request)
       (fixed_origin host realm @ [success_avp])"

definition server_dpa :: "string \<Rightarrow> string \<Rightarrow> command \<Rightarrow> command" where
  "server_dpa host realm request =
     command_new (command_code_u32 DisconnectPeer) 0 0 (c_hop_by_hop_id request) (c_end_to_end_id request)
       (fixed_origin host realm @ [success_avp])"

text \<open>What the client connections send: the TCP client answers a watchdog request under fresh
  identifiers.\<close>

definition tcp_client_dwa :: "string \<Rightarrow> string \<Rightarrow> u32 \<Rightarrow> u32 \<Rightarrow> command" where
  "tcp_client_dwa host realm hop_by_hop end_to_end =
     command_new (command_code_u32 DeviceWatchdog) 0 0 hop_by_hop end_to_end (fixed_origin host realm)"

definition tcp_client_dpr :: "string \<Rightarrow> string \<Rightarrow> u32 \<Rightarrow> u32 \<Rightarrow> command" where
  "tcp_client_dpr host realm hop_by_hop end_to_end =
     command_new (command_code_u32 DisconnectPeer) 0x80 0 hop_by_hop end_to_end
       (fixed_origin host realm @ [disconnect_cause])"

definition tcp_client_dpa :: "string \<Rightarrow> string \<Rightarrow> command \<Rightarrow> command" where
  "tcp_client_dpa host realm request =
     command_new (command_code_u32 DisconnectPeer) 0 0 (c_hop_by_hop_id request) (c_end_to_end_id request)
       (fixed_origin host realm @ [disconnect_cause])"

definition sctp_client_dwa :: "u32 \<Rightarrow> u32 \<Rightarrow> command" where
  "sctp_client_dwa hop_by_hop end_to_end =
     command_new (command_code_u32 DeviceWatchdog) 0 0 hop_by_hop end_to_end []"

definition sctp_client_dpa :: "command \<Rightarrow> command" where
  "sctp_client_dpa request =
     command_new (command_code_u32 DisconnectPeer) 0 0 (c_hop_by_hop_id request) (c_end_to_end_id request) []"

section \<open>The dictionary the messages need\<close>

definition base_entries :: "avp_json list" where
  "base_entries =
     [avp_json_new ''Acct-Application-Id'' 259 TUnsigned32 True None,
      avp_json_new ''Auth-Application-Id'' 258 TUnsigned32 True None,
      avp_json_new ''Firmware-Revision'' 267 TUnsigned32 False None,
      avp_json_new ''Host-IP-Address'' 257 TAddress True None,
      avp_json_new ''Inband-Security-Id'' 299 TUnsigned32 True None,
      avp_json_new ''Origin-Host'' 264 TDiameterIdentity True None,
      avp_json_new ''Origin-Realm'' 296 TDiameterIdentity True None,
      avp_json_new ''Product-Name'' 269 TUTF8String False None,
      avp_json_new ''Result-Code'' 268 TUnsigned32 True None,
      avp_json_new ''Supported-Vendor-Id'' 265 TUnsigned32 True None,
      avp_json_new ''Vendor-Id'' 266 TUnsigned32 True None,
      avp_json_new ''Vendor-Specific-Application-Id'' 260 TGrouped True None]"

definition base_dictionary :: "avp_map \<Rightarrow> bool" where
  "base_dictionary m \<longleftrightarrow> list_all (\<lambda>j. avp_get_by_name m (j_name j) = Some j) base_entries"

text \<open>The dictionary of a stack whose AVP files leave these names alone has them.\<close>

lemma standard_base_entries:
  "list_all (\<lambda>j. find (\<lambda>i. j_name i = j_name j) (rev standard_avp_json) = Some j) base_entries"
  by code_simp

lemma find_append_None: "find P xs = None \<Longrightarrow> find P (xs @ ys) = find P ys"
  by (induction xs) (auto split: if_splits)

lemma base_dictionary_new:
  assumes "\<forall>j\<in>set avps. j_name j \<notin> j_name ` set base_entries"
  shows "base_dictionary (avp_map_new avps)"
proof -
  have "avp_get_by_name (avp_map_new avps) (j_name j) = Some j" if "j \<in> set base_entries" for j
  proof -
    have "find (\<lambda>i. j_name i = j_name j) (rev avps) = None"
      using assms that by (auto simp: find_None_iff)
    then show ?thesis
      using standard_base_entries that
      by (simp add: avp_map_new_lookup(1) find_append_None list_all_iff)
  qed
  then show ?thesis by (simp add: base_dictionary_def list_all_iff)
qed

lemma base_lookup:
  assumes "base_dictionary m"
  shows "avp_get_by_name m ''Acct-Application-Id'' = Some (avp_json_new ''Acct-Application-Id'' 259 TUnsigned32 True None)"
    "avp_get_by_name m ''Auth-Application-Id'' = Some (avp_json_new ''Auth-Application-Id'' 258 TUnsigned32 True None)"
    "avp_get_by_name m ''Firmware-Revision'' = Some (avp_json_new ''Firmware-Revision'' 267 TUnsigned32 False None)"
    "avp_get_by_name m ''Host-IP-Address'' = Some (avp_json_new ''Host-IP-Address'' 257 TAddress True None)"
    "avp_get_by_name m ''Inband-Security-Id'' = Some (avp_json_new ''Inband-Security-Id'' 299 TUnsigned32 True None)"
    "avp_get_by_name m ''Origin-Host'' = Some (avp_json_new ''Origin-Host'' 264 TDiameterIdentity True None)"
    "avp_get_by_name m ''Origin-Realm'' = Some (avp_json_new ''Origin-Realm'' 296 TDiameterIdentity True None)"
    "avp_get_by_name m ''Product-Name'' = Some (avp_json_new ''Product-Name'' 269 TUTF8String False None)"
    "avp_get_by_name m ''Result-Code'' = Some (avp_json_new ''Result-Code'' 268 TUnsigned32 True None)"
    "avp_get_by_name m ''Supported-Vendor-Id'' = Some (avp_json_new ''Supported-Vendor-Id'' 265 TUnsigned32 True None)"
    "avp_get_by_name m ''Vendor-Id'' = Some (avp_json_new ''Vendor-Id'' 266 TUnsigned32 True None)"
    "avp_get_by_name m ''Vendor-Specific-Application-Id''
       = Some (avp_json_new ''Vendor-Specific-Application-Id'' 260 TGrouped True None)"
  using assms by (simp_all add: base_dictionary_def base_entries_def avp_json_new_def)

lemma ucast_up_down: "ucast (ucast (w :: u32) :: u64) = w"
  by (rule bit_word_eqI) (simp add: bit_simps)

lemma named_u32_lookup:
  assumes "avp_get_by_name m n = Some (avp_json_new n c TUnsigned32 mand None)"
  shows "named_u32 p m n w = Some (from_unsigned32 c (if mand then 0x40 else 0) None w)"
  using assms
  by (subst named_u32_def, subst name_value_to_avp.simps)
     (simp add: avp_json_new_def scalar_to_avp_def number_of_u32_def from_unsigned32_def Let_def ucast_up_down)

lemma named_string_lookup:
  assumes "avp_get_by_name m n = Some (avp_json_new n c t mand None)" "t = TUTF8String \<or> t = TDiameterIdentity"
  shows "named_string p m n s = Some (from_utf8_string c (if mand then 0x40 else 0) None s)"
  using assms
  by (subst named_string_def, subst name_value_to_avp.simps)
     (auto simp: avp_json_new_def scalar_to_avp_def from_utf8_string_def Let_def)

lemma base_named:
  assumes "base_dictionary m"
  shows "named_u32 p m ''Acct-Application-Id'' = (\<lambda>w. Some (from_unsigned32 259 0x40 None w))"
    "named_u32 p m ''Auth-Application-Id'' = (\<lambda>w. Some (from_unsigned32 258 0x40 None w))"
    "named_u32 p m ''Firmware-Revision'' = (\<lambda>w. Some (from_unsigned32 267 0 None w))"
    "named_u32 p m ''Inband-Security-Id'' = (\<lambda>w. Some (from_unsigned32 299 0x40 None w))"
    "named_u32 p m ''Result-Code'' = (\<lambda>w. Some (from_unsigned32 268 0x40 None w))"
    "named_u32 p m ''Supported-Vendor-Id'' = (\<lambda>w. Some (from_unsigned32 265 0x40 None w))"
    "named_u32 p m ''Vendor-Id'' = (\<lambda>w. Some (from_unsigned32 266 0x40 None w))"
    "named_string p m ''Origin-Host'' s = Some (from_utf8_string 264 0x40 None s)"
    "named_string p m ''Origin-Realm'' s = Some (from_utf8_string 296 0x40 None s)"
    "named_string p m ''Product-Name'' s = Some (from_utf8_string 269 0 None s)"
    "host_ip_avp p m = (\<lambda>ip. Some (from_address p 257 0 None ip))"
  by (simp_all add: fun_eq_iff host_ip_avp_def base_lookup [OF assms]
      named_u32_lookup [OF base_lookup(1) [OF assms]] named_u32_lookup [OF base_lookup(2) [OF assms]]
      named_u32_lookup [OF base_lookup(3) [OF assms]] named_u32_lookup [OF base_lookup(5) [OF assms]]
      named_u32_lookup [OF base_lookup(9) [OF assms]] named_u32_lookup [OF base_lookup(10) [OF assms]]
      named_u32_lookup [OF base_lookup(11) [OF assms]] named_string_lookup [OF base_lookup(6) [OF assms]]
      named_string_lookup [OF base_lookup(7) [OF assms]] named_string_lookup [OF base_lookup(8) [OF assms]])
     (simp add: avp_json_new_def)

section \<open>What the capability AVPs say\<close>

definition vendor_specific_members :: "vendor_specific_application_id \<Rightarrow> avp list" where
  "vendor_specific_members vsa =
     from_unsigned32 266 0x40 None (vsa_vendor_id vsa)
     # map (from_unsigned32 258 0x40 None) (case vsa_auth_application_id vsa of Some i \<Rightarrow> [i] | None \<Rightarrow> [])
     @ map (from_unsigned32 259 0x40 None) (case vsa_acct_application_id vsa of Some i \<Rightarrow> [i] | None \<Rightarrow> [])"

definition capability_avps :: "platform \<Rightarrow> stack_capability \<Rightarrow> avp list" where
  "capability_avps p cap =
     map (from_address p 257 0 None) (list_or_default (cap_host_ips cap))
     @ from_unsigned32 266 0x40 None (cap_vendor_id cap)
     # from_utf8_string 269 0 None (cap_product_name cap)
     # map (from_unsigned32 265 0x40 None) (list_or_default (cap_supported_vendor_ids cap))
     @ map (from_unsigned32 258 0x40 None) (list_or_default (cap_auth_application_ids cap))
     @ map (from_unsigned32 299 0x40 None) (list_or_default (cap_inband_security_ids cap))
     @ map (from_unsigned32 259 0x40 None) (list_or_default (cap_acct_application_ids cap))
     @ map (\<lambda>vsa. from_grouped 260 0 None (vendor_specific_members vsa))
         (list_or_default (cap_vendor_specific_application_ids cap))
     @ map (from_unsigned32 267 0 None) (case cap_firmware_revision cap of Some i \<Rightarrow> [i] | None \<Rightarrow> [])"

lemma those_append:
  "those (xs @ ys) = Option.bind (those xs) (\<lambda>us. map_option (\<lambda>vs. us @ vs) (those ys))"
  by (induction xs; cases "those ys") (auto split: option.splits Option.bind_split)

lemma those_map_Some [simp]: "those (map (\<lambda>x. Some (f x)) xs) = Some (map f xs)"
  by (induction xs) auto

lemma optional_u32_base:
  "named_u32 p m n = (\<lambda>w. Some (f w)) \<Longrightarrow>
   optional_u32 p m n w = map (\<lambda>i. Some (f i)) (case w of Some i \<Rightarrow> [i] | None \<Rightarrow> [])"
  by (simp add: optional_u32_def split: option.split)

lemma vendor_specific_base:
  assumes "base_dictionary m"
  shows "vendor_specific_avp p m = (\<lambda>vsa. Some (from_grouped 260 0 None (vendor_specific_members vsa)))"
  using base_lookup(12) [OF assms]
  by (simp add: fun_eq_iff vendor_specific_avp_def vendor_specific_members_def base_named [OF assms] those_append
      optional_u32_base [OF base_named(1) [OF assms]] optional_u32_base [OF base_named(2) [OF assms]])
     (simp add: avp_json_new_def)

lemma create_capability_avps_base:
  assumes "base_dictionary m"
  shows "create_capability_avps p cap m = Some (capability_avps p cap)"
  by (simp add: create_capability_avps_def capability_avps_def base_named [OF assms] those_append
      vendor_specific_base [OF assms] optional_u32_base [OF base_named(3) [OF assms]])

section \<open>The capability AVPs on the wire\<close>

definition short_capability :: "platform \<Rightarrow> stack_capability \<Rightarrow> bool" where
  "short_capability p cap \<longleftrightarrow> length (cap_product_name cap) < 2 ^ 24 - 12
     \<and> (\<forall>ip\<in>set (list_or_default (cap_host_ips cap)). \<forall>b. v6_parse p ip = Some b \<longrightarrow> length b = 16)"

lemma wf_from:
  "wf_avp (from_unsigned32 c f v w)"
  "length s < 2 ^ 24 - 12 \<Longrightarrow> wf_avp (from_utf8_string c f v s)"
  "(\<forall>b. v6_parse p s = Some b \<longrightarrow> length b = 16) \<Longrightarrow> wf_avp (from_address p c f v s)"
  by (auto simp: from_unsigned32_def from_utf8_string_def from_address_def wf_avp_new
      dest!: v4_parse_length split: option.split intro!: wf_avp_new)

lemma wf_vendor_specific: "wf_avp (from_grouped 260 0 None (vendor_specific_members vsa))"
  by (simp add: from_grouped_def vendor_specific_members_def wf_from avp_encode_length
      total_length_including_padding_def from_unsigned32_def avp_new_def pad4_def split: option.split)

lemma wf_capability_avps: "short_capability p cap \<Longrightarrow> list_all wf_avp (capability_avps p cap)"
  by (auto simp: capability_avps_def short_capability_def list_all_iff wf_from wf_vendor_specific)

lemma get_avp_raw [simp]: "get_avp (command_raw c) k = map_option avp_raw (get_avp c k)"
proof -
  have "find (\<lambda>a. a_code a = k) (map avp_raw as) = map_option avp_raw (find (\<lambda>a. a_code a = k) as)" for as
    by (induction as) (simp_all add: avp_raw_def)
  then show ?thesis by (simp add: get_avp_def command_raw_def)
qed

lemma get_avps_raw: "get_avps (command_raw c) k = map avp_raw (get_avps c k)"
  by (simp add: get_avps_def command_raw_def filter_map comp_def avp_raw_def)

lemma command_raw_header [simp]:
  "c_code (command_raw c) = c_code c" "c_flags (command_raw c) = c_flags c"
  "c_hop_by_hop_id (command_raw c) = c_hop_by_hop_id c" "c_end_to_end_id (command_raw c) = c_end_to_end_id c"
  "is_request (command_raw c) = is_request c" "is_answer (command_raw c) = is_answer c"
  by (simp_all add: command_raw_def is_request_def is_answer_def)

lemma avp_raw_from [simp]:
  "avp_raw (from_unsigned32 c f v w) = from_unsigned32 c f v w"
  "avp_raw (from_utf8_string c f v s) = from_utf8_string c f v s"
  "avp_raw (from_address p c f v s) = from_address p c f v s"
  by (simp_all add: from_unsigned32_def from_utf8_string_def from_address_def)

lemma a_code_built [simp]:
  "a_code (from_unsigned32 c f v w) = c" "a_code (from_utf8_string c f v s) = c" "a_code (from_grouped c f v gs) = c"
  by (simp_all add: from_unsigned32_def from_utf8_string_def from_grouped_def)

lemma as_unsigned32_from [simp]: "as_unsigned32 (from_unsigned32 c f v w) = Some w"
  by (simp add: from_unsigned32_def unsigned32.get_new)

lemma cer_command_base:
  assumes "base_dictionary m"
  shows "cer_command p m host realm cap h e =
    Some (command_new 257 0x80 0 h e
      (from_utf8_string 264 0x40 None host # from_utf8_string 296 0x40 None realm # capability_avps p cap))"
  using assms by (simp add: cer_command_def named_origin_def base_named create_capability_avps_base)

lemma filter_const_code:
  "filter (\<lambda>a. a_code a = k) (map f xs) = (if c = k then map f xs else [])" if "\<And>x. a_code (f x) = c"
  using that by (induction xs) auto

lemma capability_get_avps:
  "filter (\<lambda>a. a_code a = 265) (capability_avps p cap) =
     map (from_unsigned32 265 0x40 None) (list_or_default (cap_supported_vendor_ids cap))"
  "filter (\<lambda>a. a_code a = 258) (capability_avps p cap) =
     map (from_unsigned32 258 0x40 None) (list_or_default (cap_auth_application_ids cap))"
  "filter (\<lambda>a. a_code a = 259) (capability_avps p cap) =
     map (from_unsigned32 259 0x40 None) (list_or_default (cap_acct_application_ids cap))"
  "filter (\<lambda>a. a_code a = 260) (capability_avps p cap) =
     map (\<lambda>vsa. from_grouped 260 0 None (vendor_specific_members vsa))
       (list_or_default (cap_vendor_specific_application_ids cap))"
  by (simp_all add: capability_avps_def filter_const_code [OF a_code_built(1)]
      filter_const_code [OF a_code_built(3)] filter_const_code [OF a_code_from(2)])

lemma tcp_create_cea_base:
  assumes "base_dictionary m"
  shows "tcp_create_cea p m host realm cap cer =
    Some (command_new 257 0 0 (c_hop_by_hop_id cer) (c_end_to_end_id cer)
      (from_unsigned32 268 0x40 None 2001 # from_utf8_string 264 0x40 None host
       # from_utf8_string 296 0x40 None realm # from_unsigned32 266 0x40 None 0 # capability_avps p cap))"
  using assms
  by (simp add: tcp_create_cea_def base_named create_capability_avps_base command_new_def add_avps_def
      set_result_code_def set_unsigned32_def) (simp add: from_unsigned32_def avp_new_def)

lemma cer_accepted:
  assumes "base_dictionary m" "short_capability p cap" "rust_string host" "rust_string realm"
    and "length host < 2 ^ 24 - 12" "length realm < 2 ^ 24 - 12"
    and "cer_command p m host realm cap h e = Some cer" "command_length cer < 2 ^ 24"
  shows "read_command (command_encode cer @ rest) = (Ok (command_raw cer), rest)"
    and "c_code (command_raw cer) = 257" "is_request (command_raw cer)"
    and "get_origin_host (command_raw cer) = Some host" "get_origin_realm (command_raw cer) = Some realm"
proof -
  have cer: "cer = command_new 257 0x80 0 h e
      (from_utf8_string 264 0x40 None host # from_utf8_string 296 0x40 None realm # capability_avps p cap)"
    using assms(7) cer_command_base [OF assms(1)] by simp
  have "wf_command cer"
    using assms(5,6,8) wf_capability_avps [OF assms(2)] unfolding cer
    by (simp add: wf_command_def command_new_def wf_from)
  then show "read_command (command_encode cer @ rest) = (Ok (command_raw cer), rest)" by (rule read_command_encoded)
  show "c_code (command_raw cer) = 257" "is_request (command_raw cer)"
    by (simp_all add: cer command_new_def is_request_def)
  show "get_origin_host (command_raw cer) = Some host" "get_origin_realm (command_raw cer) = Some realm"
    unfolding get_origin_host_def get_origin_realm_def get_avp_raw
    using as_utf8_from_utf8 [OF assms(3)] as_utf8_from_utf8 [OF assms(4)] by (simp_all add: cer get_avp_def command_new_def)
qed

section \<open>Properties\<close>

text \<open>The capabilities of a node reach its peer: with a dictionary that has the base AVPs, the
  Capabilities-Exchange-Request is built without a panic, and the peer that reads it from the stream
  finds the node's identity and, in order, exactly the configured vendors, applications and
  vendor-specific applications.\<close>

theorem capabilities_announced:
  assumes "base_dictionary m" "short_capability p cap" "rust_string host" "rust_string realm"
    and "length host < 2 ^ 24 - 12" "length realm < 2 ^ 24 - 12"
    and "\<forall>c. cer_command p m host realm cap h e = Some c \<longrightarrow> command_length c < 2 ^ 24"
  shows "\<exists>cer q. cer_command p m host realm cap h e = Some cer
    \<and> read_command (command_encode cer @ rest) = (Ok q, rest)
    \<and> c_code q = 257 \<and> is_request q \<and> c_hop_by_hop_id q = h \<and> c_end_to_end_id q = e
    \<and> get_origin_host q = Some host \<and> get_origin_realm q = Some realm
    \<and> map as_unsigned32 (get_avps q 265) = map Some (list_or_default (cap_supported_vendor_ids cap))
    \<and> map as_unsigned32 (get_avps q 258) = map Some (list_or_default (cap_auth_application_ids cap))
    \<and> map as_unsigned32 (get_avps q 259) = map Some (list_or_default (cap_acct_application_ids cap))
    \<and> map as_grouped (get_avps q 260) =
        map (Some \<circ> vendor_specific_members) (list_or_default (cap_vendor_specific_application_ids cap))"
proof -
  let ?avps = "from_utf8_string 264 0x40 None host # from_utf8_string 296 0x40 None realm # capability_avps p cap"
  let ?cer = "command_new 257 0x80 0 h e ?avps"
  have cer: "cer_command p m host realm cap h e = Some ?cer" by (rule cer_command_base [OF assms(1)])
  note q = cer_accepted [OF assms(1-6) cer]
  have "read_command (command_encode ?cer @ rest) = (Ok (command_raw ?cer), rest)"
    "get_origin_host (command_raw ?cer) = Some host" "get_origin_realm (command_raw ?cer) = Some realm"
    using assms(7) cer q by blast+
  moreover have "map as_grouped (map avp_raw (map (\<lambda>vsa. from_grouped 260 0 None (vendor_specific_members vsa)) vs))
      = map (Some \<circ> vendor_specific_members) vs" for vs
    using as_grouped_raw [OF wf_vendor_specific]
    by (simp add: comp_def is_grouped_def from_grouped_def vendor_specific_members_def)
  moreover have "get_avps ?cer k = filter (\<lambda>a. a_code a = k) (capability_avps p cap)" if "k \<notin> {264, 296}" for k
    using that by (auto simp: get_avps_def command_new_def)
  ultimately show ?thesis
    unfolding cer option.inject ex_simps
    by (intro exI [of _ ?cer] exI [of _ "command_raw ?cer"])
       (simp add: get_avps_raw capability_get_avps comp_def, simp add: command_new_def is_request_def)
qed

definition example_capability :: stack_capability where
  "example_capability =
     \<lparr>cap_vendor_id = 10415, cap_product_name = ''bridge'', cap_host_ips = None,
      cap_supported_vendor_ids = Some [10415, 13019], cap_auth_application_ids = Some [4],
      cap_acct_application_ids = None,
      cap_vendor_specific_application_ids = Some [\<lparr>vsa_vendor_id = 10415,
         vsa_auth_application_id = Some 16777251, vsa_acct_application_id = None\<rparr>],
      cap_inband_security_ids = None, cap_firmware_revision = Some 1, cap_extra = Map.empty\<rparr>"

lemma example_capability_short: "short_capability p example_capability"
  by (simp add: short_capability_def example_capability_def list_or_default_def)

lemma base_dictionary_standard: "base_dictionary (avp_map_new [])"
  by (rule base_dictionary_new) simp

lemma example_cer_length:
  "cer_command p (avp_map_new []) ''a.x'' ''x'' example_capability h e = Some c \<Longrightarrow> command_length c < 2 ^ 24"
  by (auto simp: cer_command_base [OF base_dictionary_standard] command_length_def command_new_def capability_avps_def
      example_capability_def list_or_default_def total_length_including_padding_def pad4_def from_unsigned32_def
      from_utf8_string_def from_grouped_def vendor_specific_members_def avp_new_def)

theorem capabilities_announced_witness:
  "\<forall>p. \<exists>cer q. cer_command p (avp_map_new []) ''a.x'' ''x'' example_capability 1 2 = Some cer
     \<and> read_command (command_encode cer @ []) = (Ok q, [])
     \<and> get_origin_host q = Some ''a.x'' \<and> map as_unsigned32 (get_avps q 265) = [Some 10415, Some 13019]"
proof
  fix p
  have "rust_string ''a.x''" "rust_string ''x''" by code_simp+
  then show "\<exists>cer q. cer_command p (avp_map_new []) ''a.x'' ''x'' example_capability 1 2 = Some cer
     \<and> read_command (command_encode cer @ []) = (Ok q, [])
     \<and> get_origin_host q = Some ''a.x'' \<and> map as_unsigned32 (get_avps q 265) = [Some 10415, Some 13019]"
    using capabilities_announced [OF base_dictionary_standard example_capability_short, of "''a.x''" "''x''" p 1 2 "[]"]
      example_cer_length
    by (fastforce simp: example_capability_def list_or_default_def)
qed

end
