(* ===== verification/Peer_Link.thy ===== *)
theory Peer_Link
  imports Peer_Messages Strategy Command_Processor
begin

text \<open>
  What the connections of both transports share: the write half of a socket behind a mutex, the
  identifier generators, the alarms they ask for, and the hand-over of application commands to the
  command processor.

  A connection is modelled from the side of the task that reads it. The node (the state all tasks
  share) is part of its state. \<open>lk_writer\<close> records the bytes this task writes; a command that
  another task sends over the connection goes through the same mutex, hence as a whole, and is in
  the log of the node. Whether the k-th operation on the socket succeeds is the oracle
  \<open>si_io\<close>: \<open>None\<close>, or the number of bytes written before it fails.
\<close>

record writer =
  wr_sent :: bytes
  wr_shut :: bool

datatype alarm_call = RaiseAlarm string string string string | ClearAlarm string string string

record link =
  lk_node :: node
  lk_end_to_end :: id_generator
  lk_writer :: "writer option"
  lk_ops :: nat
  lk_alarms :: "alarm_call list"

record site =
  si_out :: outside
  si_io :: "nat \<Rightarrow> nat option"
  si_avp_map :: avp_map
  si_handler :: default_handler
  si_alarm_sender :: bool

datatype link_error =
  NotEstablished | NotConnected | WriteFailed | CloseFailed | ReadFailed | TlsFailed
| ProcessFailed process_error | CeaNotRead read_error | NotACea | CeaRejected u32 | CeaWithoutResult
| CerNotRead read_error | NotACer | CerWithoutOrigin

abbreviation new_writer :: writer where
  "new_writer \<equiv> \<lparr>wr_sent = [], wr_shut = False\<rparr>"

definition write_all :: "site \<Rightarrow> bytes \<Rightarrow> 'a link_scheme \<Rightarrow> (link_error, unit) outcome \<times> 'a link_scheme" where
  "write_all s data l =
     (case lk_writer l of
        None \<Rightarrow> (Err NotEstablished, l)
      | Some w \<Rightarrow>
          let l1 = l\<lparr>lk_ops := lk_ops l + 1\<rparr> in
          if wr_shut w then (Err WriteFailed, l1)
          else
            (case si_io s (lk_ops l) of
               None \<Rightarrow> (Ok (), l1\<lparr>lk_writer := Some (w\<lparr>wr_sent := wr_sent w @ data\<rparr>)\<rparr>)
             | Some n \<Rightarrow> (Err WriteFailed, l1\<lparr>lk_writer := Some (w\<lparr>wr_sent := wr_sent w @ take n data\<rparr>)\<rparr>)))"

definition shutdown_writer :: "site \<Rightarrow> 'a link_scheme \<Rightarrow> (link_error, unit) outcome \<times> 'a link_scheme" where
  "shutdown_writer s l =
     (case lk_writer l of
        None \<Rightarrow> (Err NotEstablished, l)
      | Some w \<Rightarrow>
          let l1 = l\<lparr>lk_ops := lk_ops l + 1\<rparr> in
          if si_io s (lk_ops l) = None then (Ok (), l1\<lparr>lk_writer := Some (w\<lparr>wr_shut := True\<rparr>)\<rparr>)
          else (Err CloseFailed, l1))"

text \<open>A hop-by-hop and an end-to-end identifier from the generators.\<close>

definition fresh_ids :: "'a link_scheme \<Rightarrow> (u32 \<times> u32) \<times> 'a link_scheme" where
  "fresh_ids l =
     (let (h, ids) = next_id (nd_ids (lk_node l)); (e, e2e) = next_id (lk_end_to_end l) in
      ((h, e), l\<lparr>lk_node := (lk_node l)\<lparr>nd_ids := ids\<rparr>, lk_end_to_end := e2e\<rparr>))"

definition link_alarm :: "site \<Rightarrow> alarm_call \<Rightarrow> 'a link_scheme \<Rightarrow> 'a link_scheme" where
  "link_alarm s a l = (if si_alarm_sender s then l\<lparr>lk_alarms := lk_alarms l @ [a]\<rparr> else l)"

definition process_application ::
  "site \<Rightarrow> proc_context \<Rightarrow> command \<Rightarrow> 'a link_scheme \<Rightarrow> (link_error, unit) outcome \<times> 'a link_scheme" where
  "process_application s cx q l =
     (case process_command (si_out s) cx q (lk_node l) of
        (Ok u, nd) \<Rightarrow> (Ok (), l\<lparr>lk_node := nd\<rparr>)
      | (Err e, nd) \<Rightarrow> (Err (ProcessFailed e), l\<lparr>lk_node := nd\<rparr>)
      | (Panic, nd) \<Rightarrow> (Panic, l\<lparr>lk_node := nd\<rparr>))"

text \<open>The context of a client connection for the command processor; its id is the address of a
  TCP peer, or the addresses of an SCTP peer.\<close>

definition client_id :: "client_connection \<Rightarrow> string" where
  "client_id c =
     (case cl_transport c of Tcp \<Rightarrow> cl_addresses c ! 0 | Sctp i p \<Rightarrow> join_with (CHR '','') (cl_addresses c))"

definition client_context :: "site \<Rightarrow> client_connection \<Rightarrow> proc_context" where
  "client_context s c =
     \<lparr>cx_connection_id = client_id c, cx_my_host = cl_host c, cx_my_realm = cl_realm c,
      cx_peer_host = cl_peer_host c, cx_peer_realm = cl_peer_realm c, cx_handler = si_handler s\<rparr>"

section \<open>Sending as an interface\<close>

definition written :: "'a link_scheme \<Rightarrow> bytes" where
  "written l = (case lk_writer l of Some w \<Rightarrow> wr_sent w | None \<Rightarrow> [])"

fun send_all :: "(command \<Rightarrow> 'l \<Rightarrow> (link_error, unit) outcome \<times> 'l) \<Rightarrow> command list \<Rightarrow> 'l
    \<Rightarrow> (link_error, unit) outcome \<times> 'l" where
  "send_all send [] l = (Ok (), l)"
| "send_all send (q # qs) l =
     (case send q l of (Ok u, l1) \<Rightarrow> send_all send qs l1 | r \<Rightarrow> r)"

text \<open>
  A way to send commands: a send that succeeds appends the encoding of the command to the stream,
  one that fails appends a part of it, and neither panics. Whatever sends this way is read back by
  the peer, command by command.
\<close>

locale command_sender =
  fixes transmit :: "command \<Rightarrow> 'l \<Rightarrow> (link_error, unit) outcome \<times> 'l" and stream :: "'l \<Rightarrow> bytes"
  assumes transmit_Ok: "transmit q l = (Ok u, l') \<Longrightarrow> stream l' = stream l @ command_encode q"
    and transmit_Err: "transmit q l = (Err e, l') \<Longrightarrow> \<exists>n. stream l' = stream l @ take n (command_encode q)"
    and transmit_returns: "fst (transmit q l) \<noteq> Panic"
begin

lemma send_all_stream:
  "send_all transmit qs l = (Ok u, l') \<Longrightarrow> stream l' = stream l @ concat (map command_encode qs)"
proof (induction qs arbitrary: l)
  case (Cons q qs)
  then obtain l1 where "transmit q l = (Ok (), l1)" "send_all transmit qs l1 = (Ok u, l')"
    by (auto split: prod.splits outcome.splits)
  then show ?case using Cons.IH [of l1] transmit_Ok [of q l "()" l1] by simp
qed simp

text \<open>What the peer makes of the bytes that were sent, however the network cuts them.\<close>

lemma transmitted_read:
  assumes "send_all transmit qs l = (Ok u, l')" "stream l = concat (map command_encode ps)"
    and "\<forall>q\<in>set (ps @ qs). wf_command q"
    and "concat chunks = stream l'"
  shows "receive_chunks [] chunks = (map command_raw (ps @ qs), [])"
  unfolding receive_chunks_drain
  using send_all_stream [OF assms(1)] assms(2-4) pending_start [OF assms(3)]
  by (intro command_stream.chunking_irrelevant) simp_all

end

lemma write_all_written:
  "write_all s data l = (Ok u, l') \<Longrightarrow> written l' = written l @ data"
  "write_all s data l = (Err e, l') \<Longrightarrow> \<exists>n. written l' = written l @ take n data"
  "fst (write_all s data l) \<noteq> Panic"
  by (auto simp: write_all_def written_def Let_def split: option.splits if_splits)
     (metis append_Nil2 take0)

end
