(* ===== verification/Server_Link.thy ===== *)
theory Server_Link
  imports Peer_Link
begin

text \<open>
  A connection a peer has opened, as both transports serve it: the task registers the connection
  with the connection manager and clears its alarm, reads and processes commands until the stream
  ends, then raises the alarm and deregisters the connection. The transports differ in how a command
  is processed, the parameter \<open>process\<close>.
\<close>

text \<open>\<open>srv_handle\<close> is the identity of the connection object in the connection manager.\<close>

datatype read_event = Tick | Eof | Bytes bytes | ReadError

record server_conn =
  srv_id :: string
  srv_my_host :: string
  srv_my_realm :: string
  srv_peer_host :: string
  srv_peer_realm :: string
  srv_handle :: nat

datatype server_phase = Spawned | Listening command_buffer | Finished | Died

record server_link = link +
  sl_closed :: bool
  sl_phase :: server_phase

definition server_context :: "site \<Rightarrow> server_conn \<Rightarrow> proc_context" where
  "server_context s c =
     \<lparr>cx_connection_id = srv_id c, cx_my_host = srv_my_host c, cx_my_realm = srv_my_realm c,
      cx_peer_host = srv_peer_host c, cx_peer_realm = srv_peer_realm c, cx_handler = si_handler s\<rparr>"

text \<open>An error is logged and the next command is processed.\<close>

fun process_each :: "(command \<Rightarrow> 'l \<Rightarrow> (link_error, unit) outcome \<times> 'l) \<Rightarrow> command list \<Rightarrow> 'l
    \<Rightarrow> (link_error, unit) outcome \<times> 'l" where
  "process_each process [] l = (Ok (), l)"
| "process_each process (q # qs) l =
     (case process q l of
        (Panic, l1) \<Rightarrow> (Panic, l1)
      | (_, l1) \<Rightarrow> process_each process qs l1)"

definition server_entry :: "server_conn \<Rightarrow> centry" where
  "server_entry c = \<lparr>ce_conn = Leaf (srv_handle c), ce_host = srv_peer_host c, ce_realm = srv_peer_realm c\<rparr>"

text \<open>The task of a new server connection: register, clear the alarm; after the loop raise the
  alarm and deregister.\<close>

definition server_begin :: "site \<Rightarrow> server_conn \<Rightarrow> server_link \<Rightarrow> server_link" where
  "server_begin s c l =
     (link_alarm s (ClearAlarm (srv_id c) (srv_peer_host c) (srv_peer_realm c))
        (l\<lparr>lk_node := (lk_node l)\<lparr>nd_mgr := cm_add_connection (nd_mgr (lk_node l)) (srv_id c) (server_entry c)\<rparr>\<rparr>))
     \<lparr>sl_phase := Listening []\<rparr>"

definition server_finish :: "site \<Rightarrow> server_conn \<Rightarrow> server_link \<Rightarrow> server_link" where
  "server_finish s c l =
     (let l1 = link_alarm s
            (RaiseAlarm (srv_id c) (srv_peer_host c) (srv_peer_realm c)
               (''Lost connection from diameter peer '' @ srv_peer_host c @ ''@'' @ srv_peer_realm c
                @ '' at '' @ srv_id c)) l in
      l1\<lparr>lk_node := (lk_node l1)\<lparr>nd_mgr := remove_connection_by_id (nd_mgr (lk_node l1)) (srv_id c)\<rparr>,
         sl_phase := Finished\<rparr>)"

definition server_step ::
  "(command \<Rightarrow> server_link \<Rightarrow> (link_error, unit) outcome \<times> server_link) \<Rightarrow> site \<Rightarrow> server_conn \<Rightarrow> read_event
   \<Rightarrow> server_link \<Rightarrow> server_link option" where
  "server_step process s c ev l =
     (case (sl_phase l, ev) of
        (Listening buf, Eof) \<Rightarrow> Some (server_finish s c l)
      | (Listening buf, ReadError) \<Rightarrow> Some (server_finish s c l)
      | (Listening buf, Bytes data) \<Rightarrow>
          (case buffer_read_commands (buffer_append buf data) of
             (qs, buf') \<Rightarrow>
               (case process_each process qs l of
                  (Panic, l1) \<Rightarrow> Some (l1\<lparr>sl_phase := Died\<rparr>)
                | (_, l1) \<Rightarrow> Some (l1\<lparr>sl_phase := Listening buf'\<rparr>)))
      | _ \<Rightarrow> None)"

record diameter_server =
  dsv_host :: string
  dsv_realm :: string
  dsv_capability :: stack_capability

text \<open>\<open>create_connection_from_cer\<close>: the peer is who its CER says it is.\<close>

definition create_connection_from_cer :: "diameter_server \<Rightarrow> command \<Rightarrow> string \<Rightarrow> nat \<Rightarrow> server_conn" where
  "create_connection_from_cer sv cer peer_addr handle =
     \<lparr>srv_id = peer_addr, srv_my_host = dsv_host sv, srv_my_realm = dsv_realm sv,
      srv_peer_host = str_or_default (get_origin_host cer),
      srv_peer_realm = str_or_default (get_origin_realm cer), srv_handle = handle\<rparr>"

section \<open>The registry while a connection is served\<close>

inductive server_reaches ::
  "(command \<Rightarrow> server_link \<Rightarrow> (link_error, unit) outcome \<times> server_link) \<Rightarrow> site \<Rightarrow> server_conn \<Rightarrow> server_link
   \<Rightarrow> server_link \<Rightarrow> bool" for process s c l0 where
  start: "server_reaches process s c l0 l0"
| step: "server_reaches process s c l0 l \<Longrightarrow> server_step process s c ev l = Some l' \<Longrightarrow>
    server_reaches process s c l0 l'"

definition in_registry :: "server_conn \<Rightarrow> server_link \<Rightarrow> bool" where
  "in_registry c l \<longleftrightarrow> get_connection_by_id (nd_mgr (lk_node l)) (srv_id c) = Some (server_entry c)"

definition server_ok :: "server_conn \<Rightarrow> server_link \<Rightarrow> bool" where
  "server_ok c l \<longleftrightarrow>
     (case sl_phase l of
        Spawned \<Rightarrow> False
      | Listening buf \<Rightarrow> in_registry c l
      | Finished \<Rightarrow> get_connection_by_id (nd_mgr (lk_node l)) (srv_id c) = None
      | Died \<Rightarrow> in_registry c l)"

lemma link_alarm_node [simp]: "lk_node (link_alarm s a l) = lk_node l"
  by (simp add: link_alarm_def)

lemma link_alarm_sl_phase [simp]: "sl_phase (link_alarm s a l) = sl_phase l"
  by (simp add: link_alarm_def)

lemma in_registry_begin: "in_registry c (server_begin s c l)"
  by (simp add: server_begin_def in_registry_def get_connection_by_id_def cm_add_connection_simps update_conv')

lemma server_ok_begin: "server_ok c (server_begin s c l)"
  using in_registry_begin [of c s l] by (simp add: server_ok_def server_begin_def)

lemma removed_not_found: "get_connection_by_id (remove_connection_by_id m i) i = None"
  by (simp add: remove_connection_by_id_def get_connection_by_id_def forget_names_def delete_conv split: option.split)

text \<open>
  The interface: processing a command leaves the registry of the connection manager alone. Then the
  connection is found under its id for as long as it is served, and not afterwards.
\<close>

locale server_transport =
  fixes process :: "command \<Rightarrow> server_link \<Rightarrow> (link_error, unit) outcome \<times> server_link"
  assumes keeps_registry: "same_config (nd_mgr (lk_node l)) (nd_mgr (lk_node (snd (process q l))))"
begin

lemma process_each_registry:
  "same_config (nd_mgr (lk_node l)) (nd_mgr (lk_node (snd (process_each process qs l))))"
proof (induction qs arbitrary: l)
  case (Cons q qs)
  then show ?case
    using keeps_registry [of l q] by (auto split: prod.split outcome.split intro: same_config_trans)
qed simp

lemma server_ok_step:
  assumes "server_ok c l" "server_step process s c ev l = Some l'"
  shows "server_ok c l'"
proof (cases "sl_phase l")
  case (Listening buf)
  have "in_registry c (snd (process_each process qs l))" for qs
    using process_each_registry [of l qs] assms(1) Listening
    by (simp add: server_ok_def in_registry_def same_config_def get_connection_by_id_def)
  then show ?thesis
    using assms(2) Listening
    by (cases ev)
       (auto simp: server_step_def server_ok_def server_finish_def in_registry_def removed_not_found Let_def
          split: prod.splits outcome.splits, (metis snd_conv)+)
qed (use assms in \<open>simp_all add: server_step_def\<close>)

lemma server_ok_reaches: "server_reaches process s c l0 l \<Longrightarrow> server_ok c l0 \<Longrightarrow> server_ok c l"
  by (induction rule: server_reaches.induct) (auto intro: server_ok_step)

lemma served_until_end:
  assumes "server_reaches process s c (server_begin s c l0) l" "sl_phase l = Listening buf"
  shows "in_registry c l"
    and "\<exists>l'. server_step process s c (Bytes data) l = Some l' \<and> in_registry c l'"
    and "ev \<in> {Eof, ReadError} \<Longrightarrow> \<exists>l' msg. server_step process s c ev l = Some l' \<and> sl_phase l' = Finished
         \<and> get_connection_by_id (nd_mgr (lk_node l')) (srv_id c) = None
         \<and> (si_alarm_sender s \<longrightarrow>
              lk_alarms l' = lk_alarms l @ [RaiseAlarm (srv_id c) (srv_peer_host c) (srv_peer_realm c) msg])"
proof -
  have ok: "server_ok c l" by (rule server_ok_reaches [OF assms(1) server_ok_begin])
  then show "in_registry c l" using assms(2) by (simp add: server_ok_def)
  obtain qs buf' x l1 where "buffer_read_commands (buffer_append buf data) = (qs, buf')"
    "process_each process qs l = (x, l1)" by (metis surj_pair)
  then obtain l' where st: "server_step process s c (Bytes data) l = Some l'" "sl_phase l' \<noteq> Finished"
    using assms(2) by (cases x) (simp_all add: server_step_def)
  then show "\<exists>l'. server_step process s c (Bytes data) l = Some l' \<and> in_registry c l'"
    using server_ok_step [OF ok st(1)] by (auto simp: server_ok_def split: server_phase.splits)
  show "\<exists>l' msg. server_step process s c ev l = Some l' \<and> sl_phase l' = Finished
         \<and> get_connection_by_id (nd_mgr (lk_node l')) (srv_id c) = None
         \<and> (si_alarm_sender s \<longrightarrow>
              lk_alarms l' = lk_alarms l @ [RaiseAlarm (srv_id c) (srv_peer_host c) (srv_peer_realm c) msg])"
    if "ev \<in> {Eof, ReadError}"
    using assms(2) that by (auto simp: server_step_def server_finish_def link_alarm_def removed_not_found Let_def)
qed

end

lemma process_application_config:
  "same_config (nd_mgr (lk_node l)) (nd_mgr (lk_node (snd (process_application s cx q l))))"
  using process_command_config [of "lk_node l" "si_out s" cx q]
  by (auto simp: process_application_def split: prod.splits outcome.split)

lemma node_kept:
  "write_all s data l = (x, l') \<Longrightarrow> lk_node l' = lk_node l"
  "shutdown_writer s l = (x, l') \<Longrightarrow> lk_node l' = lk_node l"
  by (auto simp: write_all_def shutdown_writer_def Let_def split: option.splits if_splits)

end
