(* ===== verification/Tls_Files.thy ===== *)
theory Tls_Files
  imports Config
begin

text \<open>
  How the program decides whether a connection is encrypted, and with what: the file queries and
  \<open>load_rustls_config\<close> of \<open>utils.rs\<close>, \<open>build_tls_connector\<close> and
  \<open>build_tls_acceptor\<close> of the TCP transport, \<open>dtls_enabled\<close> and
  \<open>secure_stream\<close> of the SCTP transport, and the HTTP client of the alarm sender.

  The file system is a record of the answers of \<open>std::fs\<close>. PEM parsing and the checks of the
  TLS libraries are a record of functions; certificates and keys are opaque. A configuration is the
  values the code puts into it.
\<close>

record files =
  f_len :: "string \<Rightarrow> nat option"
  f_is_file :: "string \<Rightarrow> bool"
  f_read :: "string \<Rightarrow> string option"

record ('c, 'k) tls_library =
  tl_certs :: "string \<Rightarrow> 'c option list"
  tl_private_key :: "string \<Rightarrow> 'k option option"
  tl_add_root :: "'c \<Rightarrow> bool"
  tl_verifier :: "'c list \<Rightarrow> bool"
  tl_config :: "'c list \<Rightarrow> 'k \<Rightarrow> bool"
  tl_webpki_roots :: "'c list"
  tl_dtls_identity :: "string \<Rightarrow> 'c option"
  tl_http_ca :: "string \<Rightarrow> 'c option"
  tl_http_identity :: "string \<Rightarrow> 'k option"

datatype tls_error =
  FilesMissing | CannotRead string | NoCertificates string | KeyNotParsed string | NoPrivateKey string
| CaNotParsed | CaNotAdded | VerifierNotBuilt | ConfigNotBuilt | IdentityNotBuilt | HandshakeFailed

datatype 'c client_auth = NoClientAuth | VerifiedBy "'c list"

record ('c, 'k) server_config =
  sv_client_auth :: "'c client_auth"
  sv_certs :: "'c list"
  sv_key :: 'k

record ('c, 'k) client_config =
  cc_roots :: "'c list"
  cc_certs :: "'c list"
  cc_key :: 'k

section \<open>Files\<close>

definition is_empty_file :: "files \<Rightarrow> string \<Rightarrow> bool" where
  "is_empty_file fs path = (case f_len fs path of Some n \<Rightarrow> n = 0 | None \<Rightarrow> True)"

definition is_non_empty_file :: "files \<Rightarrow> string \<Rightarrow> bool" where
  "is_non_empty_file fs path = (case f_len fs path of Some n \<Rightarrow> n > 0 | None \<Rightarrow> False)"

definition read_file :: "files \<Rightarrow> string \<Rightarrow> (tls_error, string) outcome" where
  "read_file fs path = (case f_read fs path of Some s \<Rightarrow> Ok s | None \<Rightarrow> Err (CannotRead path))"

definition read_to_string :: "files \<Rightarrow> string \<Rightarrow> (tls_error, string) outcome" where
  "read_to_string fs path =
     bind_ok (read_file fs path) (\<lambda>s. if rust_string s then Ok s else Err (CannotRead path))"

section \<open>Identity and roots\<close>

text \<open>\<open>filter_map(|r| r.ok())\<close> over the certificates of a PEM text.\<close>

definition parsed_certs :: "('c, 'k) tls_library \<Rightarrow> string \<Rightarrow> 'c list" where
  "parsed_certs lib pem = List.map_filter (\<lambda>r. r) (tl_certs lib pem)"

definition parse_key :: "('c, 'k) tls_library \<Rightarrow> string \<Rightarrow> string \<Rightarrow> (tls_error, 'k) outcome" where
  "parse_key lib path pem =
     (case tl_private_key lib pem of
        None \<Rightarrow> Err (KeyNotParsed path)
      | Some None \<Rightarrow> Err (NoPrivateKey path)
      | Some (Some key) \<Rightarrow> Ok key)"

fun add_roots :: "('c, 'k) tls_library \<Rightarrow> 'c list \<Rightarrow> 'c list \<Rightarrow> (tls_error, 'c list) outcome" where
  "add_roots lib store [] = Ok store"
| "add_roots lib store (c # cs) = (if tl_add_root lib c then add_roots lib (store @ [c]) cs else Err CaNotAdded)"

definition load_identity :: "files \<Rightarrow> ('c, 'k) tls_library \<Rightarrow> string \<Rightarrow> string \<Rightarrow> (tls_error, 'c list \<times> 'k) outcome" where
  "load_identity fs lib cert_file key_file =
     bind_ok (read_file fs cert_file) (\<lambda>cert_pem.
     bind_ok (read_file fs key_file) (\<lambda>key_pem.
       let certs = parsed_certs lib cert_pem in
       if certs = [] then Err (NoCertificates cert_file)
       else map_ok (\<lambda>key. (certs, key)) (parse_key lib key_file key_pem)))"

definition load_roots :: "files \<Rightarrow> ('c, 'k) tls_library \<Rightarrow> string \<Rightarrow> (tls_error, 'c list) outcome" where
  "load_roots fs lib ca_cert_file =
     bind_ok (read_file fs ca_cert_file) (\<lambda>ca_pem. add_roots lib [] (parsed_certs lib ca_pem))"

definition no_file :: "files \<Rightarrow> string \<Rightarrow> bool" where
  "no_file fs path \<longleftrightarrow> path = '''' \<or> is_empty_file fs path"

definition server_config_for ::
  "('c, 'k) tls_library \<Rightarrow> 'c list option \<Rightarrow> 'c list \<Rightarrow> 'k \<Rightarrow> (tls_error, ('c, 'k) server_config) outcome" where
  "server_config_for lib roots certs key =
     (case roots of
        Some store \<Rightarrow>
          if \<not> tl_verifier lib store then Err VerifierNotBuilt
          else if tl_config lib certs key then
            Ok \<lparr>sv_client_auth = VerifiedBy store, sv_certs = certs, sv_key = key\<rparr>
          else Err ConfigNotBuilt
      | None \<Rightarrow>
          if tl_config lib certs key then Ok \<lparr>sv_client_auth = NoClientAuth, sv_certs = certs, sv_key = key\<rparr>
          else Err ConfigNotBuilt)"

section \<open>TCP\<close>

definition build_tls_connector ::
  "files \<Rightarrow> ('c, 'k) tls_library \<Rightarrow> string \<Rightarrow> string \<Rightarrow> string \<Rightarrow> (tls_error, ('c, 'k) client_config option) outcome" where
  "build_tls_connector fs lib cert_file key_file ca_cert_file =
     (if no_file fs cert_file \<or> no_file fs key_file then Ok None
      else
        bind_ok (load_identity fs lib cert_file key_file) (\<lambda>(certs, key).
        bind_ok (if no_file fs ca_cert_file then Ok (tl_webpki_roots lib) else load_roots fs lib ca_cert_file) (\<lambda>roots.
          if tl_config lib certs key then Ok (Some \<lparr>cc_roots = roots, cc_certs = certs, cc_key = key\<rparr>)
          else Err ConfigNotBuilt)))"

definition build_tls_acceptor ::
  "files \<Rightarrow> ('c, 'k) tls_library \<Rightarrow> string \<Rightarrow> string \<Rightarrow> string \<Rightarrow> (tls_error, ('c, 'k) server_config option) outcome" where
  "build_tls_acceptor fs lib cert_file key_file ca_cert_file =
     (if no_file fs cert_file \<or> no_file fs key_file then Ok None
      else
        bind_ok (load_identity fs lib cert_file key_file) (\<lambda>(certs, key).
        bind_ok (if no_file fs ca_cert_file then Ok None else map_ok Some (load_roots fs lib ca_cert_file)) (\<lambda>roots.
          map_ok Some (server_config_for lib roots certs key))))"

section \<open>REST\<close>

text \<open>\<open>load_rustls_config\<close> does not reject an empty list of certificates itself.\<close>

definition load_rustls_config ::
  "files \<Rightarrow> ('c, 'k) tls_library \<Rightarrow> string \<Rightarrow> string \<Rightarrow> string \<Rightarrow> (tls_error, ('c, 'k) server_config) outcome" where
  "load_rustls_config fs lib cert_path key_path ca_cert_path =
     (if is_empty_file fs cert_path \<or> is_empty_file fs key_path then Err FilesMissing
      else
        bind_ok (read_file fs cert_path) (\<lambda>cert_pem.
        bind_ok (read_file fs key_path) (\<lambda>key_pem.
        bind_ok (parse_key lib key_path key_pem) (\<lambda>key.
        bind_ok (if is_empty_file fs ca_cert_path then Ok None else map_ok Some (load_roots fs lib ca_cert_path)) (\<lambda>roots.
          server_config_for lib roots (parsed_certs lib cert_pem) key)))))"

section \<open>SCTP\<close>

record 'c dtls_config =
  dc_certificate :: 'c
  dc_roots :: "'c list"
  dc_server_name :: string
  dc_is_client :: bool

datatype 'c sctp_connection_stream = PlainStream | DtlsStream "'c dtls_config"

definition dtls_enabled :: "files \<Rightarrow> string \<Rightarrow> string \<Rightarrow> bool" where
  "dtls_enabled fs cert_file key_file \<longleftrightarrow>
     cert_file \<noteq> '''' \<and> key_file \<noteq> '''' \<and> \<not> is_empty_file fs cert_file \<and> \<not> is_empty_file fs key_file"

fun add_parsed_roots :: "('c, 'k) tls_library \<Rightarrow> 'c list \<Rightarrow> 'c option list \<Rightarrow> (tls_error, 'c list) outcome" where
  "add_parsed_roots lib store [] = Ok store"
| "add_parsed_roots lib store (None # cs) = Err CaNotParsed"
| "add_parsed_roots lib store (Some c # cs) =
     (if tl_add_root lib c then add_parsed_roots lib (store @ [c]) cs else Err CaNotAdded)"

definition dtls_identity :: "files \<Rightarrow> ('c, 'k) tls_library \<Rightarrow> string \<Rightarrow> string \<Rightarrow> (tls_error, 'c) outcome" where
  "dtls_identity fs lib cert_file key_file =
     bind_ok (read_to_string fs key_file) (\<lambda>key_pem.
     bind_ok (read_to_string fs cert_file) (\<lambda>cert_pem.
       case tl_dtls_identity lib (key_pem @ [CHR 0x0A] @ cert_pem) of
         Some c \<Rightarrow> Ok c
       | None \<Rightarrow> Err IdentityNotBuilt))"

definition dtls_roots :: "files \<Rightarrow> ('c, 'k) tls_library \<Rightarrow> 'c list \<Rightarrow> string \<Rightarrow> (tls_error, 'c list) outcome" where
  "dtls_roots fs lib default_roots ca_cert_file =
     (if no_file fs ca_cert_file then Ok default_roots
      else bind_ok (read_file fs ca_cert_file) (\<lambda>ca_pem. add_parsed_roots lib [] (tl_certs lib ca_pem)))"

text \<open>Both sides, with the outcome of the handshake as a parameter. The server never sets the client
  authentication of the DTLS configuration, which therefore is the library's default.\<close>

definition sctp_client_secure_stream ::
  "files \<Rightarrow> ('c, 'k) tls_library \<Rightarrow> ('c dtls_config \<Rightarrow> bool) \<Rightarrow> string \<Rightarrow> string \<Rightarrow> string \<Rightarrow> string
   \<Rightarrow> (tls_error, 'c sctp_connection_stream) outcome" where
  "sctp_client_secure_stream fs lib handshake my_host cert_file key_file ca_cert_file =
     (if \<not> dtls_enabled fs cert_file key_file then Ok PlainStream
      else
        bind_ok (dtls_identity fs lib cert_file key_file) (\<lambda>c.
        bind_ok (dtls_roots fs lib (tl_webpki_roots lib) ca_cert_file) (\<lambda>roots.
          let config = \<lparr>dc_certificate = c, dc_roots = roots, dc_server_name = my_host, dc_is_client = True\<rparr> in
          if handshake config then Ok (DtlsStream config) else Err HandshakeFailed)))"

definition sctp_server_secure_stream ::
  "files \<Rightarrow> ('c, 'k) tls_library \<Rightarrow> ('c dtls_config \<Rightarrow> bool) \<Rightarrow> string \<Rightarrow> string \<Rightarrow> string
   \<Rightarrow> (tls_error, 'c sctp_connection_stream) outcome" where
  "sctp_server_secure_stream fs lib handshake cert_file key_file ca_cert_file =
     (if \<not> dtls_enabled fs cert_file key_file then Ok PlainStream
      else
        bind_ok (dtls_identity fs lib cert_file key_file) (\<lambda>c.
        bind_ok (dtls_roots fs lib [] ca_cert_file) (\<lambda>roots.
          let config = \<lparr>dc_certificate = c, dc_roots = roots, dc_server_name = '''', dc_is_client = False\<rparr> in
          if handshake config then Ok (DtlsStream config) else Err HandshakeFailed)))"

section \<open>The alarm sender\<close>

record ('c, 'k) http_client =
  hc_extra_root :: "'c option"
  hc_identity :: "'k option"

definition build_client ::
  "files \<Rightarrow> ('c, 'k) tls_library \<Rightarrow> (('c, 'k) http_client \<Rightarrow> bool) \<Rightarrow> string \<Rightarrow> string \<Rightarrow> string
   \<Rightarrow> (tls_error, ('c, 'k) http_client) outcome" where
  "build_client fs lib build cert_path key_path ca_cert_path =
     bind_ok
       (if ca_cert_path = '''' then Ok None
        else bind_ok (read_file fs ca_cert_path) (\<lambda>ca_pem.
          case tl_http_ca lib ca_pem of Some c \<Rightarrow> Ok (Some c) | None \<Rightarrow> Err CaNotParsed)) (\<lambda>root.
     bind_ok
       (if cert_path = '''' \<or> key_path = '''' then Ok None
        else bind_ok (read_file fs cert_path) (\<lambda>cert_pem.
          bind_ok (read_file fs key_path) (\<lambda>key_pem.
            case tl_http_identity lib (cert_pem @ key_pem) of Some k \<Rightarrow> Ok (Some k) | None \<Rightarrow> Err IdentityNotBuilt))) (\<lambda>ident.
       let client = \<lparr>hc_extra_root = root, hc_identity = ident\<rparr> in
       if build client then Ok client else Err ConfigNotBuilt))"

text \<open>\<open>AlarmSender::new\<close> goes on with the default client when that fails.\<close>

definition alarm_client ::
  "files \<Rightarrow> ('c, 'k) tls_library \<Rightarrow> (('c, 'k) http_client \<Rightarrow> bool) \<Rightarrow> string option \<Rightarrow> string option \<Rightarrow> string option
   \<Rightarrow> ('c, 'k) http_client" where
  "alarm_client fs lib build cert_file key_file ca_cert_file =
     (let path = (\<lambda>p. case p of Some s \<Rightarrow> s | None \<Rightarrow> '''') in
      case build_client fs lib build (path cert_file) (path key_file) (path ca_cert_file) of
        Ok client \<Rightarrow> client
      | _ \<Rightarrow> \<lparr>hc_extra_root = None, hc_identity = None\<rparr>)"

text \<open>What \<open>HttpRestListener::start\<close> serves with: \<open>None\<close> is plain HTTP. Every error of
  \<open>load_rustls_config\<close> ends there.\<close>

definition rest_server_config ::
  "files \<Rightarrow> ('c, 'k) tls_library \<Rightarrow> string \<Rightarrow> string \<Rightarrow> string \<Rightarrow> ('c, 'k) server_config option" where
  "rest_server_config fs lib cert_file key_file ca_cert_file =
     (case load_rustls_config fs lib cert_file key_file ca_cert_file of Ok c \<Rightarrow> Some c | _ \<Rightarrow> None)"

section \<open>Lemmas\<close>

lemma add_roots_Ok: "add_roots lib store cs = Ok roots \<Longrightarrow> roots = store @ cs \<and> list_all (tl_add_root lib) cs"
  by (induction lib store cs rule: add_roots.induct) (auto split: if_splits)

lemma load_roots_Ok:
  "load_roots fs lib path = Ok roots \<Longrightarrow>
   \<exists>pem. f_read fs path = Some pem \<and> roots = parsed_certs lib pem \<and> list_all (tl_add_root lib) roots"
  by (auto simp: load_roots_def read_file_def dest!: add_roots_Ok split: option.splits)

lemma server_config_for_Ok:
  "server_config_for lib roots certs key = Ok c \<Longrightarrow>
   sv_client_auth c = (case roots of Some store \<Rightarrow> VerifiedBy store | None \<Rightarrow> NoClientAuth)
   \<and> sv_certs c = certs \<and> sv_key c = key \<and> (\<forall>store. roots = Some store \<longrightarrow> tl_verifier lib store)"
  by (auto simp: server_config_for_def split: option.splits if_splits)

lemma load_identity_Ok:
  "load_identity fs lib cert_file key_file = Ok (certs, key) \<Longrightarrow>
   certs \<noteq> [] \<and> (\<exists>pem. f_read fs cert_file = Some pem \<and> certs = parsed_certs lib pem)"
  by (auto simp: load_identity_def read_file_def Let_def split: option.splits if_splits)

lemma dtls_enabled_iff: "dtls_enabled fs cert_file key_file \<longleftrightarrow> \<not> no_file fs cert_file \<and> \<not> no_file fs key_file"
  by (auto simp: dtls_enabled_def no_file_def)

section \<open>Properties\<close>

text \<open>C16. Client certificates are demanded exactly when a CA file is given: the acceptor of a TCP server
  presents certificates from its certificate file, and verifies clients against the certificates of
  the CA file, every one of which the root store has taken; a CA file that is missing or empty turns
  the verification off.\<close>

theorem mtls_enforced:
  assumes "build_tls_acceptor fs lib cert_file key_file ca_cert_file = Ok (Some c)"
  shows "sv_certs c \<noteq> []
    \<and> (\<exists>pem. f_read fs cert_file = Some pem \<and> sv_certs c = parsed_certs lib pem)
    \<and> (if no_file fs ca_cert_file then sv_client_auth c = NoClientAuth
       else \<exists>pem. f_read fs ca_cert_file = Some pem
         \<and> sv_client_auth c = VerifiedBy (parsed_certs lib pem)
         \<and> list_all (tl_add_root lib) (parsed_certs lib pem) \<and> tl_verifier lib (parsed_certs lib pem))"
proof -
  obtain certs key roots where q: "load_identity fs lib cert_file key_file = Ok (certs, key)"
    "(if no_file fs ca_cert_file then Ok None else map_ok Some (load_roots fs lib ca_cert_file)) = Ok roots"
    "server_config_for lib roots certs key = Ok c"
    using assms by (auto simp: build_tls_acceptor_def split: if_splits)
  then show ?thesis
    using load_identity_Ok [OF q(1)] server_config_for_Ok [OF q(3)] load_roots_Ok [of fs lib ca_cert_file]
    by (auto split: if_splits)
qed

definition example_files :: files where
  "example_files = \<lparr>f_len = (\<lambda>p. if p = '''' then None else Some (length p)),
     f_is_file = (\<lambda>p. p \<noteq> ''''), f_read = (\<lambda>p. if p = '''' then None else Some p)\<rparr>"

definition example_tls :: "(string, string) tls_library" where
  "example_tls =
     \<lparr>tl_certs = (\<lambda>pem. [Some pem]), tl_private_key = (\<lambda>pem. if pem = ''bad'' then None else Some (Some pem)),
      tl_add_root = (\<lambda>_. True), tl_verifier = (\<lambda>_. True), tl_config = (\<lambda>_ _. True), tl_webpki_roots = [''web''],
      tl_dtls_identity = Some, tl_http_ca = Some, tl_http_identity = Some\<rparr>"

theorem mtls_enforced_witness:
  "\<exists>c. build_tls_acceptor example_files example_tls ''cert'' ''key'' ''ca'' = Ok (Some c)
     \<and> sv_client_auth c = VerifiedBy [''ca'']"
proof -
  let ?c = "\<lparr>sv_client_auth = VerifiedBy [''ca''], sv_certs = [''cert''], sv_key = ''key''\<rparr>"
  have b: "build_tls_acceptor example_files example_tls ''cert'' ''key'' ''ca'' = Ok (Some ?c)" by code_simp
  have "\<not> no_file example_files ''ca''" by code_simp
  then have "\<exists>pem. f_read example_files ''ca'' = Some pem \<and> sv_client_auth ?c = VerifiedBy (parsed_certs example_tls pem)"
    using mtls_enforced [OF b] by auto
  moreover have "f_read example_files ''ca'' = Some ''ca''" "parsed_certs example_tls ''ca'' = [''ca'']" by code_simp+
  ultimately show ?thesis using b by auto
qed

text \<open>A Diameter connection is plain exactly when the certificate or the key file is not given, missing
  or empty, for both roles and both transports: a file that is there but cannot be used is an error and
  never a plain connection.\<close>

theorem plain_exactly_without_files:
  "(build_tls_acceptor fs lib cert_file key_file ca_cert_file = Ok None \<longleftrightarrow> no_file fs cert_file \<or> no_file fs key_file)
   \<and> (build_tls_connector fs lib cert_file key_file ca_cert_file = Ok None \<longleftrightarrow> no_file fs cert_file \<or> no_file fs key_file)
   \<and> (sctp_server_secure_stream fs lib hs cert_file key_file ca_cert_file = Ok PlainStream
        \<longleftrightarrow> no_file fs cert_file \<or> no_file fs key_file)
   \<and> (sctp_client_secure_stream fs lib hs my_host cert_file key_file ca_cert_file = Ok PlainStream
        \<longleftrightarrow> no_file fs cert_file \<or> no_file fs key_file)"
  by (auto simp: build_tls_acceptor_def build_tls_connector_def sctp_server_secure_stream_def
      sctp_client_secure_stream_def dtls_enabled_iff Let_def split: if_splits)

text \<open>C37. The REST listener falls back to plain HTTP: with certificate and key files that are there and
  readable, but a key that does not parse, the TCP server refuses to start while the REST listener
  serves without encryption.\<close>

theorem rest_falls_back_to_plain:
  assumes "\<not> no_file fs cert_file" "\<not> no_file fs key_file"
    and "f_read fs cert_file = Some cert_pem" "f_read fs key_file = Some key_pem"
    and "parsed_certs lib cert_pem \<noteq> []" "tl_private_key lib key_pem = None"
  shows "build_tls_acceptor fs lib cert_file key_file ca_cert_file = Err (KeyNotParsed key_file)
    \<and> rest_server_config fs lib cert_file key_file ca_cert_file = None"
  using assms
  by (simp add: build_tls_acceptor_def load_identity_def read_file_def parse_key_def rest_server_config_def
      load_rustls_config_def no_file_def Let_def)

theorem rest_falls_back_to_plain_witness:
  "build_tls_acceptor example_files example_tls ''cert'' ''bad'' ''ca'' = Err (KeyNotParsed ''bad'')
   \<and> rest_server_config example_files example_tls ''cert'' ''bad'' ''ca'' = None"
proof -
  have "\<not> no_file example_files ''cert''" "\<not> no_file example_files ''bad''" "f_read example_files ''cert'' = Some ''cert''"
    "f_read example_files ''bad'' = Some ''bad''" "parsed_certs example_tls ''cert'' \<noteq> []" "tl_private_key example_tls ''bad'' = None"
    by code_simp+
  then show ?thesis by (rule rest_falls_back_to_plain)
qed

end
