(* ===== verification/Tcp_Transport.thy ===== *)
theory Tcp_Transport
  imports Server_Link Tls_Files
begin

text \<open>
  The TCP transport (\<open>transport/tcp_transport.rs\<close>): the client connection with its connect,
  capabilities-exchange, watchdog and reconnect loop, the server connection, and the capabilities
  exchange on an accepted socket.

  \<open>start\<close> of a client builds its TLS connector from its files (\<open>tc_start\<close>) and then is a state
  machine: the phase is the point at which the task waits, an event is what it waits for. The end of the task (an error that leaves \<open>start\<close>) and a panic are
  phases without a successor. The TLS handshake is an event; a socket read returns at most the 1024
  bytes of the buffer.
\<close>

section \<open>The client connection\<close>

datatype client_event =
  ConnectFailed | TlsHandshakeFailed | Connected | CeaRead "(read_error, command) outcome" | CerTimeout
| Reading read_event

datatype phase = Connecting | AwaitingCea | Serving command_buffer | Ended link_error | Crashed

text \<open>\<open>tc_tls\<close>: whether \<open>start\<close> has a TLS connector.\<close>

record tcp_client = link +
  tc_tls :: bool
  tc_connected :: bool
  tc_phase :: phase

text \<open>A client whose \<open>start\<close> is past the connector.\<close>

definition new_tcp_client :: "bool \<Rightarrow> node \<Rightarrow> id_generator \<Rightarrow> tcp_client" where
  "new_tcp_client tls nd e2e =
     \<lparr>lk_node = nd, lk_end_to_end = e2e, lk_writer = None, lk_ops = 0, lk_alarms = [],
      tc_tls = tls, tc_connected = False, tc_phase = Connecting\<rparr>"

text \<open>The beginning of \<open>start\<close>: without a connector it could build, the task has ended.\<close>

definition tc_start ::
  "files \<Rightarrow> ('c, 'k) tls_library \<Rightarrow> client_connection \<Rightarrow> node \<Rightarrow> id_generator \<Rightarrow> tcp_client" where
  "tc_start fs lib c nd e2e =
     (case build_tls_connector fs lib (cl_cert_file c) (cl_key_file c) (cl_ca_cert_file c) of
        Ok connector \<Rightarrow> new_tcp_client (connector \<noteq> None) nd e2e
      | Err e \<Rightarrow> (new_tcp_client False nd e2e)\<lparr>tc_phase := Ended TlsFailed\<rparr>
      | Panic \<Rightarrow> (new_tcp_client False nd e2e)\<lparr>tc_phase := Crashed\<rparr>)"

definition tc_send :: "site \<Rightarrow> command \<Rightarrow> tcp_client \<Rightarrow> (link_error, unit) outcome \<times> tcp_client" where
  "tc_send s q l =
     (if c_code q \<noteq> command_code_u32 CapabilitiesExchange \<and> \<not> tc_connected l then (Err NotConnected, l)
      else write_all s (command_encode q) l)"

definition send_command :: "site \<Rightarrow> command \<Rightarrow> tcp_client \<Rightarrow> (link_error, unit) outcome \<times> tcp_client" where
  "send_command s q l = write_all s (command_encode q) l"

definition send_cer ::
  "site \<Rightarrow> client_connection \<Rightarrow> tcp_client \<Rightarrow> (link_error, unit) outcome \<times> tcp_client" where
  "send_cer s c l =
     (let ((h, e), l1) = fresh_ids l in
      case cer_command (o_platform (si_out s)) (si_avp_map s) (cl_host c) (cl_realm c) (cl_capability c) h e of
        None \<Rightarrow> (Panic, l)
      | Some cer \<Rightarrow> tc_send s cer l1)"

definition send_dwr ::
  "site \<Rightarrow> client_connection \<Rightarrow> tcp_client \<Rightarrow> (link_error, unit) outcome \<times> tcp_client" where
  "send_dwr s c l =
     (let ((h, e), l1) = fresh_ids l in
      case dwr_command (o_platform (si_out s)) (si_avp_map s) (cl_host c) (cl_realm c) h e of
        None \<Rightarrow> (Panic, l1)
      | Some dwr \<Rightarrow> send_command s dwr l1)"

definition send_dwa ::
  "site \<Rightarrow> client_connection \<Rightarrow> tcp_client \<Rightarrow> (link_error, unit) outcome \<times> tcp_client" where
  "send_dwa s c l =
     (let ((h, e), l1) = fresh_ids l in send_command s (tcp_client_dwa (cl_host c) (cl_realm c) h e) l1)"

definition send_dpr_command ::
  "site \<Rightarrow> client_connection \<Rightarrow> tcp_client \<Rightarrow> (link_error, unit) outcome \<times> tcp_client" where
  "send_dpr_command s c l =
     (let ((h, e), l1) = fresh_ids l in send_command s (tcp_client_dpr (cl_host c) (cl_realm c) h e) l1)"

definition tc_close ::
  "site \<Rightarrow> client_connection \<Rightarrow> tcp_client \<Rightarrow> (link_error, unit) outcome \<times> tcp_client" where
  "tc_close s c l =
     (case send_dpr_command s c l of (Ok u, l1) \<Rightarrow> shutdown_writer s l1 | r \<Rightarrow> r)"

definition receive_cea :: "(read_error, command) outcome \<Rightarrow> (link_error, unit) outcome" where
  "receive_cea r =
     (case r of
        Ok q \<Rightarrow>
          if c_code q \<noteq> command_code_u32 CapabilitiesExchange \<or> \<not> is_answer q then Err NotACea
          else (case get_result_code q of
                  Some code \<Rightarrow> if code < 2000 \<or> code \<ge> 3000 then Err (CeaRejected code) else Ok ()
                | None \<Rightarrow> Err CeaWithoutResult)
      | Err e \<Rightarrow> Err (CeaNotRead e)
      | Panic \<Rightarrow> Panic)"

definition tc_process_dpr ::
  "site \<Rightarrow> client_connection \<Rightarrow> command \<Rightarrow> tcp_client \<Rightarrow> (link_error, unit) outcome \<times> tcp_client" where
  "tc_process_dpr s c q l =
     (case tc_send s (tcp_client_dpa (cl_host c) (cl_realm c) q) l of
        (Ok u, l1) \<Rightarrow> tc_close s c l1
      | r \<Rightarrow> r)"

definition tc_process_command ::
  "site \<Rightarrow> client_connection \<Rightarrow> command \<Rightarrow> tcp_client \<Rightarrow> (link_error, unit) outcome \<times> tcp_client" where
  "tc_process_command s c q l =
     (if c_code q = command_code_u32 DeviceWatchdog then
        (if is_request q then send_dwa s c l else (Ok (), l))
      else if c_code q = command_code_u32 DisconnectPeer \<and> is_request q then tc_process_dpr s c q l
      else process_application s (client_context s c) q l)"

text \<open>The commands of one read, in order; the first error ends the connection handler.\<close>

fun tc_process_all ::
  "site \<Rightarrow> client_connection \<Rightarrow> command list \<Rightarrow> tcp_client \<Rightarrow> (link_error, unit) outcome \<times> tcp_client" where
  "tc_process_all s c [] l = (Ok (), l)"
| "tc_process_all s c (q # qs) l =
     (case tc_process_command s c q l of (Ok u, l1) \<Rightarrow> tc_process_all s c qs l1 | r \<Rightarrow> r)"

definition tc_raise :: "site \<Rightarrow> client_connection \<Rightarrow> string \<Rightarrow> tcp_client \<Rightarrow> tcp_client" where
  "tc_raise s c message l =
     link_alarm s (RaiseAlarm (client_id c) (cl_peer_host c) (cl_peer_realm c) message) l"

definition lost_message :: "client_connection \<Rightarrow> string" where
  "lost_message c = ''Lost connection to diameter peer '' @ cl_peer_host c @ ''@'' @ cl_peer_realm c
     @ '' at '' @ client_id c"

definition failed_message :: "client_connection \<Rightarrow> string" where
  "failed_message c = ''Failed to connect to diameter peer '' @ cl_peer_host c @ ''@'' @ cl_peer_realm c
     @ '' at '' @ client_id c @ '': ''"

text \<open>How a step of the handler goes on: \<open>Err\<close> leaves \<open>start\<close> by \<open>?\<close>.\<close>

definition settle :: "phase \<Rightarrow> (link_error, unit) outcome \<times> tcp_client \<Rightarrow> tcp_client" where
  "settle ph r =
     (case r of
        (Ok u, l) \<Rightarrow> l\<lparr>tc_phase := ph\<rparr>
      | (Err e, l) \<Rightarrow> l\<lparr>tc_phase := Ended e\<rparr>
      | (Panic, l) \<Rightarrow> l\<lparr>tc_phase := Crashed\<rparr>)"

text \<open>One turn of the loop of \<open>handle_connection\<close>.\<close>

definition serve ::
  "site \<Rightarrow> client_connection \<Rightarrow> command_buffer \<Rightarrow> read_event \<Rightarrow> tcp_client \<Rightarrow> tcp_client" where
  "serve s c buf ev l =
     (case ev of
        Tick \<Rightarrow> settle (Serving buf) (send_dwr s c l)
      | Eof \<Rightarrow> tc_raise s c (lost_message c) (l\<lparr>tc_connected := False, tc_phase := Connecting\<rparr>)
      | ReadError \<Rightarrow> l\<lparr>tc_phase := Ended ReadFailed\<rparr>
      | Bytes data \<Rightarrow>
          (case buffer_read_commands (buffer_append buf data) of
             (qs, buf') \<Rightarrow> settle (Serving buf') (tc_process_all s c qs l)))"

text \<open>The loop of \<open>start\<close>. \<open>why\<close> is the text of the connect error. Only a connector can fail in the TLS
  handshake or over the name of the peer. An event that the phase does not wait
  for gives \<open>None\<close>.\<close>

definition client_step ::
  "site \<Rightarrow> client_connection \<Rightarrow> string \<Rightarrow> client_event \<Rightarrow> tcp_client \<Rightarrow> tcp_client option" where
  "client_step s c why ev l =
     (case (tc_phase l, ev) of
        (Connecting, ConnectFailed) \<Rightarrow> Some (tc_raise s c (failed_message c @ why) l)
      | (Connecting, TlsHandshakeFailed) \<Rightarrow> if tc_tls l then Some (l\<lparr>tc_phase := Ended TlsFailed\<rparr>) else None
      | (Connecting, Connected) \<Rightarrow>
          Some (settle AwaitingCea (send_cer s c (l\<lparr>lk_writer := Some new_writer\<rparr>)))
      | (AwaitingCea, CeaRead r) \<Rightarrow>
          Some (case receive_cea r of
             Ok u \<Rightarrow>
               link_alarm s (ClearAlarm (client_id c) (cl_peer_host c) (cl_peer_realm c))
                 (l\<lparr>tc_connected := True, tc_phase := Serving []\<rparr>)
           | Err e \<Rightarrow> (snd (tc_close s c l))\<lparr>tc_phase := Connecting\<rparr>
           | Panic \<Rightarrow> l\<lparr>tc_phase := Crashed\<rparr>)
      | (AwaitingCea, CerTimeout) \<Rightarrow> Some ((snd (tc_close s c l))\<lparr>tc_phase := Connecting\<rparr>)
      | (Serving buf, Reading rd) \<Rightarrow> Some (serve s c buf rd l)
      | _ \<Rightarrow> None)"

section \<open>The server connection\<close>

definition ts_send :: "site \<Rightarrow> command \<Rightarrow> server_link \<Rightarrow> (link_error, unit) outcome \<times> server_link" where
  "ts_send s q l = write_all s (command_encode q) l"

definition ts_close :: "site \<Rightarrow> server_link \<Rightarrow> (link_error, unit) outcome \<times> server_link" where
  "ts_close s l =
     (case (if lk_writer l = None then (Ok (), l) else shutdown_writer s l) of
        (Ok u, l1) \<Rightarrow> (Ok (), l1\<lparr>lk_writer := None, sl_closed := True\<rparr>)
      | r \<Rightarrow> r)"

definition ts_process_dwr ::
  "site \<Rightarrow> server_conn \<Rightarrow> command \<Rightarrow> server_link \<Rightarrow> (link_error, unit) outcome \<times> server_link" where
  "ts_process_dwr s c q l = ts_send s (server_dwa (srv_my_host c) (srv_my_realm c) q) l"

definition ts_process_dpr ::
  "site \<Rightarrow> server_conn \<Rightarrow> command \<Rightarrow> server_link \<Rightarrow> (link_error, unit) outcome \<times> server_link" where
  "ts_process_dpr s c q l =
     (case ts_send s (server_dpa (srv_my_host c) (srv_my_realm c) q) l of
        (Ok u, l1) \<Rightarrow> ts_close s l1
      | r \<Rightarrow> r)"

definition ts_process_command ::
  "site \<Rightarrow> server_conn \<Rightarrow> command \<Rightarrow> server_link \<Rightarrow> (link_error, unit) outcome \<times> server_link" where
  "ts_process_command s c q l =
     (if c_code q = command_code_u32 DeviceWatchdog \<and> is_request q then ts_process_dwr s c q l
      else if c_code q = command_code_u32 DisconnectPeer \<and> is_request q then ts_process_dpr s c q l
      else process_application s (server_context s c) q l)"

section \<open>The capabilities exchange on an accepted socket\<close>

text \<open>\<open>TcpDiameterServer::handle_connection\<close> on the bytes the client sends: the CER and what
  follows it.\<close>

definition exchange_capabilities ::
  "site \<Rightarrow> diameter_server \<Rightarrow> bytes \<Rightarrow> server_link \<Rightarrow> (link_error, command \<times> bytes) outcome \<times> server_link" where
  "exchange_capabilities s sv stream l =
     (case read_command stream of
        (Err e, rest) \<Rightarrow> (Err (CerNotRead e), l)
      | (Panic, rest) \<Rightarrow> (Panic, l)
      | (Ok cer, rest) \<Rightarrow>
          if c_code cer \<noteq> command_code_u32 CapabilitiesExchange \<or> \<not> is_request cer then (Err NotACer, l)
          else if get_origin_host cer = None \<or> get_origin_realm cer = None then (Err CerWithoutOrigin, l)
          else
            (case tcp_create_cea (o_platform (si_out s)) (si_avp_map s) (dsv_host sv) (dsv_realm sv)
                    (dsv_capability sv) cer of
               None \<Rightarrow> (Panic, l)
             | Some cea \<Rightarrow>
                 (case write_all s (command_encode cea) l of
                    (Ok u, l1) \<Rightarrow> (Ok (cer, rest), l1)
                  | (Err e, l1) \<Rightarrow> (Err e, l1)
                  | (Panic, l1) \<Rightarrow> (Panic, l1))))"

text \<open>What \<open>start\<close> does with an accepted socket, once it is past TLS: a connection, whose task
  begins, or the socket shut down.\<close>

definition accept_connection ::
  "site \<Rightarrow> diameter_server \<Rightarrow> string \<Rightarrow> nat \<Rightarrow> bytes \<Rightarrow> server_link
   \<Rightarrow> (link_error, server_conn \<times> bytes) outcome \<times> server_link" where
  "accept_connection s sv peer_addr handle stream l =
     (case exchange_capabilities s sv stream (l\<lparr>lk_writer := Some new_writer\<rparr>) of
        (Ok (cer, rest), l1) \<Rightarrow>
          let c = create_connection_from_cer sv cer peer_addr handle in
          (Ok (c, rest), server_begin s c (l1\<lparr>sl_closed := False\<rparr>))
      | (Err e, l1) \<Rightarrow> (Err e, snd (shutdown_writer s l1))
      | (Panic, l1) \<Rightarrow> (Panic, l1))"

section \<open>What the operations keep\<close>

text \<open>An operation of a client only adds to what was written and leaves the flag, the phase and the
  alarms alone.\<close>

definition extends :: "tcp_client \<Rightarrow> tcp_client \<Rightarrow> bool" where
  "extends l l' \<longleftrightarrow> tc_connected l' = tc_connected l \<and> tc_phase l' = tc_phase l \<and> lk_alarms l' = lk_alarms l
     \<and> (lk_writer l' = None \<longleftrightarrow> lk_writer l = None) \<and> prefix (written l) (written l')"

lemma extends_refl [simp]: "extends l l"
  by (simp add: extends_def)

lemma extends_trans [trans]: "extends l l' \<Longrightarrow> extends l' l'' \<Longrightarrow> extends l l''"
  by (auto simp: extends_def)

lemma extends_node [simp]:
  "extends l (l'\<lparr>lk_node := nd\<rparr>) = extends l l'" "extends l (l'\<lparr>lk_end_to_end := g\<rparr>) = extends l l'"
  "extends l (l'\<lparr>lk_ops := k\<rparr>) = extends l l'"
  by (simp_all add: extends_def written_def)

lemma extends_write_all: "extends l (snd (write_all s data l))"
  by (auto simp: write_all_def extends_def written_def Let_def split: option.split)

lemma extends_shutdown: "extends l (snd (shutdown_writer s l))"
  by (auto simp: shutdown_writer_def extends_def written_def Let_def split: option.split)

lemma extends_fresh_ids: "fresh_ids l = (he, l1) \<Longrightarrow> extends l l1"
  by (auto simp: fresh_ids_def next_id_def Let_def)

lemma extends_after: "fresh_ids l = (he, l1) \<Longrightarrow> extends l1 l2 \<Longrightarrow> extends l l2"
  using extends_fresh_ids extends_trans by blast

lemma extends_sends:
  "extends l (snd (tc_send s q l))" "extends l (snd (send_command s q l))"
  by (simp_all add: tc_send_def send_command_def extends_write_all)

lemma extends_builders:
  "extends l (snd (send_dwr s c l))" "extends l (snd (send_dwa s c l))"
  "extends l (snd (send_dpr_command s c l))" "extends l (snd (send_cer s c l))"
  by (cases "fresh_ids l"; auto simp: send_dwr_def send_dwa_def send_dpr_command_def send_cer_def
      split: option.split intro: extends_after extends_sends dest: extends_fresh_ids)+

lemma extends_close: "extends l (snd (tc_close s c l))"
  unfolding tc_close_def
  using extends_builders(3) [of l s c] extends_shutdown [of _ s]
  by (auto split: prod.split outcome.split intro: extends_trans)

lemma extends_application: "extends l (snd (process_application s cx q l))"
  by (auto simp: process_application_def split: prod.split outcome.split)

lemma extends_process_command: "extends l (snd (tc_process_command s c q l))"
proof -
  have "extends l (snd (tc_process_dpr s c q l))"
    unfolding tc_process_dpr_def
    using extends_sends(1) [of l s "tcp_client_dpa (cl_host c) (cl_realm c) q"] extends_close [of _ s c]
    by (auto split: prod.split outcome.split intro: extends_trans)
  then show ?thesis
    by (simp add: tc_process_command_def extends_builders extends_application)
qed

lemma extends_process_all: "extends l (snd (tc_process_all s c qs l))"
proof (induction qs arbitrary: l)
  case (Cons q qs)
  then show ?case
    using extends_process_command [of l s c q]
    by (auto split: prod.split outcome.split intro: extends_trans)
qed simp

section \<open>Reachable client states\<close>

inductive client_reaches :: "site \<Rightarrow> client_connection \<Rightarrow> tcp_client \<Rightarrow> tcp_client \<Rightarrow> bool"
  for s c l0 where
  start: "client_reaches s c l0 l0"
| step: "client_reaches s c l0 l \<Longrightarrow> client_step s c why ev l = Some l' \<Longrightarrow> client_reaches s c l0 l'"

definition opened_by_cer :: "site \<Rightarrow> client_connection \<Rightarrow> bytes \<Rightarrow> bool" where
  "opened_by_cer s c bs \<longleftrightarrow>
     (\<exists>h e cer. cer_command (o_platform (si_out s)) (si_avp_map s) (cl_host c) (cl_realm c) (cl_capability c) h e
        = Some cer \<and> prefix (command_encode cer) bs)"

definition client_ok :: "site \<Rightarrow> client_connection \<Rightarrow> tcp_client \<Rightarrow> bool" where
  "client_ok s c l \<longleftrightarrow>
     (case tc_phase l of
        Connecting \<Rightarrow> \<not> tc_connected l
      | AwaitingCea \<Rightarrow> \<not> tc_connected l \<and> opened_by_cer s c (written l)
      | Serving buf \<Rightarrow> tc_connected l \<and> opened_by_cer s c (written l)
      | _ \<Rightarrow> True)"

lemma opened_by_cer_mono: "opened_by_cer s c bs \<Longrightarrow> prefix bs bs' \<Longrightarrow> opened_by_cer s c bs'"
  unfolding opened_by_cer_def using prefix_order.order_trans by blast

lemma client_ok_settle:
  assumes "settle (Serving buf') r = l'" "tc_connected l" "opened_by_cer s c (written l)" "extends l (snd r)"
  shows "client_ok s c l'"
proof (cases r)
  case (Pair x l1)
  then have "tc_connected l1" "opened_by_cer s c (written l1)"
    using assms(2-4) opened_by_cer_mono by (auto simp: extends_def)
  then show ?thesis
    using assms(1) Pair by (auto simp: settle_def client_ok_def written_def split: outcome.splits)
qed

lemma written_phase [simp]: "written (l\<lparr>tc_phase := ph\<rparr>) = written l" "written (l\<lparr>tc_connected := b\<rparr>) = written l"
  by (simp_all add: written_def)

lemma written_alarm [simp]: "written (link_alarm s a l) = written l"
  by (simp add: link_alarm_def written_def)

lemma link_alarm_fields [simp]:
  "tc_connected (link_alarm s a l) = tc_connected l" "tc_phase (link_alarm s a l) = tc_phase l"
  by (simp_all add: link_alarm_def)

lemma send_cer_opens:
  assumes "send_cer s c (l\<lparr>lk_writer := Some new_writer\<rparr>) = (Ok u, l')"
  shows "opened_by_cer s c (written l')"
proof -
  obtain h e l1 where i: "fresh_ids (l\<lparr>lk_writer := Some new_writer\<rparr>) = ((h, e), l1)" by (metis surj_pair)
  then have w: "written l1 = []" by (auto simp: fresh_ids_def next_id_def Let_def written_def)
  obtain cer where cer: "cer_command (o_platform (si_out s)) (si_avp_map s) (cl_host c) (cl_realm c) (cl_capability c) h e = Some cer"
    and "tc_send s cer l1 = (Ok u, l')"
    using assms i by (auto simp: send_cer_def split: option.splits)
  then have "written l' = command_encode cer"
    using w write_all_written(1) by (fastforce simp: tc_send_def split: if_splits)
  then show ?thesis using cer by (auto simp: opened_by_cer_def)
qed

lemma client_ok_step:
  assumes "client_ok s c l" "client_step s c why ev l = Some l'"
  shows "client_ok s c l'"
proof (cases "tc_phase l")
  case Connecting
  have "\<not> tc_connected (snd (send_cer s c (l\<lparr>lk_writer := Some new_writer\<rparr>)))"
    using extends_builders(4) [of "l\<lparr>lk_writer := Some new_writer\<rparr>" s c] assms(1) Connecting
    by (simp add: extends_def client_ok_def)
  then show ?thesis
    using assms Connecting send_cer_opens [of s c l]
    by (cases "send_cer s c (l\<lparr>lk_writer := Some new_writer\<rparr>)")
       (auto simp: client_step_def client_ok_def tc_raise_def settle_def split: client_event.splits outcome.splits if_splits)
next
  case AwaitingCea
  then show ?thesis
    using assms extends_close [of l s c]
    by (auto simp: client_step_def client_ok_def extends_def split: client_event.splits outcome.splits)
next
  case (Serving buf)
  then have l: "tc_connected l" "opened_by_cer s c (written l)" using assms(1) by (simp_all add: client_ok_def)
  obtain rd where ev: "ev = Reading rd" "l' = serve s c buf rd l"
    using assms(2) Serving by (auto simp: client_step_def split: client_event.splits)
  show ?thesis
  proof (cases rd)
    case (Bytes data)
    obtain qs buf' where r: "buffer_read_commands (buffer_append buf data) = (qs, buf')" by fastforce
    then show ?thesis
      using ev Bytes client_ok_settle [OF _ l extends_process_all] by (simp add: serve_def)
  next
    case Tick
    then show ?thesis using ev client_ok_settle [OF _ l extends_builders(1)] by (simp add: serve_def)
  qed (use ev in \<open>simp_all add: serve_def tc_raise_def client_ok_def\<close>)
qed (use assms in \<open>simp_all add: client_step_def\<close>)

lemma client_ok_reaches: "client_reaches s c l0 l \<Longrightarrow> client_ok s c l0 \<Longrightarrow> client_ok s c l"
  by (induction rule: client_reaches.induct) (auto intro: client_ok_step)

text \<open>A client without the connector its files ask for is in its last state.\<close>

lemma ended_stays:
  assumes "client_reaches s c l0 l" "tc_phase l0 = Ended e"
  shows "l = l0"
  using assms by (induction rule: client_reaches.induct) (simp_all add: client_step_def)

section \<open>The exchange, from both ends\<close>

lemma cea_accepted:
  assumes "base_dictionary m" "short_capability p cap" "length host < 2 ^ 24 - 12" "length realm < 2 ^ 24 - 12"
    and "tcp_create_cea p m host realm cap cer = Some cea" "command_length cea < 2 ^ 24"
  shows "receive_cea (fst (read_command (command_encode cea))) = Ok ()"
proof -
  note cea = tcp_create_cea_base [OF assms(1), of p host realm cap cer, unfolded assms(5) option.inject]
  have "wf_command cea"
    using assms(3,4,6) wf_capability_avps [OF assms(2)] unfolding cea
    by (simp add: wf_command_def command_new_def wf_from)
  from read_command_encoded [OF this, of "[]"]
  have "fst (read_command (command_encode cea)) = Ok (command_raw cea)" by simp
  moreover have "get_result_code (command_raw cea) = Some 2001"
    unfolding get_result_code_def get_avp_raw by (simp add: cea get_avp_def command_new_def)
  moreover have "c_code (command_raw cea) = 257" "is_answer (command_raw cea)"
    by (simp_all add: cea command_new_def is_answer_def is_request_def)
  ultimately show ?thesis by (simp add: receive_cea_def)
qed

lemma ts_close_node: "ts_close s l = (x, l') \<Longrightarrow> lk_node l' = lk_node l"
  by (auto simp: ts_close_def dest!: node_kept split: prod.splits outcome.splits if_splits)

lemma ts_process_base_node:
  "ts_process_dwr s c q l = (x, l') \<Longrightarrow> lk_node l' = lk_node l"
  "ts_process_dpr s c q l = (x, l') \<Longrightarrow> lk_node l' = lk_node l"
  by (auto simp: ts_process_dwr_def ts_process_dpr_def ts_send_def dest!: node_kept ts_close_node
      split: prod.splits outcome.splits)

interpretation tcp_server: server_transport "ts_process_command s c" for s c
proof
  show "same_config (nd_mgr (lk_node l)) (nd_mgr (lk_node (snd (ts_process_command s c q l))))" for l q
    using ts_process_base_node [of s c q l] process_application_config [of l s "server_context s c" q]
    by (auto simp: ts_process_command_def) (metis prod.collapse same_config_refl)+
qed

section \<open>Both connections as senders\<close>

interpretation client_sender: command_sender "tc_send s" written for s
proof
  show "written l' = written l @ command_encode q" if "tc_send s q l = (Ok u, l')" for q l u l'
    using that write_all_written(1) by (auto simp: tc_send_def split: if_splits)
  show "\<exists>n. written l' = written l @ take n (command_encode q)" if "tc_send s q l = (Err e, l')" for q l e l'
    using that write_all_written(2) [of s "command_encode q" l] by (auto simp: tc_send_def intro: exI [of _ 0] split: if_splits)
  show "fst (tc_send s q l) \<noteq> Panic" for q l by (simp add: tc_send_def write_all_written(3))
qed

interpretation server_sender: command_sender "ts_send s" written for s
  by unfold_locales (simp_all add: ts_send_def write_all_written)

section \<open>Properties\<close>

text \<open>C20. Nothing precedes the capabilities exchange: in every state a client connection can reach,
  while it is connecting or waits for the CEA it refuses every command but a capabilities exchange
  and writes nothing, and from the moment it waits for the CEA on, what it has written on the
  current socket begins with a CER of this node. It counts as connected while it serves the
  connection.\<close>

theorem capabilities_exchange_first:
  assumes "client_reaches s c (new_tcp_client tls nd g) l"
  shows "(tc_phase l = Connecting \<or> tc_phase l = AwaitingCea \<longrightarrow>
       (\<forall>q. c_code q \<noteq> 257 \<longrightarrow> tc_send s q l = (Err NotConnected, l)))
    \<and> (tc_phase l = AwaitingCea \<or> (\<exists>buf. tc_phase l = Serving buf) \<longrightarrow> opened_by_cer s c (written l))
    \<and> ((\<exists>buf. tc_phase l = Serving buf) \<longrightarrow> tc_connected l)"
proof -
  have "client_ok s c (new_tcp_client tls nd g)" by (simp add: client_ok_def new_tcp_client_def)
  then have "client_ok s c l" by (rule client_ok_reaches [OF assms])
  then show ?thesis by (auto simp: client_ok_def tc_send_def split: phase.splits)
qed

text \<open>C9. The two ends of the TCP transport agree: when the socket works, a client that connects to a
  server completes the capabilities exchange. The server reads the CER, registers the client under
  the host and realm of the CER, and the client accepts the CEA and serves the connection.\<close>

theorem handshake_completes:
  assumes "base_dictionary (si_avp_map s)" "base_dictionary (si_avp_map t)"
    and "short_capability (o_platform (si_out s)) (cl_capability c)"
    and "short_capability (o_platform (si_out t)) (dsv_capability sv)"
    and "rust_string (cl_host c)" "rust_string (cl_realm c)"
    and "length (cl_host c) < 2 ^ 24 - 12" "length (cl_realm c) < 2 ^ 24 - 12"
    and "length (dsv_host sv) < 2 ^ 24 - 12" "length (dsv_realm sv) < 2 ^ 24 - 12"
    and "\<And>h e cer. cer_command (o_platform (si_out s)) (si_avp_map s) (cl_host c) (cl_realm c) (cl_capability c) h e
           = Some cer \<Longrightarrow> command_length cer < 2 ^ 24"
    and "\<And>q cea. tcp_create_cea (o_platform (si_out t)) (si_avp_map t) (dsv_host sv) (dsv_realm sv)
           (dsv_capability sv) q = Some cea \<Longrightarrow> command_length cea < 2 ^ 24"
    and "tc_phase l = Connecting" "\<And>k. si_io s k = None" "\<And>k. si_io t k = None"
  shows "\<exists>l1 sc sv1 l2. client_step s c why Connected l = Some l1
    \<and> accept_connection t sv addr handle (written l1) m = (Ok (sc, []), sv1)
    \<and> srv_peer_host sc = cl_host c \<and> srv_peer_realm sc = cl_realm c \<and> in_registry sc sv1
    \<and> client_step s c why (CeaRead (fst (read_command (written sv1)))) l1 = Some l2
    \<and> tc_connected l2 \<and> tc_phase l2 = Serving []"
proof -
  let ?p = "o_platform (si_out s)" and ?w = "l\<lparr>lk_writer := Some new_writer\<rparr>"
  obtain h e l0 where i: "fresh_ids ?w = ((h, e), l0)" by (metis surj_pair)
  obtain cer where cer: "cer_command ?p (si_avp_map s) (cl_host c) (cl_realm c) (cl_capability c) h e = Some cer"
    using cer_command_base [OF assms(1)] by blast
  note r = cer_accepted [OF assms(1,3,5-8) cer assms(11) [OF cer]]
  have code: "c_code cer = 257" using r(2) by simp
  obtain l1 where l1: "send_cer s c ?w = (Ok (), l1)" "written l1 = command_encode cer"
    using i cer code assms(14)
    by (auto simp: send_cer_def tc_send_def write_all_def fresh_ids_def next_id_def Let_def written_def)
  obtain cea where cea: "tcp_create_cea (o_platform (si_out t)) (si_avp_map t) (dsv_host sv) (dsv_realm sv)
      (dsv_capability sv) (command_raw cer) = Some cea"
    using tcp_create_cea_base [OF assms(2)] by blast
  obtain sv0 where sv0: "write_all t (command_encode cea) (m\<lparr>lk_writer := Some new_writer\<rparr>) = (Ok (), sv0)"
    "written sv0 = command_encode cea"
    using assms(15) by (auto simp: write_all_def written_def)
  let ?sc = "create_connection_from_cer sv (command_raw cer) addr handle"
  let ?sv1 = "server_begin t ?sc (sv0\<lparr>sl_closed := False\<rparr>)"
  have acc: "accept_connection t sv addr handle (written l1) m = (Ok (?sc, []), ?sv1)"
    using r(1) [of "[]"] r(2-5) cea sv0(1) l1(2)
    by (simp add: accept_connection_def exchange_capabilities_def Let_def)
  have w: "written ?sv1 = command_encode cea"
    using sv0(2) by (simp add: server_begin_def written_def link_alarm_def)
  have "in_registry ?sc ?sv1" by (rule in_registry_begin)
  moreover have "srv_peer_host ?sc = cl_host c" "srv_peer_realm ?sc = cl_realm c"
    using r(4,5) by (simp_all add: create_connection_from_cer_def str_or_default_def)
  moreover have "client_step s c why Connected l = Some (l1\<lparr>tc_phase := AwaitingCea\<rparr>)"
    using assms(13) l1(1) by (simp add: client_step_def settle_def)
  moreover have "receive_cea (fst (read_command (written ?sv1))) = Ok ()"
    unfolding w by (rule cea_accepted [OF assms(2,4,9,10) cea assms(12) [OF cea]])
  then have "client_step s c why (CeaRead (fst (read_command (written ?sv1)))) (l1\<lparr>tc_phase := AwaitingCea\<rparr>)
      = Some (link_alarm s (ClearAlarm (client_id c) (cl_peer_host c) (cl_peer_realm c))
          (l1\<lparr>tc_connected := True, tc_phase := Serving []\<rparr>))"
    by (simp add: client_step_def)
  moreover have "accept_connection t sv addr handle (written (l1\<lparr>tc_phase := AwaitingCea\<rparr>)) m = (Ok (?sc, []), ?sv1)"
    using acc by simp
  moreover have "tc_connected (link_alarm s (ClearAlarm (client_id c) (cl_peer_host c) (cl_peer_realm c))
      (l1\<lparr>tc_connected := True, tc_phase := Serving []\<rparr>))"
    "tc_phase (link_alarm s (ClearAlarm (client_id c) (cl_peer_host c) (cl_peer_realm c))
      (l1\<lparr>tc_connected := True, tc_phase := Serving []\<rparr>)) = Serving []" by simp_all
  ultimately show ?thesis by blast
qed

text \<open>C35. A client connection that fails is not noticed: after a read error, and after an answer
  nobody waits for any more, the task of the connection ends for good while the connection still
  counts as connected, and no alarm is raised. Only a connection closed in order by the peer is
  reported and dialled again.\<close>

theorem failed_client_stays_connected:
  assumes "client_reaches s c (new_tcp_client tls nd g) l" "tc_phase l = Serving []"
    and "wf_command a" "is_answer a" "c_code a \<noteq> 280"
    and "get_answer_info (nd_answers (lk_node l)) (c_hop_by_hop_id a) = None"
    and "ev = ReadError \<or> ev = Bytes (command_encode a)"
  shows "(\<exists>l1 e. client_step s c why (Reading ev) l = Some l1 \<and> tc_phase l1 = Ended e \<and> tc_connected l1
       \<and> lk_alarms l1 = lk_alarms l \<and> (\<forall>why' ev'. client_step s c why' ev' l1 = None))
    \<and> (\<exists>l2. client_step s c why (Reading Eof) l = Some l2 \<and> tc_phase l2 = Connecting \<and> \<not> tc_connected l2
       \<and> (si_alarm_sender s \<longrightarrow> lk_alarms l2 = lk_alarms l
            @ [RaiseAlarm (client_id c) (cl_peer_host c) (cl_peer_realm c) (lost_message c)]))"
proof
  have "client_ok s c (new_tcp_client tls nd g)" by (simp add: client_ok_def new_tcp_client_def)
  from client_ok_reaches [OF assms(1) this] have con: "tc_connected l" using assms(2) by (simp add: client_ok_def)
  have q: "c_code (command_raw a) \<noteq> 280" "\<not> is_request (command_raw a)" using assms(4,5) by (simp_all add: is_answer_def)
  obtain o_id mp where "remove_mapping (nd_mapper (lk_node l)) (nd_now (lk_node l)) (c_hop_by_hop_id a) = (o_id, mp)"
    by fastforce
  then obtain nd' where "process_command (si_out s) (client_context s c) (command_raw a) (lk_node l)
      = (Err (NoMapping (c_hop_by_hop_id a) (c_code a)), nd')"
    using assms(6) q(2)
    by (auto simp: process_command_def is_looped_request_def process_answer_def answer_received_def Let_def)
  then have p: "tc_process_all s c [command_raw a] l
      = (Err (ProcessFailed (NoMapping (c_hop_by_hop_id a) (c_code a))), l\<lparr>lk_node := nd'\<rparr>)"
    using q by (simp add: tc_process_command_def process_application_def)
  have "buffer_read_commands (buffer_append [] (command_encode a)) = ([command_raw a], [])"
    using command_stream.take_all_encoded [of "[a]" "[]" "[]"] assms(3)
    by (simp add: buffer_append_def command_stream.pending_def)
  then show "\<exists>l1 e. client_step s c why (Reading ev) l = Some l1 \<and> tc_phase l1 = Ended e \<and> tc_connected l1
       \<and> lk_alarms l1 = lk_alarms l \<and> (\<forall>why' ev'. client_step s c why' ev' l1 = None)"
    using assms(2,7) con p by (auto simp: client_step_def serve_def settle_def simp del: tc_process_all.simps)
  show "\<exists>l2. client_step s c why (Reading Eof) l = Some l2 \<and> tc_phase l2 = Connecting \<and> \<not> tc_connected l2
       \<and> (si_alarm_sender s \<longrightarrow> lk_alarms l2 = lk_alarms l
            @ [RaiseAlarm (client_id c) (cl_peer_host c) (cl_peer_realm c) (lost_message c)])"
    using assms(2) by (simp add: client_step_def serve_def tc_raise_def link_alarm_def)
qed

text \<open>C19. A server connection is registered with the connection manager for as long as it reads:
  whatever the peer sends and whatever fails while it is processed, its id leads to it. When the
  stream ends, in order or by an error, the connection is deregistered and the alarm is raised.\<close>

theorem server_connection_registered:
  assumes "server_reaches (ts_process_command s c) s c (server_begin s c l0) l" "sl_phase l = Listening buf"
  shows "in_registry c l
    \<and> (\<forall>data. \<exists>l'. server_step (ts_process_command s c) s c (Bytes data) l = Some l' \<and> in_registry c l')
    \<and> (\<forall>ev\<in>{Eof, ReadError}. \<exists>l' msg. server_step (ts_process_command s c) s c ev l = Some l' \<and> sl_phase l' = Finished
         \<and> get_connection_by_id (nd_mgr (lk_node l')) (srv_id c) = None
         \<and> (si_alarm_sender s \<longrightarrow>
              lk_alarms l' = lk_alarms l @ [RaiseAlarm (srv_id c) (srv_peer_host c) (srv_peer_realm c) msg]))"
  using tcp_server.served_until_end [OF assms] by blast

text \<open>Commands arrive: what a client connection and a server connection send successfully, after
  whatever they sent before, is what the other end reads, in order and however the network cuts the
  stream.\<close>

theorem sent_commands_arrive:
  assumes "send_all (tc_send s) qs l = (Ok u, l')" "send_all (ts_send s') qs' k = (Ok u', k')"
    and "written l = concat (map command_encode ps)" "written k = concat (map command_encode ps')"
    and "\<forall>q\<in>set (ps @ qs). wf_command q" "\<forall>q\<in>set (ps' @ qs'). wf_command q"
    and "concat chunks = written l'" "concat chunks' = written k'"
  shows "receive_chunks [] chunks = (map command_raw (ps @ qs), [])
    \<and> receive_chunks [] chunks' = (map command_raw (ps' @ qs'), [])"
  using client_sender.transmitted_read [OF assms(1,3,5,7)] server_sender.transmitted_read [OF assms(2,4,6,8)] by blast

section \<open>Witnesses\<close>

definition example_site :: "platform \<Rightarrow> site" where
  "example_site p =
     \<lparr>si_out = example_outside p, si_io = (\<lambda>_. None), si_avp_map = avp_map_new [],
      si_handler = cx_handler example_context, si_alarm_sender = True\<rparr>"

definition example_client :: client_connection where
  "example_client =
     \<lparr>cl_transport = Tcp, cl_addresses = [''10.0.0.2:3868''], cl_host = ''a.x'', cl_realm = ''x'',
      cl_peer_host = ''b.x'', cl_peer_realm = ''x'', cl_capability = example_capability, cl_key_file = [],
      cl_cert_file = [], cl_ca_cert_file = [], cl_cer_timeout = Some 3000\<rparr>"

definition example_server :: diameter_server where
  "example_server = \<lparr>dsv_host = ''b.x'', dsv_realm = ''x'', dsv_capability = example_capability\<rparr>"

definition example_link :: server_link where
  "example_link =
     \<lparr>lk_node = example_node, lk_end_to_end = 0, lk_writer = None, lk_ops = 0, lk_alarms = [], sl_closed = False,
      sl_phase = Spawned\<rparr>"

definition example_server_conn :: server_conn where
  "example_server_conn =
     \<lparr>srv_id = ''10.0.0.1:40000'', srv_my_host = ''b.x'', srv_my_realm = ''x'', srv_peer_host = ''a.x'',
      srv_peer_realm = ''x'', srv_handle = 7\<rparr>"

theorem capabilities_exchange_first_witness:
  "\<forall>p. tc_send (example_site p) (command_new 272 0x80 4 1 1 []) (new_tcp_client False example_node 0)
     = (Err NotConnected, new_tcp_client False example_node 0)"
  using capabilities_exchange_first [OF client_reaches.start]
  by (simp add: command_new_def) (simp add: new_tcp_client_def)

lemma example_cea_length:
  "tcp_create_cea p (avp_map_new []) ''b.x'' ''x'' example_capability q = Some c \<Longrightarrow> command_length c < 2 ^ 24"
  by (auto simp: tcp_create_cea_base [OF base_dictionary_standard] command_length_def command_new_def capability_avps_def
      example_capability_def list_or_default_def total_length_including_padding_def pad4_def from_unsigned32_def
      from_utf8_string_def from_grouped_def vendor_specific_members_def avp_new_def)

theorem handshake_completes_witness:
  "\<forall>p. \<exists>l1 sc sv1 l2. client_step (example_site p) example_client [] Connected (new_tcp_client False example_node 0) = Some l1
    \<and> accept_connection (example_site p) example_server ''10.0.0.1:40000'' 7 (written l1) example_link = (Ok (sc, []), sv1)
    \<and> srv_peer_host sc = ''a.x'' \<and> in_registry sc sv1
    \<and> client_step (example_site p) example_client [] (CeaRead (fst (read_command (written sv1)))) l1 = Some l2
    \<and> tc_phase l2 = Serving []"
proof
  fix p
  have "rust_string ''a.x''" "rust_string ''x''" by code_simp+
  then show "\<exists>l1 sc sv1 l2. client_step (example_site p) example_client [] Connected (new_tcp_client False example_node 0) = Some l1
    \<and> accept_connection (example_site p) example_server ''10.0.0.1:40000'' 7 (written l1) example_link = (Ok (sc, []), sv1)
    \<and> srv_peer_host sc = ''a.x'' \<and> in_registry sc sv1
    \<and> client_step (example_site p) example_client [] (CeaRead (fst (read_command (written sv1)))) l1 = Some l2
    \<and> tc_phase l2 = Serving []"
    using handshake_completes [of "example_site p" "example_site p" example_client example_server
        "new_tcp_client False example_node 0" "[]" "''10.0.0.1:40000''" 7 example_link]
      example_capability_short example_cer_length example_cea_length
    by (simp add: example_site_def example_client_def example_server_def base_dictionary_standard new_tcp_client_def) blast
qed

lemma example_serving:
  "\<exists>l. client_reaches (example_site p) example_client (new_tcp_client False example_node 0) l \<and> tc_phase l = Serving []
     \<and> nd_answers (lk_node l) = nd_answers example_node"
proof -
  let ?cea = "set_result_code (command_new 257 0 0 1 1 []) 2001"
  let ?l0 = "new_tcp_client False example_node 0" and ?w = "(new_tcp_client False example_node 0)\<lparr>lk_writer := Some new_writer\<rparr>"
  obtain l1 where l1: "send_cer (example_site p) example_client ?w = (Ok (), l1)" "lk_node l1 = example_node\<lparr>nd_ids := 501\<rparr>"
    by (simp add: send_cer_def fresh_ids_def next_id_def new_tcp_client_def example_site_def example_outside_def
        cer_command_base [OF base_dictionary_standard] tc_send_def command_new_def write_all_def example_node_def)
  have "client_step (example_site p) example_client [] Connected ?l0 = Some (l1\<lparr>tc_phase := AwaitingCea\<rparr>)"
    using l1(1) by (simp add: client_step_def new_tcp_client_def) (simp add: settle_def)
  moreover have "receive_cea (Ok ?cea) = Ok ()" by code_simp
  then have "client_step (example_site p) example_client [] (CeaRead (Ok ?cea)) (l1\<lparr>tc_phase := AwaitingCea\<rparr>)
      = Some (link_alarm (example_site p) (ClearAlarm (client_id example_client) ''b.x'' ''x'')
          (l1\<lparr>tc_connected := True, tc_phase := Serving []\<rparr>))"
    by (simp add: client_step_def) (simp add: example_client_def)
  ultimately have "client_reaches (example_site p) example_client ?l0
      (link_alarm (example_site p) (ClearAlarm (client_id example_client) ''b.x'' ''x'')
          (l1\<lparr>tc_connected := True, tc_phase := Serving []\<rparr>))"
    by (meson client_reaches.intros)
  then show ?thesis
    using l1(2)
    by (intro exI [of _ "link_alarm (example_site p) (ClearAlarm (client_id example_client) ''b.x'' ''x'')
          (l1\<lparr>tc_connected := True, tc_phase := Serving []\<rparr>)"]) simp
qed

theorem failed_client_stays_connected_witness:
  "\<forall>p. \<exists>l l1 e. client_reaches (example_site p) example_client (new_tcp_client False example_node 0) l
    \<and> client_step (example_site p) example_client [] (Reading (Bytes (command_encode (command_new 272 0 4 99 99 [])))) l = Some l1
    \<and> tc_phase l1 = Ended e \<and> tc_connected l1"
proof
  fix p
  obtain l where l: "client_reaches (example_site p) example_client (new_tcp_client False example_node 0) l"
    "tc_phase l = Serving []" "nd_answers (lk_node l) = nd_answers example_node" using example_serving by blast
  have "wf_command (command_new 272 0 4 99 99 [])" "is_answer (command_new 272 0 4 99 99 [])"
    "c_code (command_new 272 0 4 99 99 []) \<noteq> 280"
    by (simp_all add: wf_command_def command_new_def command_length_def is_answer_def is_request_def)
  moreover have "get_answer_info (nd_answers (lk_node l)) (c_hop_by_hop_id (command_new 272 0 4 99 99 [])) = None"
    using l(3) by (simp add: get_answer_info_def example_node_def answer_manager_new_def)
  ultimately show "\<exists>l l1 e. client_reaches (example_site p) example_client (new_tcp_client False example_node 0) l
    \<and> client_step (example_site p) example_client [] (Reading (Bytes (command_encode (command_new 272 0 4 99 99 [])))) l = Some l1
    \<and> tc_phase l1 = Ended e \<and> tc_connected l1"
    using failed_client_stays_connected [OF l(1,2)] l(1) by blast
qed

theorem server_connection_registered_witness:
  "\<forall>p. in_registry example_server_conn (server_begin (example_site p) example_server_conn example_link)"
  using server_connection_registered [OF server_reaches.start] by (simp add: server_begin_def)

theorem sent_commands_arrive_witness:
  "\<forall>p. receive_chunks [] [take 5 (command_encode (command_new 272 0x80 4 1 1 [])), drop 5 (command_encode (command_new 272 0x80 4 1 1 []))]
     = ([command_new 272 0x80 4 1 1 []], [])"
proof
  fix p
  let ?q = "command_new 272 0x80 4 1 1 []" and ?s = "example_site p"
  let ?l = "(new_tcp_client False example_node 0)\<lparr>lk_writer := Some new_writer, tc_connected := True\<rparr>"
  let ?k = "example_link\<lparr>lk_writer := Some new_writer\<rparr>"
  have wf: "wf_command ?q" by (simp add: wf_command_def command_new_def command_length_def)
  obtain l' k' where sent: "send_all (tc_send ?s) [?q] ?l = (Ok (), l')" "send_all (ts_send ?s) [?q] ?k = (Ok (), k')"
    and w: "written l' = command_encode ?q" "written k' = command_encode ?q"
    by (simp add: tc_send_def ts_send_def write_all_def new_tcp_client_def example_link_def example_site_def written_def)
  have "receive_chunks [] [take 5 (command_encode ?q), drop 5 (command_encode ?q)] = (map command_raw ([] @ [?q]), [])"
    by (rule sent_commands_arrive [OF sent, of "[]" "[]" _ "[command_encode ?q]", THEN conjunct1])
       (use wf w in \<open>simp_all add: written_def example_link_def\<close>)
  then show "receive_chunks [] [take 5 (command_encode ?q), drop 5 (command_encode ?q)] = ([?q], [])"
    by (simp add: command_raw_def command_new_def)
qed

end
