(* ===== verification/Sctp_Transport.thy ===== *)
theory Sctp_Transport
  imports Tcp_Transport
begin

text \<open>
  The SCTP transport (\<open>transport/sctp_transport.rs\<close>) over the SCTP socket library and, with
  DTLS, the DTLS library. A receive call of the socket library gives the bytes of a message or of a piece of
  one, a notification or an error; \<open>SctpStream::read\<close> copies as much of it as the buffer of the caller
  holds. A read of the DTLS library gives the bytes it has put into the buffer, or an error.

  As in the TCP transport, \<open>start\<close> of a client is a state machine; \<open>Reading\<close> carries what a
  receive call gives.
\<close>

section \<open>Reading\<close>

text \<open>What \<open>sctp_recv\<close> answers, and what a read of a \<open>SctpConnectionStream\<close> finds: that of a plain
  stream, or, with DTLS, the answer of the DTLS library.\<close>

datatype received = Message bytes | Notification | ReceiveFailed

datatype sctp_input = Plain_Read received | Dtls_Read "bytes option"

definition sctp_read :: "nat \<Rightarrow> sctp_input \<Rightarrow> bytes option" where
  "sctp_read n i =
     (case i of
        Plain_Read (Message payload) \<Rightarrow> Some (take (min (length payload) n) payload)
      | Plain_Read _ \<Rightarrow> None
      | Dtls_Read answer \<Rightarrow> answer)"

text \<open>A message that arrives whole.\<close>

definition whole :: "bool \<Rightarrow> bytes \<Rightarrow> sctp_input" where
  "whole dtls bs = (if dtls then Dtls_Read (Some bs) else Plain_Read (Message bs))"

lemma sctp_read_whole: "length bs \<le> n \<Longrightarrow> sctp_read n (whole dtls bs) = Some bs"
  by (simp add: sctp_read_def whole_def)

definition read_command_from_sctp :: "sctp_input \<Rightarrow> command option" where
  "read_command_from_sctp i =
     (case sctp_read (64 * 1024) i of Some data \<Rightarrow> fst (buffer_read_command data) | None \<Rightarrow> None)"

text \<open>What a read with the 4096 bytes of the connection handlers gives: 0 bytes end the stream.\<close>

definition sctp_event :: "sctp_input \<Rightarrow> read_event" where
  "sctp_event i =
     (case sctp_read 4096 i of None \<Rightarrow> ReadError | Some data \<Rightarrow> if data = [] then Eof else Bytes data)"

section \<open>The client connection\<close>

record sctp_client = link +
  sp_phase :: phase

definition new_sctp_client :: "node \<Rightarrow> id_generator \<Rightarrow> sctp_client" where
  "new_sctp_client nd e2e =
     \<lparr>lk_node = nd, lk_end_to_end = e2e, lk_writer = None, lk_ops = 0, lk_alarms = [], sp_phase = Connecting\<rparr>"

definition sp_send :: "site \<Rightarrow> command \<Rightarrow> sctp_client \<Rightarrow> (link_error, unit) outcome \<times> sctp_client" where
  "sp_send s q l = write_all s (command_encode q) l"

text \<open>\<open>close\<close> takes the stream out of the connection before it shuts the stream down.\<close>

definition sp_close :: "site \<Rightarrow> sctp_client \<Rightarrow> (link_error, unit) outcome \<times> sctp_client" where
  "sp_close s l =
     (if lk_writer l = None then (Ok (), l)
      else case shutdown_writer s l of (x, l1) \<Rightarrow> (x, l1\<lparr>lk_writer := None\<rparr>))"

definition sp_send_cer ::
  "site \<Rightarrow> client_connection \<Rightarrow> sctp_client \<Rightarrow> (link_error, unit) outcome \<times> sctp_client" where
  "sp_send_cer s c l =
     (let ((h, e), l1) = fresh_ids l in
      case cer_command (o_platform (si_out s)) (si_avp_map s) (cl_host c) (cl_realm c) (cl_capability c) h e of
        None \<Rightarrow> (Panic, l)
      | Some cer \<Rightarrow> sp_send s cer l1)"

definition sp_send_dwr ::
  "site \<Rightarrow> client_connection \<Rightarrow> sctp_client \<Rightarrow> (link_error, unit) outcome \<times> sctp_client" where
  "sp_send_dwr s c l =
     (let ((h, e), l1) = fresh_ids l in
      case dwr_command (o_platform (si_out s)) (si_avp_map s) (cl_host c) (cl_realm c) h e of
        None \<Rightarrow> (Panic, l1)
      | Some dwr \<Rightarrow> sp_send s dwr l1)"

definition sp_send_dwa :: "site \<Rightarrow> sctp_client \<Rightarrow> (link_error, unit) outcome \<times> sctp_client" where
  "sp_send_dwa s l = (let ((h, e), l1) = fresh_ids l in sp_send s (sctp_client_dwa h e) l1)"

definition sp_process_dpr :: "site \<Rightarrow> command \<Rightarrow> sctp_client \<Rightarrow> (link_error, unit) outcome \<times> sctp_client" where
  "sp_process_dpr s q l = sp_send s (sctp_client_dpa q) l"

definition sp_process_command ::
  "site \<Rightarrow> client_connection \<Rightarrow> command \<Rightarrow> sctp_client \<Rightarrow> (link_error, unit) outcome \<times> sctp_client" where
  "sp_process_command s c q l =
     (if c_code q = command_code_u32 DeviceWatchdog then
        (if is_request q then sp_send_dwa s l else (Ok (), l))
      else if c_code q = command_code_u32 DisconnectPeer \<and> is_request q then sp_process_dpr s q l
      else process_application s (client_context s c) q l)"

fun sp_process_all ::
  "site \<Rightarrow> client_connection \<Rightarrow> command list \<Rightarrow> sctp_client \<Rightarrow> (link_error, unit) outcome \<times> sctp_client" where
  "sp_process_all s c [] l = (Ok (), l)"
| "sp_process_all s c (q # qs) l =
     (case sp_process_command s c q l of (Ok u, l1) \<Rightarrow> sp_process_all s c qs l1 | r \<Rightarrow> r)"

text \<open>The end of a turn of \<open>handle_connection\<close>: an error is logged by \<open>start\<close>, which
  dials again.\<close>

definition redial :: "command_buffer \<Rightarrow> (link_error, unit) outcome \<times> sctp_client \<Rightarrow> sctp_client" where
  "redial buf r =
     (case r of
        (Ok u, l) \<Rightarrow> l\<lparr>sp_phase := Serving buf\<rparr>
      | (Err e, l) \<Rightarrow> l\<lparr>sp_phase := Connecting\<rparr>
      | (Panic, l) \<Rightarrow> l\<lparr>sp_phase := Crashed\<rparr>)"

definition sp_serve ::
  "site \<Rightarrow> client_connection \<Rightarrow> command_buffer \<Rightarrow> read_event \<Rightarrow> sctp_client \<Rightarrow> sctp_client" where
  "sp_serve s c buf ev l =
     (case ev of
        Tick \<Rightarrow> redial buf (sp_send_dwr s c l)
      | Eof \<Rightarrow> l\<lparr>sp_phase := Connecting\<rparr>
      | ReadError \<Rightarrow> l\<lparr>sp_phase := Connecting\<rparr>
      | Bytes data \<Rightarrow>
          (case buffer_read_commands (buffer_append buf data) of
             (qs, buf') \<Rightarrow> redial buf' (sp_process_all s c qs l)))"

text \<open>The checks of \<open>start\<close> on the CEA.\<close>

definition cea_accepts :: "command \<Rightarrow> bool" where
  "cea_accepts cea \<longleftrightarrow>
     c_code cea = command_code_u32 CapabilitiesExchange \<and> is_answer cea
     \<and> (case get_result_code cea of Some code \<Rightarrow> \<not> (code < 2000 \<or> code \<ge> 3000) | None \<Rightarrow> False)"

datatype sctp_client_event =
  SctpConnectFailed | DtlsFailed | SctpConnected | CeaInput sctp_input | SctpCerTimeout | WatchdogTick
| Receiving sctp_input

definition sctp_client_step ::
  "site \<Rightarrow> client_connection \<Rightarrow> sctp_client_event \<Rightarrow> sctp_client \<Rightarrow> sctp_client option" where
  "sctp_client_step s c ev l =
     (case (sp_phase l, ev) of
        (Connecting, SctpConnectFailed) \<Rightarrow> Some l
      | (Connecting, DtlsFailed) \<Rightarrow> Some (l\<lparr>sp_phase := Ended TlsFailed\<rparr>)
      | (Connecting, SctpConnected) \<Rightarrow>
          Some (case sp_send_cer s c (l\<lparr>lk_writer := Some new_writer\<rparr>) of
             (Ok u, l1) \<Rightarrow> l1\<lparr>sp_phase := AwaitingCea\<rparr>
           | (Err e, l1) \<Rightarrow> l1\<lparr>sp_phase := Ended e\<rparr>
           | (Panic, l1) \<Rightarrow> l1\<lparr>sp_phase := Crashed\<rparr>)
      | (AwaitingCea, CeaInput i) \<Rightarrow>
          Some (case read_command_from_sctp i of
             Some cea \<Rightarrow> if cea_accepts cea then l\<lparr>sp_phase := Serving []\<rparr> else l\<lparr>sp_phase := Connecting\<rparr>
           | None \<Rightarrow> l\<lparr>sp_phase := Connecting\<rparr>)
      | (AwaitingCea, SctpCerTimeout) \<Rightarrow> Some ((snd (sp_close s l))\<lparr>sp_phase := Connecting\<rparr>)
      | (Serving buf, WatchdogTick) \<Rightarrow> Some (sp_serve s c buf Tick l)
      | (Serving buf, Receiving i) \<Rightarrow> Some (sp_serve s c buf (sctp_event i) l)
      | _ \<Rightarrow> None)"

section \<open>The server connection\<close>

definition ss_send :: "site \<Rightarrow> command \<Rightarrow> server_link \<Rightarrow> (link_error, unit) outcome \<times> server_link" where
  "ss_send s q l = write_all s (command_encode q) l"

definition ss_close :: "site \<Rightarrow> server_link \<Rightarrow> (link_error, unit) outcome \<times> server_link" where
  "ss_close s l =
     (case (if lk_writer l = None then (Ok (), l)
            else case shutdown_writer s l of (x, l1) \<Rightarrow> (x, l1\<lparr>lk_writer := None\<rparr>)) of
        (Ok u, l1) \<Rightarrow> (Ok (), l1\<lparr>sl_closed := True\<rparr>)
      | r \<Rightarrow> r)"

definition ss_process_dwa ::
  "site \<Rightarrow> server_conn \<Rightarrow> command \<Rightarrow> server_link \<Rightarrow> (link_error, unit) outcome \<times> server_link" where
  "ss_process_dwa s c q l = ss_send s (server_dwa (srv_my_host c) (srv_my_realm c) q) l"

definition ss_process_dpr ::
  "site \<Rightarrow> server_conn \<Rightarrow> command \<Rightarrow> server_link \<Rightarrow> (link_error, unit) outcome \<times> server_link" where
  "ss_process_dpr s c q l =
     (case ss_send s (server_dpa (srv_my_host c) (srv_my_realm c) q) l of
        (Ok u, l1) \<Rightarrow> ss_close s l1
      | r \<Rightarrow> r)"

definition ss_process_command ::
  "site \<Rightarrow> server_conn \<Rightarrow> command \<Rightarrow> server_link \<Rightarrow> (link_error, unit) outcome \<times> server_link" where
  "ss_process_command s c q l =
     (if c_code q = command_code_u32 DeviceWatchdog \<and> is_request q then ss_process_dwa s c q l
      else if c_code q = command_code_u32 DisconnectPeer \<and> is_request q then ss_process_dpr s c q l
      else process_application s (server_context s c) q l)"

text \<open>One receive call of the server's handler, its loop shared with the TCP server.\<close>

definition sctp_server_step :: "site \<Rightarrow> server_conn \<Rightarrow> sctp_input \<Rightarrow> server_link \<Rightarrow> server_link option" where
  "sctp_server_step s c i l = server_step (ss_process_command s c) s c (sctp_event i) l"

definition handle_cer_exchange ::
  "site \<Rightarrow> diameter_server \<Rightarrow> sctp_input \<Rightarrow> server_link \<Rightarrow> (link_error, command) outcome \<times> server_link" where
  "handle_cer_exchange s sv i l =
     (case read_command_from_sctp i of
        None \<Rightarrow> (Err (CerNotRead Not_Parsed), l)
      | Some cer \<Rightarrow>
          if c_code cer \<noteq> command_code_u32 CapabilitiesExchange \<or> \<not> is_request cer then (Err NotACer, l)
          else if get_origin_host cer = None \<or> get_origin_realm cer = None then (Err CerWithoutOrigin, l)
          else
            (case sctp_create_cea (o_platform (si_out s)) (si_avp_map s) (dsv_host sv) (dsv_realm sv)
                    (dsv_capability sv) cer of
               None \<Rightarrow> (Panic, l)
             | Some cea \<Rightarrow>
                 (case write_all s (command_encode cea) l of
                    (Ok u, l1) \<Rightarrow> (Ok cer, l1)
                  | (Err e, l1) \<Rightarrow> (Err e, l1)
                  | (Panic, l1) \<Rightarrow> (Panic, l1))))"

text \<open>What \<open>start\<close> does with an accepted association that is past DTLS.\<close>

definition sctp_accept ::
  "site \<Rightarrow> diameter_server \<Rightarrow> string \<Rightarrow> nat \<Rightarrow> sctp_input \<Rightarrow> server_link
   \<Rightarrow> (link_error, server_conn) outcome \<times> server_link" where
  "sctp_accept s sv peer_addr handle i l =
     (case handle_cer_exchange s sv i (l\<lparr>lk_writer := Some new_writer\<rparr>) of
        (Ok cer, l1) \<Rightarrow>
          let c = create_connection_from_cer sv cer peer_addr handle in
          (Ok c, server_begin s c (l1\<lparr>sl_closed := False\<rparr>))
      | (Err e, l1) \<Rightarrow> (Err e, snd (shutdown_writer s l1))
      | (Panic, l1) \<Rightarrow> (Panic, l1))"

section \<open>Lemmas\<close>

lemma ss_process_base_node:
  "ss_process_dwa s c q l = (x, l') \<Longrightarrow> lk_node l' = lk_node l"
  "ss_process_dpr s c q l = (x, l') \<Longrightarrow> lk_node l' = lk_node l"
  by (auto simp: ss_process_dwa_def ss_process_dpr_def ss_send_def ss_close_def dest!: node_kept
      split: prod.splits outcome.splits if_splits)

interpretation sctp_server: server_transport "ss_process_command s c" for s c
proof
  show "same_config (nd_mgr (lk_node l)) (nd_mgr (lk_node (snd (ss_process_command s c q l))))" for l q
    using ss_process_base_node [of s c q l] process_application_config [of l s "server_context s c" q]
    by (auto simp: ss_process_command_def) (metis prod.collapse same_config_refl)+
qed

interpretation sctp_client_sender: command_sender "sp_send s" written for s
  by unfold_locales (simp_all add: sp_send_def write_all_written)

interpretation sctp_server_sender: command_sender "ss_send s" written for s
  by unfold_locales (simp_all add: ss_send_def write_all_written)

lemma read_command_buffer:
  assumes "read_command bs = (Ok q, [])"
  shows "fst (buffer_read_command bs) = Some q"
proof -
  let ?n = "unat (length_field bs)"
  have n: "4 \<le> length bs" "4 \<le> ?n" "?n - 4 \<le> length bs - 4"
    and r: "buffer_read_command (take 4 bs @ take (?n - 4) (drop 4 bs)) = (Some q, snd (buffer_read_command (take 4 bs @ take (?n - 4) (drop 4 bs))))"
    and e: "drop (?n - 4) (drop 4 bs) = []"
    using assms by (auto simp: read_command_def Let_def split: if_splits option.splits prod.splits)
  have "take 4 bs @ take (?n - 4) (drop 4 bs) = take 4 bs @ drop 4 bs" using e by simp
  then show ?thesis using r by (metis append_take_drop_id fst_conv)
qed

lemma sctp_create_cea_base:
  assumes "base_dictionary m"
  shows "sctp_create_cea p m host realm cap cer =
    Some (set_result_code (command_new 257 0 0 (c_hop_by_hop_id cer) (c_end_to_end_id cer)
      (from_utf8_string 264 0x40 None host # from_utf8_string 296 0x40 None realm
       # from_unsigned32 266 0x40 None 0 # capability_avps p cap)) 2001)"
  using assms by (simp add: sctp_create_cea_def base_named create_capability_avps_base command_new_def add_avps_def)

lemma wf_set_or_push:
  "list_all wf_avp as \<Longrightarrow> wf_avp (from_unsigned32 c f None w) \<Longrightarrow>
   list_all (\<lambda>a. a_code a \<noteq> c) as \<Longrightarrow> list_all wf_avp (set_or_push c upd (from_unsigned32 c f None w) as)"
  by (induction as) auto

lemma capability_codes: "list_all (\<lambda>a. a_code a \<noteq> 268) (capability_avps p cap)"
  by (auto simp: capability_avps_def list_all_iff)

lemma sctp_cea_accepted:
  assumes "base_dictionary m" "short_capability p cap" "length host < 2 ^ 24 - 12" "length realm < 2 ^ 24 - 12"
    and "sctp_create_cea p m host realm cap cer = Some cea" "command_length cea < 2 ^ 24"
    and "length (command_encode cea) \<le> 65536"
  shows "\<exists>q. read_command_from_sctp (whole dtls (command_encode cea)) = Some q \<and> cea_accepts q"
proof -
  note cea = sctp_create_cea_base [OF assms(1), of p host realm cap cer, unfolded assms(5) option.inject]
  have "list_all wf_avp (c_avps cea)"
    using assms(3,4) wf_capability_avps [OF assms(2)] capability_codes unfolding cea
    by (simp add: set_result_code_def command_new_def wf_from wf_set_or_push)
  then have "wf_command cea" using assms(6) unfolding cea
    by (simp add: wf_command_def) (simp add: command_new_def)
  from buffer_read_encoded [OF this, of "[]"]
  have "read_command_from_sctp (whole dtls (command_encode cea)) = Some (command_raw cea)"
    using assms(7) by (simp add: read_command_from_sctp_def sctp_read_whole)
  moreover have "get_result_code (command_raw cea) = Some 2001"
  proof -
    have "get_result_code cea = Some 2001" unfolding cea by (rule result_code.get_set) simp
    then show ?thesis
      by (cases "get_avp cea 268") (auto simp: get_result_code_def unsigned32.get_Some_iff avp_raw_def avp_body_def)
  qed
  moreover have "c_code (command_raw cea) = 257" "is_answer (command_raw cea)"
    by (simp_all add: cea command_new_def is_answer_def is_request_def)
  ultimately show ?thesis by (simp add: cea_accepts_def)
qed

inductive sctp_client_reaches :: "site \<Rightarrow> client_connection \<Rightarrow> sctp_client \<Rightarrow> sctp_client \<Rightarrow> bool"
  for s c l0 where
  start: "sctp_client_reaches s c l0 l0"
| step: "sctp_client_reaches s c l0 l \<Longrightarrow> sctp_client_step s c ev l = Some l' \<Longrightarrow> sctp_client_reaches s c l0 l'"

text \<open>The operations of an SCTP client ask for no alarm.\<close>

lemma alarms_write_all: "write_all s data l = (x, l') \<Longrightarrow> lk_alarms l' = lk_alarms l"
  by (auto simp: write_all_def Let_def split: option.splits if_splits)

lemma alarms_fresh_ids: "fresh_ids l = (he, l1) \<Longrightarrow> lk_alarms l1 = lk_alarms l"
  by (auto simp: fresh_ids_def next_id_def Let_def)

lemma alarms_process_all: "sp_process_all s c qs l = (x, l') \<Longrightarrow> lk_alarms l' = lk_alarms l"
proof (induction qs arbitrary: l)
  case (Cons q qs)
  have "lk_alarms l1 = lk_alarms l" if "sp_process_command s c q l = (y, l1)" for y l1
    using that
    by (auto simp: sp_process_command_def sp_send_dwa_def sp_process_dpr_def sp_send_def process_application_def
        dest!: alarms_write_all alarms_fresh_ids split: if_splits prod.splits outcome.splits)
  then show ?case using Cons by (auto split: prod.splits outcome.splits)
qed simp

lemma alarms_sends:
  "sp_send_dwr s c l = (x, l') \<Longrightarrow> lk_alarms l' = lk_alarms l"
  "sp_send_cer s c l = (x, l') \<Longrightarrow> lk_alarms l' = lk_alarms l"
  "sp_close s l = (x, l') \<Longrightarrow> lk_alarms l' = lk_alarms l"
  by (auto simp: sp_send_dwr_def sp_send_cer_def sp_send_def sp_close_def shutdown_writer_def Let_def
      dest!: alarms_write_all alarms_fresh_ids split: prod.splits option.splits if_splits)

lemma alarms_step:
  assumes "sctp_client_step s c ev l = Some l'"
  shows "lk_alarms l' = lk_alarms l"
proof -
  have "lk_alarms (sp_serve s c buf rd l) = lk_alarms l" for buf rd
    by (auto simp: sp_serve_def redial_def dest!: alarms_process_all alarms_sends
        split: read_event.split prod.split outcome.split)
  moreover have "lk_alarms (snd (sp_close s l)) = lk_alarms l"
    by (metis alarms_sends(3) prod.collapse)
  moreover have "lk_alarms l1 = lk_alarms l" if "sp_send_cer s c (l\<lparr>lk_writer := Some new_writer\<rparr>) = (x, l1)" for x l1
    using alarms_sends(2) [OF that] by simp
  ultimately show ?thesis
    using assms by (auto simp: sctp_client_step_def split: phase.splits sctp_client_event.splits prod.splits
        outcome.splits option.splits if_splits)
qed

section \<open>Properties\<close>

text \<open>An SCTP client never gives up an association it serves: whatever it receives and whatever
  fails, it goes on serving or dials again (or panics, when the dictionary lacks the base AVPs or an
  operation it calls panics); a read error, a notification or the end of the stream makes it dial
  again. But unlike the TCP client it never asks for an alarm.\<close>

theorem sctp_client_redials:
  assumes "sctp_client_reaches s c (new_sctp_client nd g) l"
  shows "lk_alarms l = []
    \<and> (\<forall>buf ev l'. sp_phase l = Serving buf \<longrightarrow> sctp_client_step s c ev l = Some l' \<longrightarrow>
         (\<exists>buf'. sp_phase l' = Serving buf') \<or> sp_phase l' = Connecting \<or> sp_phase l' = Crashed)
    \<and> (\<forall>buf i. sp_phase l = Serving buf \<longrightarrow> sctp_read 4096 i \<in> {None, Some []} \<longrightarrow>
         sctp_client_step s c (Receiving i) l = Some (l\<lparr>sp_phase := Connecting\<rparr>))
    \<and> (sp_phase l = Connecting \<longrightarrow> sctp_client_step s c SctpConnected l \<noteq> None)"
proof -
  have "lk_alarms l = lk_alarms (new_sctp_client nd g)"
    using assms by (induction rule: sctp_client_reaches.induct) (auto dest: alarms_step)
  moreover have "(\<exists>buf'. sp_phase l' = Serving buf') \<or> sp_phase l' = Connecting \<or> sp_phase l' = Crashed"
    if "sp_phase l = Serving buf" "sctp_client_step s c ev l = Some l'" for buf ev l'
    using that by (auto simp: sctp_client_step_def sp_serve_def redial_def split: sctp_client_event.splits
        read_event.splits prod.splits outcome.splits)
  ultimately show ?thesis
    by (auto simp: new_sctp_client_def sctp_client_step_def sp_serve_def sctp_event_def sctp_read_def)
qed

text \<open>C36. The two ends of the SCTP transport agree, plain and over DTLS: when the association works, the
  messages fit 64 kilobytes and each arrives whole in one read, a client that connects to a server
  completes the capabilities exchange, and the server registers the client under the host and realm of
  its CER.\<close>

theorem sctp_handshake_completes:
  assumes "base_dictionary (si_avp_map s)" "base_dictionary (si_avp_map t)"
    and "short_capability (o_platform (si_out s)) (cl_capability c)"
    and "short_capability (o_platform (si_out t)) (dsv_capability sv)"
    and "rust_string (cl_host c)" "rust_string (cl_realm c)"
    and "length (cl_host c) < 2 ^ 24 - 12" "length (cl_realm c) < 2 ^ 24 - 12"
    and "length (dsv_host sv) < 2 ^ 24 - 12" "length (dsv_realm sv) < 2 ^ 24 - 12"
    and "\<And>h e cer. cer_command (o_platform (si_out s)) (si_avp_map s) (cl_host c) (cl_realm c) (cl_capability c) h e
           = Some cer \<Longrightarrow> command_length cer < 2 ^ 24 \<and> length (command_encode cer) \<le> 65536"
    and "\<And>q cea. sctp_create_cea (o_platform (si_out t)) (si_avp_map t) (dsv_host sv) (dsv_realm sv)
           (dsv_capability sv) q = Some cea \<Longrightarrow> command_length cea < 2 ^ 24 \<and> length (command_encode cea) \<le> 65536"
    and "sp_phase l = Connecting" "\<And>k. si_io s k = None" "\<And>k. si_io t k = None"
  shows "\<exists>l1 sc sv1 l2. sctp_client_step s c SctpConnected l = Some l1
    \<and> sctp_accept t sv addr handle (whole dtls (written l1)) m = (Ok sc, sv1)
    \<and> srv_peer_host sc = cl_host c \<and> srv_peer_realm sc = cl_realm c \<and> in_registry sc sv1
    \<and> sctp_client_step s c (CeaInput (whole dtls (written sv1))) l1 = Some l2 \<and> sp_phase l2 = Serving []"
proof -
  let ?p = "o_platform (si_out s)" and ?w = "l\<lparr>lk_writer := Some new_writer\<rparr>"
  obtain h e l0 where i: "fresh_ids ?w = ((h, e), l0)" by (metis surj_pair)
  obtain cer where cer: "cer_command ?p (si_avp_map s) (cl_host c) (cl_realm c) (cl_capability c) h e = Some cer"
    using cer_command_base [OF assms(1)] by blast
  note fit = assms(11) [OF cer]
  note r = cer_accepted [OF assms(1,3,5-8) cer conjunct1 [OF fit]]
  have "read_command_from_sctp (whole dtls (command_encode cer)) = Some (command_raw cer)"
    using r(1) [of "[]"] fit by (auto simp: read_command_from_sctp_def sctp_read_whole intro: read_command_buffer)
  note rd = this
  obtain l1 where l1: "sp_send_cer s c ?w = (Ok (), l1)" "written l1 = command_encode cer"
    using i cer assms(14)
    by (auto simp: sp_send_cer_def sp_send_def write_all_def fresh_ids_def next_id_def Let_def written_def)
  obtain cea where cea: "sctp_create_cea (o_platform (si_out t)) (si_avp_map t) (dsv_host sv) (dsv_realm sv)
      (dsv_capability sv) (command_raw cer) = Some cea"
    using sctp_create_cea_base [OF assms(2)] by blast
  obtain sv0 where sv0: "write_all t (command_encode cea) (m\<lparr>lk_writer := Some new_writer\<rparr>) = (Ok (), sv0)"
    "written sv0 = command_encode cea"
    using assms(15) by (auto simp: write_all_def written_def)
  let ?sc = "create_connection_from_cer sv (command_raw cer) addr handle"
  let ?sv1 = "server_begin t ?sc (sv0\<lparr>sl_closed := False\<rparr>)"
  have w: "written ?sv1 = command_encode cea"
    using sv0(2) by (simp add: server_begin_def written_def link_alarm_def)
  obtain q where q: "read_command_from_sctp (whole dtls (written ?sv1)) = Some q" "cea_accepts q"
    using sctp_cea_accepted [OF assms(2,4,9,10) cea] assms(12) [OF cea] unfolding w by blast
  have "in_registry ?sc ?sv1" by (rule in_registry_begin)
  moreover have "srv_peer_host ?sc = cl_host c" "srv_peer_realm ?sc = cl_realm c"
    using r(4,5) by (simp_all add: create_connection_from_cer_def str_or_default_def)
  moreover have "sctp_client_step s c SctpConnected l = Some (l1\<lparr>sp_phase := AwaitingCea\<rparr>)"
    using assms(13) l1(1) by (simp add: sctp_client_step_def)
  moreover have "sctp_accept t sv addr handle (whole dtls (written (l1\<lparr>sp_phase := AwaitingCea\<rparr>))) m = (Ok ?sc, ?sv1)"
    using rd r(2-5) cea sv0(1) l1(2)
    by (simp add: sctp_accept_def handle_cer_exchange_def Let_def written_def)
  moreover have "sctp_client_step s c (CeaInput (whole dtls (written ?sv1))) (l1\<lparr>sp_phase := AwaitingCea\<rparr>)
      = Some (l1\<lparr>sp_phase := Serving []\<rparr>)"
    using q by (simp add: sctp_client_step_def)
  moreover have "sp_phase (l1\<lparr>sp_phase := Serving []\<rparr>) = Serving []" by simp
  ultimately show ?thesis by blast
qed

section \<open>Witnesses\<close>

definition example_sctp_client :: client_connection where
  "example_sctp_client = example_client\<lparr>cl_transport := Sctp 0 46\<rparr>"

lemma example_sctp_cea_fits:
  "sctp_create_cea p (avp_map_new []) ''b.x'' ''x'' example_capability q = Some c \<Longrightarrow>
     command_length c < 2 ^ 24 \<and> length (command_encode c) \<le> 65536"
  by (auto simp: sctp_create_cea_base [OF base_dictionary_standard] command_length_def command_new_def capability_avps_def
      example_capability_def list_or_default_def total_length_including_padding_def pad4_def from_unsigned32_def
      from_utf8_string_def from_grouped_def vendor_specific_members_def avp_new_def set_result_code_def command_encode_def
      padding_def)

theorem sctp_client_redials_witness:
  "\<forall>p. sctp_client_step (example_site p) example_sctp_client SctpConnected (new_sctp_client example_node 0) \<noteq> None"
  using sctp_client_redials [OF sctp_client_reaches.start] by (simp add: new_sctp_client_def)

lemma example_sctp_cer_fits:
  "cer_command p (avp_map_new []) ''a.x'' ''x'' example_capability h e = Some c \<Longrightarrow>
     command_length c < 2 ^ 24 \<and> length (command_encode c) \<le> 65536"
  using example_cer_length [of p h e c]
  by (auto simp: cer_command_base [OF base_dictionary_standard] command_length_def command_new_def capability_avps_def
      example_capability_def list_or_default_def total_length_including_padding_def pad4_def from_unsigned32_def
      from_utf8_string_def from_grouped_def vendor_specific_members_def avp_new_def command_encode_def padding_def)

theorem sctp_handshake_completes_witness:
  "\<forall>p dtls. \<exists>l1 sc sv1 l2. sctp_client_step (example_site p) example_sctp_client SctpConnected (new_sctp_client example_node 0) = Some l1
    \<and> sctp_accept (example_site p) example_server ''10.0.0.1:40000'' 7 (whole dtls (written l1)) example_link = (Ok sc, sv1)
    \<and> srv_peer_host sc = ''a.x'' \<and> in_registry sc sv1
    \<and> sctp_client_step (example_site p) example_sctp_client (CeaInput (whole dtls (written sv1))) l1 = Some l2
    \<and> sp_phase l2 = Serving []"
proof (intro allI)
  fix p dtls
  have "rust_string ''a.x''" "rust_string ''x''" by code_simp+
  then show "\<exists>l1 sc sv1 l2. sctp_client_step (example_site p) example_sctp_client SctpConnected (new_sctp_client example_node 0) = Some l1
    \<and> sctp_accept (example_site p) example_server ''10.0.0.1:40000'' 7 (whole dtls (written l1)) example_link = (Ok sc, sv1)
    \<and> srv_peer_host sc = ''a.x'' \<and> in_registry sc sv1
    \<and> sctp_client_step (example_site p) example_sctp_client (CeaInput (whole dtls (written sv1))) l1 = Some l2
    \<and> sp_phase l2 = Serving []"
    using sctp_handshake_completes [of "example_site p" "example_site p" example_sctp_client example_server
        "new_sctp_client example_node 0" "''10.0.0.1:40000''" 7 dtls example_link]
      example_capability_short example_sctp_cer_fits example_sctp_cea_fits
    by (simp add: example_site_def example_sctp_client_def example_client_def example_server_def base_dictionary_standard new_sctp_client_def) blast
qed

end
