(* ===== verification/Sctp_Socket.thy ===== *)
theory Sctp_Socket
  imports Sctp_Transport Tls_Files
begin

text \<open>
  The wrapper of the SCTP socket library (module \<open>sctp\<close> of \<open>transport/sctp_transport.rs\<close>):
  resolving the configured addresses, dialling, listening, accepting and sending, the adapter that lets the
  DTLS library run over an association, and the stream that is one or the other.

  The library is a record of what its calls answer, \<open>'a\<close> the type of its socket addresses; sockets
  and associations are numbers. The messages that were handed to the library are kept in the stream, with
  the \<open>SendInfo\<close> of each.
\<close>

record 'a sctp_library =
  sy_resolve :: "string \<Rightarrow> 'a list option"
  sy_is_ipv6 :: "'a \<Rightarrow> bool"
  sy_new_v4 :: "nat option"
  sy_new_v6 :: "nat option"
  sy_connectx :: "nat \<Rightarrow> 'a list \<Rightarrow> (nat \<times> nat) option"
  sy_getladdrs :: "nat \<Rightarrow> nat \<Rightarrow> 'a list option"
  sy_getpaddrs :: "nat \<Rightarrow> nat \<Rightarrow> 'a list option"
  sy_bindx :: "nat \<Rightarrow> 'a list \<Rightarrow> bool"
  sy_bind :: "nat \<Rightarrow> 'a \<Rightarrow> bool"
  sy_listen :: "nat \<Rightarrow> nat \<Rightarrow> nat option"

datatype 'a socket_error =
  NoAddresses | NotResolved string | NoAddressResolved string | NoIpv4Socket | NoIpv6Socket
| ConnectFailed | NoLocalAddress | NoRemoteAddress | BindFailed | ListenFailed | AcceptFailed
| SctpReadFailed | NotificationReceived | SctpWriteFailed | SctpShutdownFailed | NotConnectedTo 'a 'a
| DtlsReadFailed | DtlsWriteFailed | IncompleteWrite nat nat | DtlsShutdownFailed

record send_info =
  si_sid :: u16
  si_ppid :: u32
  si_flags :: u16
  si_context :: u32
  si_assoc_id :: nat

record 'a sctp_stream =
  sm_stream_id :: u16
  sm_ppid :: u32
  sm_inner :: nat
  sm_local_addr :: 'a
  sm_remote_addr :: 'a
  sm_sent :: "(bytes \<times> send_info) list"

record sctp_listener =
  sn_stream_id :: u16
  sn_ppid :: u32
  sn_inner :: nat

section \<open>Dialling and listening\<close>

definition resolve_address :: "'a sctp_library \<Rightarrow> string \<Rightarrow> ('a socket_error, 'a) outcome" where
  "resolve_address lib address =
     (case sy_resolve lib address of
        None \<Rightarrow> Err (NotResolved address)
      | Some [] \<Rightarrow> Err (NoAddressResolved address)
      | Some (a # as) \<Rightarrow> Ok a)"

fun resolve_addresses :: "'a sctp_library \<Rightarrow> string list \<Rightarrow> ('a socket_error, 'a list) outcome" where
  "resolve_addresses lib [] = Ok []"
| "resolve_addresses lib (address # addresses) =
     bind_ok (resolve_address lib address) (\<lambda>a. map_ok ((#) a) (resolve_addresses lib addresses))"

definition create_socket :: "'a sctp_library \<Rightarrow> 'a \<Rightarrow> ('a socket_error, nat) outcome" where
  "create_socket lib address =
     (if sy_is_ipv6 lib address then (case sy_new_v6 lib of Some s \<Rightarrow> Ok s | None \<Rightarrow> Err NoIpv6Socket)
      else (case sy_new_v4 lib of Some s \<Rightarrow> Ok s | None \<Rightarrow> Err NoIpv4Socket))"

definition first_or :: "'a \<Rightarrow> 'a list \<Rightarrow> 'a" where
  "first_or d xs = (case xs of [] \<Rightarrow> d | x # _ \<Rightarrow> x)"

definition ok_or :: "'e \<Rightarrow> 'b option \<Rightarrow> ('e, 'b) outcome" where
  "ok_or e x = (case x of Some v \<Rightarrow> Ok v | None \<Rightarrow> Err e)"

definition sctp_connect :: "'a sctp_library \<Rightarrow> u16 \<Rightarrow> u32 \<Rightarrow> string list \<Rightarrow> ('a socket_error, 'a sctp_stream) outcome" where
  "sctp_connect lib stream_id ppid addresses =
     (if addresses = [] then Err NoAddresses
      else
        bind_ok (resolve_addresses lib addresses) (\<lambda>resolved.
        bind_ok (create_socket lib (hd resolved)) (\<lambda>socket.
        bind_ok (ok_or ConnectFailed (sy_connectx lib socket resolved)) (\<lambda>(inner, assoc_id).
        bind_ok (ok_or NoLocalAddress (sy_getladdrs lib inner assoc_id)) (\<lambda>local_addrs.
        bind_ok (ok_or NoRemoteAddress (sy_getpaddrs lib inner assoc_id)) (\<lambda>remote_addrs.
          Ok \<lparr>sm_stream_id = stream_id, sm_ppid = ppid, sm_inner = inner,
              sm_local_addr = first_or (hd resolved) local_addrs,
              sm_remote_addr = first_or (hd resolved) remote_addrs, sm_sent = []\<rparr>))))))"

definition sctp_bind :: "'a sctp_library \<Rightarrow> u16 \<Rightarrow> u32 \<Rightarrow> string list \<Rightarrow> ('a socket_error, sctp_listener) outcome" where
  "sctp_bind lib stream_id ppid addresses =
     (if addresses = [] then Err NoAddresses
      else
        bind_ok (resolve_addresses lib addresses) (\<lambda>resolved.
        bind_ok (create_socket lib (hd resolved)) (\<lambda>socket.
          if (if length resolved > 1 then sy_bindx lib socket resolved else sy_bind lib socket (hd resolved))
          then map_ok (\<lambda>inner. \<lparr>sn_stream_id = stream_id, sn_ppid = ppid, sn_inner = inner\<rparr>)
                 (ok_or ListenFailed (sy_listen lib socket 128))
          else Err BindFailed)))"

text \<open>\<open>accept\<close>, on what the library accepts.\<close>

definition sctp_stream_accept ::
  "sctp_listener \<Rightarrow> (nat \<times> 'a) option \<Rightarrow> ('a socket_error, 'a sctp_stream \<times> 'a) outcome" where
  "sctp_stream_accept sl accepted =
     map_ok (\<lambda>(inner, addr).
       (\<lparr>sm_stream_id = sn_stream_id sl, sm_ppid = sn_ppid sl, sm_inner = inner, sm_local_addr = addr,
         sm_remote_addr = addr, sm_sent = []\<rparr>, addr))
     (ok_or AcceptFailed accepted)"

section \<open>Messages\<close>

text \<open>\<open>accepted\<close> says whether the library takes the message.\<close>

definition send_message ::
  "bool \<Rightarrow> bytes \<Rightarrow> 'a sctp_stream \<Rightarrow> ('a socket_error, nat) outcome \<times> 'a sctp_stream" where
  "send_message accepted data st =
     (if accepted then
        (Ok (length data),
         st\<lparr>sm_sent := sm_sent st @
             [(data, \<lparr>si_sid = sm_stream_id st, si_ppid = sm_ppid st, si_flags = 0, si_context = 0, si_assoc_id = 0\<rparr>)]\<rparr>)
      else (Err SctpWriteFailed, st))"

definition stream_write_all ::
  "bool \<Rightarrow> bytes \<Rightarrow> 'a sctp_stream \<Rightarrow> ('a socket_error, unit) outcome \<times> 'a sctp_stream" where
  "stream_write_all accepted data st =
     (case send_message accepted data st of (x, st') \<Rightarrow> (map_ok (\<lambda>_. ()) x, st'))"

definition stream_read :: "nat \<Rightarrow> received \<Rightarrow> ('a socket_error, bytes) outcome" where
  "stream_read n i =
     (case i of
        Message payload \<Rightarrow> Ok (take (min (length payload) n) payload)
      | Notification \<Rightarrow> Err NotificationReceived
      | ReceiveFailed \<Rightarrow> Err SctpReadFailed)"

definition stream_shutdown :: "bool \<Rightarrow> ('a socket_error, unit) outcome" where
  "stream_shutdown ended = (if ended then Ok () else Err SctpShutdownFailed)"

text \<open>The adapter for the DTLS library.\<close>

definition transport_recv_from :: "nat \<Rightarrow> received \<Rightarrow> 'a sctp_stream \<Rightarrow> ('a socket_error, bytes \<times> 'a) outcome" where
  "transport_recv_from n i st = map_ok (\<lambda>data. (data, sm_remote_addr st)) (stream_read n i)"

definition transport_send_to ::
  "bool \<Rightarrow> bytes \<Rightarrow> 'a \<Rightarrow> 'a sctp_stream \<Rightarrow> ('a socket_error, nat) outcome \<times> 'a sctp_stream" where
  "transport_send_to accepted data target st =
     (if target \<noteq> sm_remote_addr st then (Err (NotConnectedTo (sm_remote_addr st) target), st)
      else send_message accepted data st)"

section \<open>SctpConnectionStream\<close>

text \<open>With DTLS, \<open>io\<close> is what the DTLS library answers: the bytes read, or the number of bytes
  written.\<close>

definition connection_read ::
  "'c sctp_connection_stream \<Rightarrow> nat \<Rightarrow> received \<Rightarrow> bytes option \<Rightarrow> ('a socket_error, bytes) outcome" where
  "connection_read k n i io =
     (case k of PlainStream \<Rightarrow> stream_read n i | DtlsStream config \<Rightarrow> ok_or DtlsReadFailed io)"

definition connection_write_all ::
  "'c sctp_connection_stream \<Rightarrow> bool \<Rightarrow> nat option \<Rightarrow> bytes \<Rightarrow> 'a sctp_stream
   \<Rightarrow> ('a socket_error, unit) outcome \<times> 'a sctp_stream" where
  "connection_write_all k accepted io data st =
     (case k of
        PlainStream \<Rightarrow> stream_write_all accepted data st
      | DtlsStream config \<Rightarrow>
          (case io of
             None \<Rightarrow> (Err DtlsWriteFailed, st)
           | Some w \<Rightarrow>
               if w \<noteq> length data then (Err (IncompleteWrite w (length data)), st) else (Ok (), st)))"

definition connection_shutdown :: "'c sctp_connection_stream \<Rightarrow> bool \<Rightarrow> ('a socket_error, unit) outcome" where
  "connection_shutdown k ended =
     (case k of
        PlainStream \<Rightarrow> stream_shutdown ended
      | DtlsStream config \<Rightarrow> if ended then Ok () else Err DtlsShutdownFailed)"

section \<open>Properties\<close>

lemma resolve_address_Ok:
  "resolve_address lib x = Ok a \<longleftrightarrow> (\<exists>as. sy_resolve lib x = Some (a # as))"
  by (auto simp: resolve_address_def split: option.splits list.splits)

lemma ok_or_Ok [simp]: "ok_or e x = Ok v \<longleftrightarrow> x = Some v"
  by (auto simp: ok_or_def split: option.split)

lemma map_ok_Ok [simp]: "map_ok f r = Ok v \<longleftrightarrow> (\<exists>u. r = Ok u \<and> v = f u)"
  by (cases r) auto

lemma resolve_addresses_Ok:
  "resolve_addresses lib xs = Ok rs \<longleftrightarrow> list_all2 (\<lambda>x r. \<exists>as. sy_resolve lib x = Some (r # as)) xs rs"
  by (induction xs arbitrary: rs) (auto simp: resolve_address_Ok list_all2_Cons1)

lemma resolve_addresses_not_Panic: "resolve_addresses lib xs \<noteq> Panic"
proof (induction xs)
  case (Cons x xs)
  have "resolve_address lib x \<noteq> Panic"
    by (simp add: resolve_address_def split: option.split list.split)
  with Cons show ?case
    by (cases "resolve_address lib x") auto
qed simp

text \<open>The model of the handlers reads through the same function.\<close>

lemma sctp_read_is_connection_read:
  "sctp_read n (case k of PlainStream \<Rightarrow> Plain_Read i | DtlsStream config \<Rightarrow> Dtls_Read io) =
     (case connection_read k n i io of Ok data \<Rightarrow> Some data | _ \<Rightarrow> None)"
  by (simp add: sctp_read_def connection_read_def stream_read_def ok_or_def
      split: sctp_connection_stream.split received.split option.split)

text \<open>
  A multihomed peer is dialled with one address per configured name, the first the resolver gives, in the
  configured order, on a socket of the family of the first; one name that does not resolve is enough to
  dial none of the others. What is then sent carries the configured stream and payload protocol ids.
\<close>

theorem sctp_dials_all_or_none:
  "(sctp_connect lib sid ppid names = Ok st \<longrightarrow>
      (\<exists>rs socket assoc. names \<noteq> [] \<and> list_all2 (\<lambda>x r. \<exists>as. sy_resolve lib x = Some (r # as)) names rs
         \<and> (if sy_is_ipv6 lib (hd rs) then sy_new_v6 lib else sy_new_v4 lib) = Some socket
         \<and> sy_connectx lib socket rs = Some (sm_inner st, assoc)
         \<and> sm_stream_id st = sid \<and> sm_ppid st = ppid))
   \<and> (x \<in> set names \<and> (\<forall>a as. sy_resolve lib x \<noteq> Some (a # as)) \<longrightarrow>
        (\<exists>e. sctp_connect lib sid ppid names = Err e) \<and> (\<exists>e. sctp_bind lib sid ppid names = Err e))"
proof -
  have "\<exists>rs socket assoc. names \<noteq> [] \<and> list_all2 (\<lambda>x r. \<exists>as. sy_resolve lib x = Some (r # as)) names rs
         \<and> (if sy_is_ipv6 lib (hd rs) then sy_new_v6 lib else sy_new_v4 lib) = Some socket
         \<and> sy_connectx lib socket rs = Some (sm_inner st, assoc) \<and> sm_stream_id st = sid \<and> sm_ppid st = ppid"
    if "sctp_connect lib sid ppid names = Ok st"
  proof -
    from that obtain rs socket assoc where *: "names \<noteq> []" "resolve_addresses lib names = Ok rs"
        "create_socket lib (hd rs) = Ok socket" "sy_connectx lib socket rs = Some (sm_inner st, assoc)"
      and ids: "sm_stream_id st = sid" "sm_ppid st = ppid"
      by (auto simp: sctp_connect_def split: if_splits)
    from *(3) have "(if sy_is_ipv6 lib (hd rs) then sy_new_v6 lib else sy_new_v4 lib) = Some socket"
      by (auto simp: create_socket_def split: if_splits option.splits)
    moreover have "list_all2 (\<lambda>x r. \<exists>as. sy_resolve lib x = Some (r # as)) names rs"
      using *(2) by (simp add: resolve_addresses_Ok)
    ultimately show ?thesis
      using *(1,4) ids by (intro exI [of _ rs] exI [of _ socket] exI [of _ assoc] conjI)
  qed
  moreover have "\<exists>e. resolve_addresses lib names = Err e"
    if "x \<in> set names" "\<forall>a as. sy_resolve lib x \<noteq> Some (a # as)"
  proof (cases "resolve_addresses lib names")
    case (Ok rs)
    then have "list_all2 (\<lambda>x r. \<exists>as. sy_resolve lib x = Some (r # as)) names rs"
      by (simp add: resolve_addresses_Ok)
    then obtain r as where "sy_resolve lib x = Some (r # as)"
      using \<open>x \<in> set names\<close> by (auto simp: in_set_conv_nth list_all2_conv_all_nth)
    with that show ?thesis
      by simp
  qed (auto simp: resolve_addresses_not_Panic)
  ultimately show ?thesis
    by (intro conjI impI) (auto simp: sctp_connect_def sctp_bind_def)
qed

text \<open>A write that succeeds handed the whole message over, in one piece and under the ids of the stream;
  one that fails handed over nothing of a plain stream.\<close>

theorem sctp_write_whole:
  "connection_write_all k accepted io data st = (x, st') \<Longrightarrow>
   (x = Ok () \<longrightarrow> (k = PlainStream \<longrightarrow> (\<exists>i. sm_sent st' = sm_sent st @ [(data, i)] \<and> si_sid i = sm_stream_id st
                                            \<and> si_ppid i = sm_ppid st))
                 \<and> (k \<noteq> PlainStream \<longrightarrow> io = Some (length data)))
   \<and> (x \<noteq> Ok () \<longrightarrow> st' = st) \<and> x \<noteq> Panic"
  by (cases k) (auto simp: connection_write_all_def stream_write_all_def send_message_def split: if_splits option.splits)

text \<open>The adapter sends to the peer of the association only. An accepted association gives the address of
  the peer as its own.\<close>

theorem transport_addresses:
  "transport_send_to accepted data target st = (Ok n, st') \<Longrightarrow> target = sm_remote_addr st \<and> n = length data"
  "sctp_stream_accept sl (Some (inner, addr)) = Ok (st, a) \<Longrightarrow>
     sm_local_addr st = addr \<and> sm_remote_addr st = addr \<and> a = addr
     \<and> sm_stream_id st = sn_stream_id sl \<and> sm_ppid st = sn_ppid sl"
  by (auto simp: transport_send_to_def send_message_def sctp_stream_accept_def split: if_splits)

end
