(* ===== verification/Alarm.thy ===== *)
theory Alarm
  imports Peer_Link
begin

text \<open>
  Alarms (\<open>alarm.rs\<close>): the alarm of a lost peer, the store that keeps the active alarms in memory
  and in an SQLite database, and the sender the connections call.

  The database is its two tables: the active alarms by their primary key, and the history. Whether
  the k-th statement succeeds is the oracle \<open>ok\<close>. A point in time is opaque; its RFC 3339 text
  form is the pair of parameters \<open>fmt\<close> and \<open>parse\<close>.
\<close>

datatype alarm_severity = Critical | Major | Minor | Warning | Clear

fun severity_as_str :: "alarm_severity \<Rightarrow> string" where
  "severity_as_str Critical = ''CRITICAL''"
| "severity_as_str Major = ''MAJOR''"
| "severity_as_str Minor = ''MINOR''"
| "severity_as_str Warning = ''WARNING''"
| "severity_as_str Clear = ''CLEAR''"

definition severity_from_row :: "string \<Rightarrow> alarm_severity" where
  "severity_from_row s =
     (if s = ''CRITICAL'' then Critical else if s = ''MAJOR'' then Major else if s = ''MINOR'' then Minor
      else if s = ''WARNING'' then Warning else Major)"

record 't alarm =
  al_id :: string
  al_severity :: alarm_severity
  al_peer_address :: string
  al_host :: string
  al_realm :: string
  al_description :: string
  al_raised_at :: 't

definition alarm_id :: "string \<Rightarrow> string \<Rightarrow> string" where
  "alarm_id host address = ''DIAMETER_PEER_'' @ host @ ''@'' @ address"

definition alarm_new :: "string \<Rightarrow> string \<Rightarrow> string \<Rightarrow> alarm_severity \<Rightarrow> string \<Rightarrow> 't \<Rightarrow> 't alarm" where
  "alarm_new address host realm severity description now =
     \<lparr>al_id = alarm_id host address, al_severity = severity, al_peer_address = address, al_host = host,
      al_realm = realm, al_description = description, al_raised_at = now\<rparr>"

section \<open>The store\<close>

record alarm_row =
  rw_severity :: string
  rw_peer_address :: string
  rw_host :: string
  rw_realm :: string
  rw_description :: string
  rw_time :: string

record 't alarm_store =
  st_active :: "string \<rightharpoonup> 't alarm"
  db_active :: "string \<rightharpoonup> alarm_row"
  db_history :: "(string \<times> alarm_row) list"
  db_statements :: nat

definition row_of_alarm :: "('t \<Rightarrow> string) \<Rightarrow> 't alarm \<Rightarrow> alarm_row" where
  "row_of_alarm fmt a =
     \<lparr>rw_severity = severity_as_str (al_severity a), rw_peer_address = al_peer_address a, rw_host = al_host a,
      rw_realm = al_realm a, rw_description = al_description a, rw_time = fmt (al_raised_at a)\<rparr>"

definition alarm_of_row :: "(string \<Rightarrow> 't option) \<Rightarrow> 't \<Rightarrow> string \<Rightarrow> alarm_row \<Rightarrow> 't alarm" where
  "alarm_of_row parse now i r =
     \<lparr>al_id = i, al_severity = severity_from_row (rw_severity r), al_peer_address = rw_peer_address r,
      al_host = rw_host r, al_realm = rw_realm r, al_description = rw_description r,
      al_raised_at = (case parse (rw_time r) of Some t \<Rightarrow> t | None \<Rightarrow> now)\<rparr>"

text \<open>\<open>AlarmStore::new\<close> on a database with these tables.\<close>

definition store_open :: "(string \<Rightarrow> 't option) \<Rightarrow> 't \<Rightarrow> (string \<rightharpoonup> alarm_row) \<Rightarrow> (string \<times> alarm_row) list \<Rightarrow> nat
    \<Rightarrow> 't alarm_store" where
  "store_open parse now rows history k =
     \<lparr>st_active = (\<lambda>i. map_option (alarm_of_row parse now i) (rows i)), db_active = rows, db_history = history,
      db_statements = k\<rparr>"

definition db_execute :: "(nat \<Rightarrow> bool) \<Rightarrow> ('t alarm_store \<Rightarrow> 't alarm_store) \<Rightarrow> 't alarm_store \<Rightarrow> 't alarm_store" where
  "db_execute ok f st =
     (let st1 = st\<lparr>db_statements := db_statements st + 1\<rparr> in if ok (db_statements st) then f st1 else st1)"

text \<open>\<open>raise\<close> in its two critical sections: the statements under the lock of the database, then
  the update under the lock of the map.\<close>

definition raise_db :: "(nat \<Rightarrow> bool) \<Rightarrow> ('t \<Rightarrow> string) \<Rightarrow> 't alarm \<Rightarrow> 't alarm_store \<Rightarrow> 't alarm_store" where
  "raise_db ok fmt a st =
     db_execute ok (\<lambda>x. x\<lparr>db_history := db_history x @ [(al_id a, row_of_alarm fmt a)]\<rparr>)
       (db_execute ok (\<lambda>x. x\<lparr>db_active := (db_active x)(al_id a \<mapsto> row_of_alarm fmt a)\<rparr>) st)"

definition raise_memory :: "'t alarm \<Rightarrow> 't alarm_store \<Rightarrow> 't alarm_store" where
  "raise_memory a st = st\<lparr>st_active := (st_active st)(al_id a \<mapsto> a)\<rparr>"

definition store_raise :: "(nat \<Rightarrow> bool) \<Rightarrow> ('t \<Rightarrow> string) \<Rightarrow> 't alarm \<Rightarrow> 't alarm_store \<Rightarrow> 't alarm_store" where
  "store_raise ok fmt a st = raise_memory a (raise_db ok fmt a st)"

text \<open>\<open>clear\<close> holds the lock of the database to its end.\<close>

definition store_clear :: "(nat \<Rightarrow> bool) \<Rightarrow> ('t \<Rightarrow> string) \<Rightarrow> 't \<Rightarrow> string \<Rightarrow> 't alarm_store \<Rightarrow> 't alarm_store" where
  "store_clear ok fmt now i st =
     (let st1 = db_execute ok (\<lambda>x. x\<lparr>db_history := db_history x @
                  [(i, \<lparr>rw_severity = ''CLEAR'', rw_peer_address = [], rw_host = [], rw_realm = [],
                        rw_description = ''Alarm cleared'', rw_time = fmt now\<rparr>)]\<rparr>)
                (db_execute ok (\<lambda>x. x\<lparr>db_active := (db_active x)(i := None)\<rparr>) st) in
      st1\<lparr>st_active := (st_active st1)(i := None)\<rparr>)"

definition get_alarm :: "'t alarm_store \<Rightarrow> string \<Rightarrow> 't alarm option" where
  "get_alarm st i = st_active st i"

definition is_active :: "'t alarm_store \<Rightarrow> string \<Rightarrow> bool" where
  "is_active st i \<longleftrightarrow> st_active st i \<noteq> None"

section \<open>The sender\<close>

record 't alarm_sender =
  sn_url :: "string option"
  sn_store :: "'t alarm_store"
  sn_posts :: "(string \<times> 't alarm) list"

definition send_alarm :: "'t alarm \<Rightarrow> 't alarm_sender \<Rightarrow> 't alarm_sender" where
  "send_alarm a sn =
     (case sn_url sn of None \<Rightarrow> sn | Some url \<Rightarrow> sn\<lparr>sn_posts := sn_posts sn @ [(url, a)]\<rparr>)"

definition raise_alarm ::
  "(nat \<Rightarrow> bool) \<Rightarrow> ('t \<Rightarrow> string) \<Rightarrow> 't \<Rightarrow> string \<Rightarrow> string \<Rightarrow> string \<Rightarrow> string \<Rightarrow> 't alarm_sender \<Rightarrow> 't alarm_sender" where
  "raise_alarm ok fmt now address host realm description sn =
     (let a = alarm_new address host realm Major description now in
      send_alarm a (sn\<lparr>sn_store := store_raise ok fmt a (sn_store sn)\<rparr>))"

text \<open>The two readings of the clock, for the report and for the history, are taken as one.\<close>

definition clear_alarm ::
  "(nat \<Rightarrow> bool) \<Rightarrow> ('t \<Rightarrow> string) \<Rightarrow> 't \<Rightarrow> string \<Rightarrow> string \<Rightarrow> string \<Rightarrow> 't alarm_sender \<Rightarrow> 't alarm_sender" where
  "clear_alarm ok fmt now address host realm sn =
     (let a = alarm_new address host realm Clear ''Connection to diameter peer established'' now in
      send_alarm a (sn\<lparr>sn_store := store_clear ok fmt now (al_id a) (sn_store sn)\<rparr>))"

text \<open>The calls of the connections, one after the other, the k-th at its own time.\<close>

fun handle_calls ::
  "(nat \<Rightarrow> bool) \<Rightarrow> ('t \<Rightarrow> string) \<Rightarrow> ('t \<times> alarm_call) list \<Rightarrow> 't alarm_sender \<Rightarrow> 't alarm_sender" where
  "handle_calls ok fmt [] sn = sn"
| "handle_calls ok fmt ((now, RaiseAlarm addr host realm msg) # cs) sn =
     handle_calls ok fmt cs (raise_alarm ok fmt now addr host realm msg sn)"
| "handle_calls ok fmt ((now, ClearAlarm addr host realm) # cs) sn =
     handle_calls ok fmt cs (clear_alarm ok fmt now addr host realm sn)"

section \<open>What the store is for\<close>

text \<open>The abstract store: the last call for an id decides.\<close>

fun call_effect :: "(string \<rightharpoonup> 't alarm) \<Rightarrow> 't \<times> alarm_call \<Rightarrow> (string \<rightharpoonup> 't alarm)" where
  "call_effect f (now, RaiseAlarm addr host realm msg) =
     f(alarm_id host addr \<mapsto> alarm_new addr host realm Major msg now)"
| "call_effect f (now, ClearAlarm addr host realm) = f(alarm_id host addr := None)"

definition in_step :: "('t \<Rightarrow> string) \<Rightarrow> 't alarm_store \<Rightarrow> bool" where
  "in_step fmt st \<longleftrightarrow>
     (\<forall>i. st_active st i = None \<longrightarrow> db_active st i = None)
     \<and> (\<forall>i a. st_active st i = Some a \<longrightarrow>
          al_id a = i \<and> al_severity a \<noteq> Clear \<and> db_active st i = Some (row_of_alarm fmt a))"

lemma severity_row: "v \<noteq> Clear \<Longrightarrow> severity_from_row (severity_as_str v) = v"
  by (cases v) (simp_all add: severity_from_row_def)

lemma alarm_row_roundtrip:
  assumes "\<And>t. parse (fmt t) = Some t" "al_severity a \<noteq> Clear" "al_id a = i"
  shows "alarm_of_row parse now i (row_of_alarm fmt a) = a"
  using assms by (auto simp: alarm_of_row_def row_of_alarm_def severity_row)

lemma store_fields:
  assumes "\<And>k. ok k"
  shows "st_active (store_raise ok fmt a st) = (st_active st)(al_id a \<mapsto> a)"
    "db_active (store_raise ok fmt a st) = (db_active st)(al_id a \<mapsto> row_of_alarm fmt a)"
    "st_active (store_clear ok fmt now i st) = (st_active st)(i := None)"
    "db_active (store_clear ok fmt now i st) = (db_active st)(i := None)"
  using assms
  by (simp_all add: store_raise_def raise_memory_def raise_db_def store_clear_def db_execute_def Let_def)

lemma in_step_kept:
  assumes "\<And>k. ok k" "in_step fmt st"
  shows "al_severity a \<noteq> Clear \<Longrightarrow> in_step fmt (store_raise ok fmt a st)" "in_step fmt (store_clear ok fmt now i st)"
  using assms(2) unfolding in_step_def store_fields [OF assms(1)] by auto

lemma send_alarm_store [simp]: "sn_store (send_alarm a sn) = sn_store sn" "sn_url (send_alarm a sn) = sn_url sn"
  by (simp_all add: send_alarm_def split: option.split)

lemma handle_calls_store:
  assumes "\<And>k. ok k" "in_step fmt (sn_store sn)"
  shows "st_active (sn_store (handle_calls ok fmt cs sn)) = foldl call_effect (st_active (sn_store sn)) cs
    \<and> in_step fmt (sn_store (handle_calls ok fmt cs sn))"
  using assms(2)
proof (induction cs arbitrary: sn)
  case (Cons c cs)
  obtain now call where c: "c = (now, call)" by fastforce
  show ?case
  proof (cases call)
    case (RaiseAlarm addr host realm msg)
    let ?sn = "raise_alarm ok fmt now addr host realm msg sn"
    have "in_step fmt (sn_store ?sn)"
      using in_step_kept(1) [OF assms(1) Cons.prems] by (simp add: raise_alarm_def Let_def alarm_new_def)
    moreover have "st_active (sn_store ?sn) = call_effect (st_active (sn_store sn)) (now, call)"
      using RaiseAlarm by (simp add: raise_alarm_def Let_def store_fields [OF assms(1)] alarm_new_def)
    ultimately show ?thesis using Cons.IH [of ?sn] c RaiseAlarm by (simp del: fun_upd_apply)
  next
    case (ClearAlarm addr host realm)
    let ?sn = "clear_alarm ok fmt now addr host realm sn"
    have "in_step fmt (sn_store ?sn)"
      using in_step_kept(2) [OF assms(1) Cons.prems] by (simp add: clear_alarm_def Let_def)
    moreover have "st_active (sn_store ?sn) = call_effect (st_active (sn_store sn)) (now, call)"
      using ClearAlarm by (simp add: clear_alarm_def Let_def store_fields [OF assms(1)] alarm_new_def)
    ultimately show ?thesis using Cons.IH [of ?sn] c ClearAlarm by (simp del: fun_upd_apply)
  qed
qed simp

section \<open>Properties\<close>

text \<open>C13. The alarm store is a map from peers to their last report and survives a restart: after any
  sequence of alarm calls, with a database that works, the active alarms are those whose last call
  raised them, and opening the database again gives the same active alarms.\<close>

theorem alarms_survive_restart:
  assumes "\<And>k. ok k" "\<And>t. parse (fmt t) = Some t"
    and "sn_store sn = store_open parse t0 Map.empty history k0"
    and "st = sn_store (handle_calls ok fmt cs sn)"
  shows "st_active st = foldl call_effect Map.empty cs
    \<and> st_active (store_open parse now (db_active st) (db_history st) k) = st_active st"
proof -
  have "in_step fmt (sn_store sn)" by (simp add: in_step_def assms(3) store_open_def)
  then have r: "st_active st = foldl call_effect (st_active (sn_store sn)) cs" "in_step fmt st"
    using handle_calls_store [of ok fmt sn cs] assms(1,4) by simp_all
  have "map_option (alarm_of_row parse now i) (db_active st i) = st_active st i" for i
    using r(2) alarm_row_roundtrip [of parse fmt, OF assms(2)] by (cases "st_active st i") (auto simp: in_step_def)
  then show ?thesis using r(1) assms(3) by (simp add: store_open_def)
qed

theorem alarms_survive_restart_witness:
  "let sn = \<lparr>sn_url = None, sn_store = store_open Some ''0'' Map.empty [] 0, sn_posts = []\<rparr>;
       st = sn_store (handle_calls (\<lambda>_. True) id [(''1'', RaiseAlarm ''10.0.0.1:5'' ''h'' ''x'' ''lost'')] sn) in
   st_active st = Map.empty(alarm_id ''h'' ''10.0.0.1:5'' \<mapsto> alarm_new ''10.0.0.1:5'' ''h'' ''x'' Major ''lost'' ''1'')
   \<and> st_active (store_open Some ''9'' (db_active st) (db_history st) 0) = st_active st"
  using alarms_survive_restart [of "\<lambda>_. True" Some id "\<lparr>sn_url = None, sn_store = store_open Some ''0'' Map.empty [] 0, sn_posts = []\<rparr>"
      "''0''" "[]" 0 _ "[(''1'', RaiseAlarm ''10.0.0.1:5'' ''h'' ''x'' ''lost'')]"]
  by (simp add: Let_def)

text \<open>Raising and clearing an alarm at the same time can separate memory and database: \<open>raise\<close>
  lets go of the database before it updates the map, so when the peer comes back in between, the
  alarm stays active in memory although the database has it cleared. One after the other, in either
  order, they agree.\<close>

theorem alarm_race:
  assumes "\<And>k. ok k" "in_step fmt st" "al_severity a \<noteq> Clear"
  shows "(let race = raise_memory a (store_clear ok fmt now (al_id a) (raise_db ok fmt a st)) in
       is_active race (al_id a) \<and> db_active race (al_id a) = None)
    \<and> in_step fmt (store_clear ok fmt now (al_id a) (store_raise ok fmt a st))
    \<and> in_step fmt (store_raise ok fmt a (store_clear ok fmt now (al_id a) st))"
proof (intro conjI)
  show "let race = raise_memory a (store_clear ok fmt now (al_id a) (raise_db ok fmt a st)) in
       is_active race (al_id a) \<and> db_active race (al_id a) = None"
    by (simp add: Let_def is_active_def raise_memory_def store_fields [OF assms(1)])
qed (simp_all add: in_step_kept assms)

theorem alarm_race_witness:
  "let a = alarm_new ''10.0.0.1:5'' ''h'' ''x'' Major ''lost'' ''1'';
       race = raise_memory a (store_clear (\<lambda>_. True) id ''2'' (al_id a)
                (raise_db (\<lambda>_. True) id a (store_open Some ''0'' Map.empty [] 0))) in
   is_active race (al_id a) \<and> db_active race (al_id a) = None"
  using alarm_race [of "\<lambda>_. True" id "store_open Some ''0'' Map.empty [] 0"
      "alarm_new ''10.0.0.1:5'' ''h'' ''x'' Major ''lost'' ''1''" "''2''"]
  by (simp add: in_step_def store_open_def alarm_new_def Let_def)

text \<open>The alarm of a peer that connects to this node is never cleared when the peer comes back over
  another port: the id of the alarm contains the address of the connection, so the clearance of the
  new connection is for another alarm.\<close>

theorem returning_peer_alarm_stays:
  assumes "\<And>k. ok k" "addr \<noteq> addr'" "in_step fmt (sn_store sn)"
  shows "is_active (sn_store (handle_calls ok fmt
      [(t1, ClearAlarm addr host realm), (t2, RaiseAlarm addr host realm msg), (t3, ClearAlarm addr' host realm)] sn))
      (alarm_id host addr)"
  using handle_calls_store [of ok fmt sn "[(t1, ClearAlarm addr host realm), (t2, RaiseAlarm addr host realm msg),
      (t3, ClearAlarm addr' host realm)]"] assms
  by (simp add: is_active_def alarm_id_def del: handle_calls.simps)

theorem returning_peer_alarm_stays_witness:
  "is_active (sn_store (handle_calls (\<lambda>_. True) id
      [(''1'', ClearAlarm ''10.0.0.1:5'' ''h'' ''x''), (''2'', RaiseAlarm ''10.0.0.1:5'' ''h'' ''x'' ''lost''),
       (''3'', ClearAlarm ''10.0.0.1:6'' ''h'' ''x'')]
      \<lparr>sn_url = None, sn_store = store_open Some ''0'' Map.empty [] 0, sn_posts = []\<rparr>))
      (alarm_id ''h'' ''10.0.0.1:5'')"
  by (rule returning_peer_alarm_stays) (simp_all add: in_step_def store_open_def)

end
