(* ===== verification/Container_Close.thy ===== *)
theory Container_Close
  imports Connections
begin

text \<open>
  Closing a connection and asking whether it is closed, for the containers of
  \<open>roundrobin_connection.rs\<close>, \<open>failover_connect.rs\<close> and
  \<open>random_connection.rs\<close>: both walk the container's iterator, which \<open>unwrap\<close>
  takes out of \<open>iter()\<close>. The leaves that are closed are the result; an error of one of them is
  logged and the walk goes on. Also the connection that does nothing
  (\<open>dummy_connection.rs\<close>).
\<close>

lemma citer_next_decreases:
  assumes "citer_next rnd st it = (Some h, it', st')"
  shows "conns_size (worklist it') < conns_size (worklist it)"
  using wl_next_size [OF citer_next_refines [OF assms]] .

function close_iter :: "(nat \<Rightarrow> nat \<Rightarrow> nat) \<Rightarrow> lb_state \<Rightarrow> citer \<Rightarrow> nat list \<times> lb_state" where
  "close_iter rnd st it =
     (case citer_next rnd st it of
        (None, _, st') \<Rightarrow> ([], st')
      | (Some h, it', st') \<Rightarrow> (case close_iter rnd st' it' of (hs, st'') \<Rightarrow> (h # hs, st'')))"
  by auto
termination
  by (relation "measure (\<lambda>(rnd, st, it). conns_size (worklist it))") (auto dest: citer_next_decreases [OF sym])

function closed_iter :: "(nat \<Rightarrow> bool) \<Rightarrow> (nat \<Rightarrow> nat \<Rightarrow> nat) \<Rightarrow> lb_state \<Rightarrow> citer \<Rightarrow> bool \<times> lb_state" where
  "closed_iter is_shut rnd st it =
     (case citer_next rnd st it of
        (None, _, st') \<Rightarrow> (True, st')
      | (Some h, it', st') \<Rightarrow> if is_shut h then closed_iter is_shut rnd st' it' else (False, st'))"
  by auto
termination
  by (relation "measure (\<lambda>(is_shut, rnd, st, it). conns_size (worklist it))") (auto dest: citer_next_decreases [OF sym])

declare close_iter.simps [simp del] closed_iter.simps [simp del]

definition conn_close :: "(nat \<Rightarrow> nat \<Rightarrow> nat) \<Rightarrow> lb_state \<Rightarrow> conn \<Rightarrow> (string, nat list) outcome \<times> lb_state" where
  "conn_close rnd st c =
     (case c of
        Leaf h \<Rightarrow> (Ok [h], st)
      | Node i k cs \<Rightarrow>
          (case conn_iter rnd st c of
             (None, st') \<Rightarrow> (Panic, st')
           | (Some it, st') \<Rightarrow> (case close_iter rnd st' it of (hs, st'') \<Rightarrow> (Ok hs, st''))))"

definition conn_is_closed ::
  "(nat \<Rightarrow> bool) \<Rightarrow> (nat \<Rightarrow> nat \<Rightarrow> nat) \<Rightarrow> lb_state \<Rightarrow> conn \<Rightarrow> (string, bool) outcome \<times> lb_state" where
  "conn_is_closed is_shut rnd st c =
     (case c of
        Leaf h \<Rightarrow> (Ok (is_shut h), st)
      | Node i k cs \<Rightarrow>
          (case conn_iter rnd st c of
             (None, st') \<Rightarrow> (Panic, st')
           | (Some it, st') \<Rightarrow> (case closed_iter is_shut rnd st' it of (b, st'') \<Rightarrow> (Ok b, st''))))"

section \<open>The dummy connection\<close>

record dummy_connection =
  dm_id :: string
  dm_peer_host :: string
  dm_peer_realm :: string

definition new_dummy_connection :: "string \<Rightarrow> string \<Rightarrow> string \<Rightarrow> dummy_connection" where
  "new_dummy_connection i host realm = \<lparr>dm_id = i, dm_peer_host = host, dm_peer_realm = realm\<rparr>"

definition dm_send :: "dummy_connection \<Rightarrow> 'c \<Rightarrow> (string, unit) outcome" where
  "dm_send d cmd = Ok ()"

definition dm_close :: "dummy_connection \<Rightarrow> (string, unit) outcome" where
  "dm_close d = Ok ()"

definition dm_is_closed :: "dummy_connection \<Rightarrow> bool" where
  "dm_is_closed d = False"

definition dm_get_connections :: "dummy_connection \<Rightarrow> conn list \<Rightarrow> conn list" where
  "dm_get_connections d cs = cs"

section \<open>The walk\<close>

lemma close_iter_leaves: "mset (fst (close_iter rnd st it)) = conns_leaves (worklist it)"
proof (induction rnd st it rule: close_iter.induct)
  case (1 rnd st it)
  obtain r it' st' where n: "citer_next rnd st it = (r, it', st')" by (metis surj_pair)
  note l = wl_next_leaves [OF citer_next_refines [OF n]]
  show ?case
  proof (cases r)
    case None
    then show ?thesis using n l by (simp add: close_iter.simps [of rnd st it])
  next
    case (Some h)
    then show ?thesis
      using n l 1 [OF n [symmetric] Some refl] by (auto simp: close_iter.simps [of rnd st it] split: prod.split)
  qed
qed

lemma closed_iter_leaves: "fst (closed_iter is_shut rnd st it) \<longleftrightarrow> (\<forall>h\<in>#conns_leaves (worklist it). is_shut h)"
proof (induction is_shut rnd st it rule: closed_iter.induct)
  case (1 is_shut rnd st it)
  obtain r it' st' where n: "citer_next rnd st it = (r, it', st')" by (metis surj_pair)
  note l = wl_next_leaves [OF citer_next_refines [OF n]]
  show ?case
  proof (cases r)
    case None
    then show ?thesis using n l by (simp add: closed_iter.simps [of is_shut rnd st it])
  next
    case (Some h)
    then show ?thesis
      using n l 1 [OF n [symmetric] Some refl] by (simp add: closed_iter.simps [of is_shut rnd st it])
  qed
qed

lemma conn_iter_leaves:
  assumes "conn_iter rnd st (Node i k cs) = (Some it, st')"
  shows "conns_leaves (worklist it) = conn_leaves (Node i k cs)"
  using lazily.order_leaves [of "Node i k cs" rnd st] assms by (simp add: opened_def)

lemma conn_iter_None: "fst (conn_iter rnd st (Node i k cs)) = None \<longleftrightarrow> cs = []"
  by (cases k) (simp_all add: fetch_add_index_def draw_def)

section \<open>Properties\<close>

text \<open>Closing a connection closes every leaf below it, each as often as it occurs there, and it
  counts as closed exactly when all of them are; both panic on a container that is empty, and only
  then.\<close>

theorem close_reaches_every_leaf:
  "if is_container c \<and> children c = [] then
     fst (conn_close rnd st c) = Panic \<and> fst (conn_is_closed is_shut rnd st c) = Panic
   else (\<exists>hs. fst (conn_close rnd st c) = Ok hs \<and> mset hs = conn_leaves c)
     \<and> fst (conn_is_closed is_shut rnd st c) = Ok ({#h \<in># conn_leaves c. \<not> is_shut h#} = {#})"
proof (cases c)
  case (Node i k cs)
  obtain io st' where n: "conn_iter rnd st (Node i k cs) = (io, st')" by fastforce
  show ?thesis
  proof (cases io)
    case None
    then show ?thesis
      using n Node conn_iter_None [of rnd st i k cs] by (simp add: conn_close_def conn_is_closed_def)
  next
    case (Some it)
    then show ?thesis
      using n Node conn_iter_None [of rnd st i k cs] conn_iter_leaves [of rnd st i k cs it st']
        close_iter_leaves [of rnd st' it] closed_iter_leaves [of is_shut rnd st' it]
      by (auto simp: conn_close_def conn_is_closed_def split: prod.split)
  qed
qed (simp_all add: conn_close_def conn_is_closed_def)

end
