(* ===== verification/File_Monitor.thy ===== *)
theory File_Monitor
  imports Prelude "HOL-Library.AList"
begin

text \<open>
  The monitor of modification times (\<open>filechange_monitor.rs\<close>). \<open>mtime\<close> is the modification
  time \<open>std::fs\<close> reports for a path at the moment of the call, \<open>None\<close> when there is none.
  The map of the last known times is an association list, in the order it is iterated. The system clock
  can go back, in which case \<open>elapsed\<close> is an error and it is time to check.
\<close>

record file_change_monitor =
  fm_last_changes :: "(string \<times> nat) list"
  fm_check_interval :: nat
  fm_last_check_time :: nat

definition new_file_change_monitor :: "(string \<Rightarrow> nat option) \<Rightarrow> nat \<Rightarrow> string list \<Rightarrow> nat \<Rightarrow> file_change_monitor" where
  "new_file_change_monitor mtime now paths interval =
     \<lparr>fm_last_changes =
        foldl (\<lambda>m path. case mtime path of Some t \<Rightarrow> AList.update path t m | None \<Rightarrow> m) [] paths,
      fm_check_interval = interval, fm_last_check_time = now\<rparr>"

definition is_time_to_check :: "file_change_monitor \<Rightarrow> nat \<Rightarrow> bool" where
  "is_time_to_check m now \<longleftrightarrow> now < fm_last_check_time m \<or> fm_check_interval m \<le> now - fm_last_check_time m"

fun check_files :: "(string \<Rightarrow> nat option) \<Rightarrow> string list \<Rightarrow> (string \<times> nat) list \<Rightarrow> string list \<times> (string \<times> nat) list" where
  "check_files mtime [] m = ([], m)"
| "check_files mtime (path # paths) m =
     (case mtime path of
        None \<Rightarrow> check_files mtime paths m
      | Some t \<Rightarrow>
          if map_of m path = Some t then check_files mtime paths m
          else (case check_files mtime paths (AList.update path t m) of (changed, m') \<Rightarrow> (path # changed, m')))"

definition update_file_change :: "(string \<Rightarrow> nat option) \<Rightarrow> nat \<Rightarrow> file_change_monitor \<Rightarrow> string list \<times> file_change_monitor" where
  "update_file_change mtime now m =
     (if \<not> is_time_to_check m now then ([], m)
      else
        (case check_files mtime (map fst (fm_last_changes m)) (fm_last_changes m) of
           (changed, m') \<Rightarrow> (changed, m\<lparr>fm_last_changes := m', fm_last_check_time := now\<rparr>)))"

lemma check_files_changed:
  "distinct paths \<Longrightarrow>
   fst (check_files mtime paths m) = filter (\<lambda>p. mtime p \<noteq> None \<and> mtime p \<noteq> map_of m p) paths"
proof (induction paths arbitrary: m)
  case (Cons path paths)
  have "filter (\<lambda>p. mtime p \<noteq> None \<and> mtime p \<noteq> map_of (AList.update path t m) p) paths
      = filter (\<lambda>p. mtime p \<noteq> None \<and> mtime p \<noteq> map_of m p) paths" for t
    using Cons.prems by (intro filter_cong) (auto simp: update_conv')
  then show ?case
    using Cons.IH [of m] Cons.IH [of "AList.update path _ m"] Cons.prems
    by (simp add: case_prod_beta split: option.split)
qed simp

lemma check_files_map:
  "map_of (snd (check_files mtime paths m)) p = (if p \<in> set paths \<and> mtime p \<noteq> None then mtime p else map_of m p)"
proof (induction paths arbitrary: m)
  case (Cons path paths)
  show ?case
    by (cases "mtime path") (auto simp: Cons.IH case_prod_beta update_conv')
qed simp

section \<open>Properties\<close>

text \<open>A change is reported once: when it is time to check, exactly the known files whose modification
  time differs from the last one seen are reported, in the order of the map, and the times seen are
  the ones the next check compares with.\<close>

theorem change_reported_once:
  assumes "distinct (map fst (fm_last_changes m))" "is_time_to_check m now"
    and "update_file_change mtime now m = (changed, m')"
  shows "changed = filter (\<lambda>p. mtime p \<noteq> None \<and> mtime p \<noteq> map_of (fm_last_changes m) p) (map fst (fm_last_changes m))
    \<and> map_of (fm_last_changes m') =
        (\<lambda>p. if p \<in> fst ` set (fm_last_changes m) \<and> mtime p \<noteq> None then mtime p else map_of (fm_last_changes m) p)"
  using assms check_files_changed [OF assms(1), of mtime "fm_last_changes m"]
    check_files_map [of mtime "map fst (fm_last_changes m)" "fm_last_changes m"]
  by (fastforce simp: update_file_change_def case_prod_beta)

end
