(* ===== verification/Listeners.thy ===== *)
theory Listeners
  imports Sctp_Socket
begin

text \<open>
  The accept loops: \<open>TcpDiameterServer::start\<close> and \<open>SctpDiameterServer::start\<close>. With a TLS
  acceptor the TCP server spawns a task per accepted socket, which does the handshake and the capabilities
  exchange; without one, and over SCTP in any case, the accept loop itself waits for the handshake and
  for the first command of the peer before it accepts the next one.

  A socket is a number; \<open>exchange\<close> is what becomes of it once its first input is there. Sockets that
  arrive wait in the backlog of the operating system until the loop accepts them. A panic ends the task it
  happens in.
\<close>

text \<open>The loop a server runs: over TCP with the acceptor it has built, or over SCTP.\<close>

datatype 'c accept_loop = Tcp_Loop "'c option" | Sctp_Loop

datatype 'i listen_event = Arrives nat | Accept | AcceptError | NotSecured nat | FirstInput nat 'i

record listener =
  ln_node :: node
  ln_backlog :: "nat list"
  ln_alive :: bool
  ln_inline :: "nat option"
  ln_tasks :: "nat list"
  ln_conns :: "server_conn list"

type_synonym 'i exchange = "nat \<Rightarrow> 'i \<Rightarrow> node \<Rightarrow> (link_error, server_conn) outcome \<times> node"

definition new_listener :: "node \<Rightarrow> listener" where
  "new_listener nd = \<lparr>ln_node = nd, ln_backlog = [], ln_alive = True, ln_inline = None, ln_tasks = [], ln_conns = []\<rparr>"

text \<open>The socket leaves the task that holds it.\<close>

definition release :: "nat \<Rightarrow> listener \<Rightarrow> listener" where
  "release k ln =
     (if ln_inline ln = Some k then ln\<lparr>ln_inline := None\<rparr> else ln\<lparr>ln_tasks := remove1 k (ln_tasks ln)\<rparr>)"

definition holds :: "listener \<Rightarrow> nat \<Rightarrow> bool" where
  "holds ln k \<longleftrightarrow> ln_inline ln = Some k \<and> ln_alive ln \<or> k \<in> set (ln_tasks ln)"

definition finish_exchange :: "'i exchange \<Rightarrow> nat \<Rightarrow> 'i \<Rightarrow> listener \<Rightarrow> listener" where
  "finish_exchange exchange k i ln =
     (case exchange k i (ln_node ln) of
        (Ok c, nd) \<Rightarrow> release k (ln\<lparr>ln_node := nd, ln_conns := ln_conns ln @ [c]\<rparr>)
      | (Err e, nd) \<Rightarrow> release k (ln\<lparr>ln_node := nd\<rparr>)
      | (Panic, nd) \<Rightarrow>
          (if ln_inline ln = Some k then ln\<lparr>ln_node := nd, ln_alive := False\<rparr>
           else release k (ln\<lparr>ln_node := nd\<rparr>)))"

text \<open>An accepted socket is handed to a task of its own, or handled by the loop.\<close>

fun accept_socket :: "'c accept_loop \<Rightarrow> nat \<Rightarrow> listener \<Rightarrow> listener" where
  "accept_socket (Tcp_Loop (Some acceptor)) k ln = ln\<lparr>ln_tasks := ln_tasks ln @ [k]\<rparr>"
| "accept_socket (Tcp_Loop None) k ln = ln\<lparr>ln_inline := Some k\<rparr>"
| "accept_socket Sctp_Loop k ln = ln\<lparr>ln_inline := Some k\<rparr>"

fun listen_step :: "'c accept_loop \<Rightarrow> 'i exchange \<Rightarrow> 'i listen_event \<Rightarrow> listener \<Rightarrow> listener option" where
  "listen_step loop exchange (Arrives k) ln =
     (if ln_alive ln then Some (ln\<lparr>ln_backlog := ln_backlog ln @ [k]\<rparr>) else None)"
| "listen_step loop exchange Accept ln =
     (if \<not> ln_alive ln \<or> ln_inline ln \<noteq> None then None
      else (case ln_backlog ln of
              [] \<Rightarrow> None
            | k # ks \<Rightarrow> Some (accept_socket loop k (ln\<lparr>ln_backlog := ks\<rparr>))))"
| "listen_step loop exchange AcceptError ln =
     (if \<not> ln_alive ln \<or> ln_inline ln \<noteq> None then None else Some ln)"
| "listen_step loop exchange (NotSecured k) ln = (if holds ln k then Some (release k ln) else None)"
| "listen_step loop exchange (FirstInput k i) ln =
     (if holds ln k then Some (finish_exchange exchange k i ln) else None)"

text \<open>The two servers. The address of a socket and the handle of its connection are parameters.\<close>

definition server_link_on :: "node \<Rightarrow> server_link" where
  "server_link_on nd =
     \<lparr>lk_node = nd, lk_end_to_end = 0, lk_writer = None, lk_ops = 0, lk_alarms = [], sl_closed = False,
      sl_phase = Spawned\<rparr>"

definition tcp_exchange :: "(nat \<Rightarrow> site) \<Rightarrow> diameter_server \<Rightarrow> (nat \<Rightarrow> string) \<Rightarrow> bytes exchange" where
  "tcp_exchange s sv addr k stream nd =
     (case accept_connection (s k) sv (addr k) k stream (server_link_on nd) of
        (x, l) \<Rightarrow> (map_ok fst x, lk_node l))"

definition sctp_exchange :: "(nat \<Rightarrow> site) \<Rightarrow> diameter_server \<Rightarrow> (nat \<Rightarrow> string) \<Rightarrow> sctp_input exchange" where
  "sctp_exchange s sv addr k i nd =
     (case sctp_accept (s k) sv (addr k) k i (server_link_on nd) of (x, l) \<Rightarrow> (x, lk_node l))"

datatype listen_failure = NotBound | TlsNotBuilt tls_error

text \<open>The start of the servers: the loop, or why there is none.\<close>

definition tcp_server_start ::
  "files \<Rightarrow> ('c, 'k) tls_library \<Rightarrow> bool \<Rightarrow> string \<Rightarrow> string \<Rightarrow> string \<Rightarrow> node
   \<Rightarrow> (listen_failure, ('c, 'k) server_config accept_loop \<times> listener) outcome" where
  "tcp_server_start fs lib bound cert_file key_file ca_cert_file nd =
     (if \<not> bound then Err NotBound
      else
        (case build_tls_acceptor fs lib cert_file key_file ca_cert_file of
           Err e \<Rightarrow> Err (TlsNotBuilt e)
         | Panic \<Rightarrow> Panic
         | Ok acceptor \<Rightarrow> Ok (Tcp_Loop acceptor, new_listener nd)))"

definition sctp_server_start ::
  "'a sctp_library \<Rightarrow> u16 \<Rightarrow> u32 \<Rightarrow> string list \<Rightarrow> node \<Rightarrow> ('a socket_error, 'c accept_loop \<times> listener) outcome" where
  "sctp_server_start lib stream_id ppid addresses nd =
     map_ok (\<lambda>_. (Sctp_Loop, new_listener nd)) (sctp_bind lib stream_id ppid addresses)"

section \<open>Reachable states\<close>

inductive listens :: "'c accept_loop \<Rightarrow> 'i exchange \<Rightarrow> listener \<Rightarrow> listener \<Rightarrow> bool" for loop exchange where
  refl: "listens loop exchange ln ln"
| step: "listens loop exchange ln ln1 \<Longrightarrow> listen_step loop exchange ev ln1 = Some ln2 \<Longrightarrow>
    listens loop exchange ln ln2"

inductive listens_without :: "nat \<Rightarrow> 'c accept_loop \<Rightarrow> 'i exchange \<Rightarrow> listener \<Rightarrow> listener \<Rightarrow> bool"
  for k loop exchange where
  refl: "listens_without k loop exchange ln ln"
| step: "listens_without k loop exchange ln ln1 \<Longrightarrow> listen_step loop exchange ev ln1 = Some ln2 \<Longrightarrow>
    ev \<noteq> NotSecured k \<Longrightarrow> (\<And>i. ev \<noteq> FirstInput k i) \<Longrightarrow> listens_without k loop exchange ln ln2"

definition spawns :: "'c accept_loop \<Rightarrow> bool" where
  "spawns loop \<longleftrightarrow> (\<exists>acceptor. loop = Tcp_Loop (Some acceptor))"

lemma accept_socket_spawns:
  "accept_socket loop k ln = (if spawns loop then ln\<lparr>ln_tasks := ln_tasks ln @ [k]\<rparr> else ln\<lparr>ln_inline := Some k\<rparr>)"
  by (cases "(loop, k, ln)" rule: accept_socket.cases) (simp_all add: spawns_def)

lemma spawns_simps [simp]: "spawns (Tcp_Loop (Some a))" "\<not> spawns (Tcp_Loop None)" "\<not> spawns Sctp_Loop"
  by (simp_all add: spawns_def)

definition listener_ok :: "'c accept_loop \<Rightarrow> listener \<Rightarrow> bool" where
  "listener_ok loop ln \<longleftrightarrow>
     (if spawns loop then ln_alive ln \<and> ln_inline ln = None else ln_tasks ln = [])"

lemma release_simps [simp]:
  "ln_node (release k ln) = ln_node ln" "ln_alive (release k ln) = ln_alive ln" "ln_conns (release k ln) = ln_conns ln"
  by (simp_all add: release_def)

lemma listener_ok_release: "listener_ok loop ln \<Longrightarrow> listener_ok loop (release k ln)"
  by (auto simp: listener_ok_def release_def)

lemma listener_ok_step:
  assumes "listener_ok loop ln" "listen_step loop exchange ev ln = Some ln'"
  shows "listener_ok loop ln'"
proof -
  have "listener_ok loop (ln\<lparr>ln_node := nd, ln_conns := cs\<rparr>)" "listener_ok loop (ln\<lparr>ln_node := nd\<rparr>)" for nd cs
    using assms(1) by (simp_all add: listener_ok_def)
  then show ?thesis
    using assms listener_ok_release
    by (cases ev)
      (auto simp: finish_exchange_def holds_def accept_socket_spawns split: if_splits prod.splits outcome.splits list.splits,
       auto simp: listener_ok_def)
qed

lemma listener_ok_reaches: "listens loop exchange ln ln' \<Longrightarrow> listener_ok loop ln \<Longrightarrow> listener_ok loop ln'"
  by (induction rule: listens.induct) (auto intro: listener_ok_step)

lemma new_listener_ok: "listener_ok loop (new_listener nd)"
  by (simp add: listener_ok_def new_listener_def)

text \<open>A loop that waits for one socket, or that has ended, does nothing else.\<close>

lemma inline_waits:
  assumes "listens_without k loop exchange ln ln'" "ln_inline ln = Some k" "ln_tasks ln = []"
  shows "\<exists>later. ln' = ln\<lparr>ln_backlog := ln_backlog ln @ later\<rparr>"
  using assms
proof (induction rule: listens_without.induct)
  case (refl ln)
  then show ?case by (intro exI [of _ "[]"]) simp
next
  case (step ln ln1 ev ln2)
  then obtain later where "ln1 = ln\<lparr>ln_backlog := ln_backlog ln @ later\<rparr>" by blast
  then show ?case using step by (cases ev) (auto simp: holds_def split: if_splits)
qed

lemma dead_stays:
  assumes "listens loop exchange ln ln'" "\<not> ln_alive ln" "ln_tasks ln = []"
  shows "ln' = ln"
  using assms
proof (induction rule: listens.induct)
  case (step ln ln1 ev ln2)
  then show ?case by (cases ev) (auto simp: holds_def split: if_splits)
qed simp

lemma accepts_first:
  "listens loop exchange (new_listener nd) (accept_socket loop k (new_listener nd))"
proof -
  let ?ln = "(new_listener nd)\<lparr>ln_backlog := [k]\<rparr>"
  have "listens loop exchange (new_listener nd) ?ln"
    by (rule listens.step [OF listens.refl, of _ _ "Arrives k"]) (simp add: new_listener_def)
  then show ?thesis
    by (rule listens.step [of _ _ _ _ Accept]) (simp add: new_listener_def)
qed

lemma accept_inline:
  "listen_step loop exchange Accept ln = Some ln1 \<Longrightarrow> \<not> spawns loop \<Longrightarrow>
   ln_inline ln1 = Some (hd (ln_backlog ln)) \<and> ln_tasks ln1 = ln_tasks ln \<and> ln_node ln1 = ln_node ln
   \<and> ln_conns ln1 = ln_conns ln"
  by (auto simp: accept_socket_spawns split: if_splits list.splits)

text \<open>Which loop a started server runs.\<close>

lemma tcp_server_start_spawns:
  assumes "tcp_server_start fs lib bound cert_file key_file ca_cert_file nd = Ok (loop, ln)"
  shows "ln = new_listener nd" "spawns loop \<longleftrightarrow> \<not> no_file fs cert_file \<and> \<not> no_file fs key_file"
  using assms
  by (auto simp: tcp_server_start_def build_tls_acceptor_def spawns_def split: if_splits outcome.splits)

lemma sctp_server_start_inline:
  assumes "sctp_server_start sl stream_id ppid addresses nd = Ok (loop, ln)"
  shows "ln = new_listener nd" "\<not> spawns loop"
  using assms by (auto simp: sctp_server_start_def)

lemma bad_length_panics:
  assumes "4 \<le> length stream" "unat (length_field stream) < 4"
  shows "\<exists>nd'. tcp_exchange s sv addr k stream nd = (Panic, nd')"
  using assms
  by (auto simp: tcp_exchange_def accept_connection_def exchange_capabilities_def read_command_def Let_def)

section \<open>Properties\<close>

text \<open>C23. A silent peer keeps everybody else out: a TCP server started without a certificate or a key
  file, and an SCTP server with or without DTLS, that accepts a socket serves nobody else until that
  socket's first input is there or its handshake has failed, there being no timeout: whatever happens
  until then, no connection is made or registered and the sockets that arrive stay in the backlog.
  A TCP server started with both files accepts the next socket in every reachable state and takes the
  first input of every socket it has accepted.\<close>

theorem silent_peer_blocks_listener:
  assumes "tcp_server_start fs lib True cert_file key_file ca_cert_file nd = Ok (loop, ln0)
        \<and> with_tls = (\<not> no_file fs cert_file \<and> \<not> no_file fs key_file)
      \<or> sctp_server_start sl stream_id ppid addresses nd = Ok (loop, ln0) \<and> \<not> with_tls"
    and "listens loop exchange ln0 ln"
  shows "if with_tls then
      (\<forall>j ks. ln_backlog ln = j # ks \<longrightarrow>
         (\<exists>ln'. listen_step loop exchange Accept ln = Some ln' \<and> j \<in> set (ln_tasks ln')))
      \<and> (\<forall>k i. k \<in> set (ln_tasks ln) \<longrightarrow>
         (\<exists>ln'. listen_step loop exchange (FirstInput k i) ln = Some ln'
            \<and> ln_node ln' = snd (exchange k i (ln_node ln))))
    else
      (\<forall>j ln1 ln2. ln_backlog ln = j # ln_backlog ln1 \<longrightarrow> listen_step loop exchange Accept ln = Some ln1 \<longrightarrow>
         listens_without j loop exchange ln1 ln2 \<longrightarrow>
            ln_node ln2 = ln_node ln \<and> ln_conns ln2 = ln_conns ln
            \<and> prefix (ln_backlog ln1) (ln_backlog ln2) \<and> listen_step loop exchange Accept ln2 = None)"
proof -
  have s: "ln0 = new_listener nd" "spawns loop \<longleftrightarrow> with_tls"
    using assms(1) tcp_server_start_spawns [of fs lib True cert_file key_file ca_cert_file nd loop ln0]
      sctp_server_start_inline [of sl stream_id ppid addresses nd loop ln0] by auto
  have ok: "listener_ok loop ln" using listener_ok_reaches [OF assms(2)] new_listener_ok s(1) by blast
  show ?thesis
  proof (cases with_tls)
    case True
    then have "ln_alive ln" "ln_inline ln = None" using ok s(2) by (simp_all add: listener_ok_def)
    moreover have "ln_node (finish_exchange exchange k i ln) = snd (exchange k i (ln_node ln))" for k i
      by (simp add: finish_exchange_def split: prod.split outcome.split)
    ultimately show ?thesis using True s(2) by (simp add: accept_socket_spawns holds_def)
  next
    case False
    have "ln_node ln2 = ln_node ln \<and> ln_conns ln2 = ln_conns ln
        \<and> prefix (ln_backlog ln1) (ln_backlog ln2) \<and> listen_step loop exchange Accept ln2 = None"
      if a: "ln_backlog ln = j # ln_backlog ln1" "listen_step loop exchange Accept ln = Some ln1"
        and w: "listens_without j loop exchange ln1 ln2" for j ln1 ln2
    proof -
      have ln1: "ln_inline ln1 = Some j" "ln_tasks ln1 = []" "ln_node ln1 = ln_node ln" "ln_conns ln1 = ln_conns ln"
        using accept_inline [OF a(2)] a(1) False s(2) ok by (simp_all add: listener_ok_def)
      obtain later where "ln2 = ln1\<lparr>ln_backlog := ln_backlog ln1 @ later\<rparr>" using inline_waits [OF w ln1(1,2)] by blast
      then show ?thesis using ln1 by simp
    qed
    then show ?thesis unfolding if_not_P [OF False] by blast
  qed
qed

theorem silent_peer_blocks_listener_witness:
  "\<forall>p nd. let exchange = tcp_exchange (\<lambda>_. example_site p) example_server (\<lambda>_. ''10.0.0.1:40000'') in
     \<exists>loop ln. tcp_server_start example_files example_tls True '''' '''' '''' nd = Ok (loop, new_listener nd)
       \<and> listens loop exchange (new_listener nd) ln \<and> ln_backlog ln = [2]
       \<and> listen_step loop exchange Accept ln = None"
proof (intro allI)
  fix p nd
  let ?x = "tcp_exchange (\<lambda>_. example_site p) example_server (\<lambda>_. ''10.0.0.1:40000'')"
  let ?ln = "(new_listener nd)\<lparr>ln_backlog := [1, 2]\<rparr>" and ?ln1 = "(new_listener nd)\<lparr>ln_backlog := [2], ln_inline := Some 1\<rparr>"
  let ?l = "Tcp_Loop None :: (string, string) server_config accept_loop"
  have n: "no_file example_files ''''" by code_simp
  then have st: "tcp_server_start example_files example_tls True '''' '''' '''' nd = Ok (?l, new_listener nd)"
    by (simp add: tcp_server_start_def build_tls_acceptor_def)
  have "listens ?l ?x (new_listener nd) ((new_listener nd)\<lparr>ln_backlog := [1]\<rparr>)"
    by (rule listens.step [OF listens.refl, of _ _ "Arrives 1"]) (simp add: new_listener_def)
  then have l: "listens ?l ?x (new_listener nd) ?ln"
    by (rule listens.step [of _ _ _ _ "Arrives 2"]) (simp add: new_listener_def)
  have a: "listen_step ?l ?x Accept ?ln = Some ?ln1" by (simp add: new_listener_def)
  have "listen_step ?l ?x Accept ?ln1 = None"
    using silent_peer_blocks_listener [of example_files example_tls "''''" "''''" "''''" nd ?l "new_listener nd" False
        undefined undefined undefined undefined ?x ?ln] st n l a listens_without.refl [of 1 ?l ?x ?ln1] by auto
  moreover have "listens ?l ?x (new_listener nd) ?ln1" using listens.step [OF l a] .
  ultimately show "let exchange = ?x in
     \<exists>loop ln. tcp_server_start example_files example_tls True '''' '''' '''' nd = Ok (loop, new_listener nd)
       \<and> listens loop exchange (new_listener nd) ln \<and> ln_backlog ln = [2]
       \<and> listen_step loop exchange Accept ln = None"
    using st unfolding Let_def by (intro exI [of _ ?l] exI [of _ ?ln1] conjI) simp_all
qed

text \<open>C24. Four bytes end a TCP listener without TLS: when the first four bytes of an accepted socket
  announce a message shorter than four bytes, reading them panics in the accept loop, which accepts
  nothing ever after. With TLS only the task of that socket ends.\<close>

theorem short_length_ends_listener:
  assumes "4 \<le> length stream" "unat (length_field stream) < 4"
    and "plain = Tcp_Loop None" "with_tls = Tcp_Loop (Some acceptor)"
    and "listens plain (tcp_exchange s sv addr) (new_listener nd) ln" "ln_alive ln" "ln_inline ln = Some k"
    and "listens with_tls (tcp_exchange s sv addr) (new_listener nd) tls" "k \<in> set (ln_tasks tls)"
  shows "(\<exists>ln1. listen_step plain (tcp_exchange s sv addr) (FirstInput k stream) ln = Some ln1
      \<and> (\<forall>ln2. listens plain (tcp_exchange s sv addr) ln1 ln2 \<longrightarrow> ln2 = ln1 \<and>
           listen_step plain (tcp_exchange s sv addr) Accept ln2 = None))
    \<and> (\<exists>tls1. listen_step with_tls (tcp_exchange s sv addr) (FirstInput k stream) tls = Some tls1
      \<and> ln_alive tls1 \<and> ln_conns tls1 = ln_conns tls)"
proof -
  have t: "ln_tasks ln = []" using listener_ok_reaches [OF assms(5) new_listener_ok] assms(3) by (simp add: listener_ok_def)
  obtain nd' where "tcp_exchange s sv addr k stream (ln_node ln) = (Panic, nd')"
    using bad_length_panics [OF assms(1,2)] by blast
  then have st: "listen_step plain (tcp_exchange s sv addr) (FirstInput k stream) ln
      = Some (ln\<lparr>ln_node := nd', ln_alive := False\<rparr>)" (is "_ = Some ?ln1")
    using assms(6,7) by (simp add: holds_def finish_exchange_def)
  have "ln2 = ?ln1" if "listens plain (tcp_exchange s sv addr) ?ln1 ln2" for ln2
    using dead_stays [OF that] t by simp
  then have "\<exists>ln1. listen_step plain (tcp_exchange s sv addr) (FirstInput k stream) ln = Some ln1
      \<and> (\<forall>ln2. listens plain (tcp_exchange s sv addr) ln1 ln2 \<longrightarrow> ln2 = ln1 \<and>
           listen_step plain (tcp_exchange s sv addr) Accept ln2 = None)"
    using st by fastforce
  moreover have "listener_ok with_tls tls" using listener_ok_reaches [OF assms(8) new_listener_ok] .
  moreover obtain nd2 where "tcp_exchange s sv addr k stream (ln_node tls) = (Panic, nd2)"
    using bad_length_panics [OF assms(1,2)] by blast
  ultimately show ?thesis
    using assms(4,9) by (simp add: holds_def finish_exchange_def listener_ok_def)
qed

theorem short_length_ends_listener_witness:
  "\<forall>p nd. let plain = (Tcp_Loop None :: unit accept_loop); exchange = tcp_exchange (\<lambda>_. example_site p) example_server (\<lambda>_. ''10.0.0.1:40000'');
       ln = (new_listener nd)\<lparr>ln_inline := Some 1\<rparr> in
     \<exists>ln1. listen_step plain exchange (FirstInput 1 [1, 0, 0, 0]) ln = Some ln1
       \<and> listen_step plain exchange Accept ln1 = None"
proof (intro allI)
  fix p nd
  let ?x = "tcp_exchange (\<lambda>_. example_site p) example_server (\<lambda>_. ''10.0.0.1:40000'')"
  let ?ln = "(new_listener nd)\<lparr>ln_inline := Some 1\<rparr>" and ?tls = "(new_listener nd)\<lparr>ln_tasks := [1]\<rparr>"
  let ?a = "Tcp_Loop (Some ())" and ?l = "Tcp_Loop None :: unit accept_loop"
  have "listens ?l ?x (new_listener nd) ?ln"
    using accepts_first [of ?l ?x nd 1] by simp
  moreover have "listens ?a ?x (new_listener nd) ?tls"
    using accepts_first [of ?a ?x nd 1] by (simp add: new_listener_def)
  moreover have "unat (length_field [1, 0, 0, 0]) < 4" by code_simp
  ultimately obtain ln1 where "listen_step ?l ?x (FirstInput 1 [1, 0, 0, 0]) ?ln = Some ln1"
    "\<forall>ln2. listens ?l ?x ln1 ln2 \<longrightarrow> ln2 = ln1 \<and> listen_step ?l ?x Accept ln2 = None"
    using short_length_ends_listener [of "[1, 0, 0, 0]" ?l ?a "()" "\<lambda>_. example_site p" example_server "\<lambda>_. ''10.0.0.1:40000''" nd
        ?ln 1 ?tls]
    by (auto simp: new_listener_def)
  then show "let plain = ?l; exchange = ?x; ln = ?ln in
     \<exists>ln1. listen_step plain exchange (FirstInput 1 [1, 0, 0, 0]) ln = Some ln1
       \<and> listen_step plain exchange Accept ln1 = None"
    using listens.refl [of ?l ?x ln1] unfolding Let_def by blast
qed

end
