(* ===== verification/Rest_Listener.thy ===== *)
theory Rest_Listener
  imports Command_Processor Alarm
begin

text \<open>
  The REST side of the bridge (\<open>http_rest_listener.rs\<close>): a Diameter request arrives as JSON, is
  stamped with this node's origin and with fresh identifiers, is entered into the answer manager, and is
  sent through the connection manager; the answer goes back as JSON, in the HTTP response or, when the
  request names a callback URL, in a POST to that URL. The listener also serves the active alarms.

  A reply carries a JSON value where the code serialises one (\<open>serde_json::to_string\<close> of a
  \<open>Value\<close> does not fail), and names the error where the code prints one. The body is parsed by
  \<open>o_parse\<close>. A task that was spawned for a callback is a job of the state.
\<close>

datatype rest_body =
  TextBody string | InvalidMessage string | AnswerBody json | SendErrorBody send_error | RouteErrorBody rest_body

type_synonym rest_reply = "(nat \<times> rest_body, nat \<times> rest_body) outcome"

record rest_listener =
  rl_host :: string
  rl_realm :: string
  rl_command_map :: command_map
  rl_avp_map :: avp_map

record rest_state =
  rs_node :: node
  rs_end_to_end :: id_generator
  rs_requests :: nat
  rs_jobs :: "(string \<times> command) list"
  rs_posts :: "(string \<times> string \<times> rest_body) list"

section \<open>Sending a request\<close>

text \<open>The command is rendered for the log before it is sent, when the logger takes messages of level
  info, and rendering may panic.\<close>

definition rest_send_request :: "outside \<Rightarrow> rest_listener \<Rightarrow> command \<Rightarrow> node \<Rightarrow> rest_reply \<times> node" where
  "rest_send_request out rl cmd nd =
     (if log_info (o_platform out)
         \<and> to_json (o_platform out) cmd (rl_command_map rl) (rl_avp_map rl) = Panic then (Panic, nd)
      else
      let (x, r) = send_request (o_env out) cmd
                     \<lparr>r_mgr = nd_mgr nd, r_now = nd_now nd, r_attempts = nd_attempts nd\<rparr>;
          nd1 = nd\<lparr>nd_mgr := r_mgr r, nd_now := r_now r, nd_attempts := r_attempts r\<rparr> in
      case x of
        Ok answer \<Rightarrow>
          (case to_json (o_platform out) answer (rl_command_map rl) (rl_avp_map rl) of
             Ok j \<Rightarrow> (Ok (200, AnswerBody j), nd1)
           | Err e \<Rightarrow> (Err (500, TextBody e), nd1)
           | Panic \<Rightarrow> (Panic, nd1))
      | Err e \<Rightarrow> (Err (503, SendErrorBody e), nd1)
      | Panic \<Rightarrow> (Panic, nd1))"

text \<open>The member \<open>callback-url\<close> of the request, empty when it is missing or not a string.\<close>

definition callback_url :: "(string \<times> json) list \<Rightarrow> string" where
  "callback_url obj =
     (case Option.bind (obj_get obj ''callback-url'') as_str of Some u \<Rightarrow> u | None \<Rightarrow> '''')"

text \<open>The request as it leaves this node.\<close>

definition stamp_request :: "rest_listener \<Rightarrow> command \<Rightarrow> rest_state \<Rightarrow> command \<times> rest_state" where
  "stamp_request rl cmd st =
     (let cmd1 = set_origin_realm (set_origin_host cmd (rl_host rl)) (rl_realm rl);
          (hbh, ids) = next_id (nd_ids (rs_node st));
          (e2e, ids') = next_id (rs_end_to_end st) in
      (cmd1\<lparr>c_hop_by_hop_id := hbh, c_end_to_end_id := e2e\<rparr>,
       st\<lparr>rs_node := (rs_node st)\<lparr>nd_ids := ids\<rparr>, rs_end_to_end := ids'\<rparr>))"

definition expect_answer :: "rest_listener \<Rightarrow> command \<Rightarrow> node \<Rightarrow> node" where
  "expect_answer rl cmd nd =
     nd\<lparr>nd_answers := prepare_for_answer (nd_answers nd) (nd_now nd) (c_hop_by_hop_id cmd) ''''
                        (rl_host rl) (rl_realm rl)\<rparr>"

definition handle_diameter_request ::
  "outside \<Rightarrow> rest_listener \<Rightarrow> string \<Rightarrow> rest_state \<Rightarrow> rest_reply \<times> rest_state" where
  "handle_diameter_request out rl body st =
     (case o_parse out body of
        None \<Rightarrow> (Err (400, TextBody ''Invalid JSON body''), st)
      | Some v \<Rightarrow>
          let st1 = st\<lparr>rs_requests := rs_requests st + 1\<rparr> in
          case from_json_value (o_platform out) v (rl_command_map rl) (rl_avp_map rl) of
            Panic \<Rightarrow> (Panic, st1)
          | Err e \<Rightarrow> (Err (400, InvalidMessage e), st1)
          | Ok cmd \<Rightarrow>
              if get_destination_host cmd = None \<or> get_destination_realm cmd = None then
                (Err (400, TextBody ''Diameter message must include Destination-Host and Destination-Realm''), st1)
              else
                let (cmd1, st2) = stamp_request rl cmd st1 in
                if \<not> is_request cmd1 then
                  (Err (400, TextBody ''Received Diameter message is not a request''), st2)
                else
                  let st3 = st2\<lparr>rs_node := expect_answer rl cmd1 (rs_node st2)\<rparr> in
                  case as_object v of
                    None \<Rightarrow> (Err (400, TextBody ''JSON body must be an object''), st3)
                  | Some obj \<Rightarrow>
                      if callback_url obj \<noteq> '''' then
                        (Ok (200, TextBody ''Message sent, response will be sent to callback URL''),
                         st3\<lparr>rs_jobs := rs_jobs st3 @ [(callback_url obj, cmd1)]\<rparr>)
                      else
                        let (reply, nd) = rest_send_request out rl cmd1 (rs_node st3) in
                        (reply, st3\<lparr>rs_node := nd\<rparr>))"

section \<open>The callback\<close>

text \<open>The status the callback server returns, \<open>None\<close> when it cannot be reached.\<close>

definition send_message_to_url ::
  "(string \<Rightarrow> string \<Rightarrow> rest_body \<Rightarrow> nat option) \<Rightarrow> string \<Rightarrow> string \<Rightarrow> rest_body \<Rightarrow> rest_state
   \<Rightarrow> (nat option, unit) outcome \<times> rest_state" where
  "send_message_to_url post url content_type msg st =
     (let st1 = st\<lparr>rs_posts := rs_posts st @ [(url, content_type, msg)]\<rparr> in
      case post url content_type msg of
        Some status_code \<Rightarrow> if 200 \<le> status_code \<and> status_code < 400 then (Ok (), st1) else (Err (Some status_code), st1)
      | None \<Rightarrow> (Err None, st1))"

text \<open>The body of the spawned task. A failure of the POST is only logged.\<close>

definition run_callback ::
  "outside \<Rightarrow> (string \<Rightarrow> string \<Rightarrow> rest_body \<Rightarrow> nat option) \<Rightarrow> rest_listener \<Rightarrow> string \<times> command \<Rightarrow> rest_state
   \<Rightarrow> rest_state" where
  "run_callback out post rl job st =
     (let (reply, nd) = rest_send_request out rl (snd job) (rs_node st); st1 = st\<lparr>rs_node := nd\<rparr> in
      case reply of
        Ok (status, msg) \<Rightarrow> snd (send_message_to_url post (fst job) ''application/json'' msg st1)
      | Err (status, msg) \<Rightarrow> snd (send_message_to_url post (fst job) ''text/plain'' (RouteErrorBody msg) st1)
      | Panic \<Rightarrow> st1)"

section \<open>Alarms\<close>

definition handle_get_alarms :: "'t alarm_store option \<Rightarrow> (nat \<times> string, nat \<times> 't alarm set) outcome" where
  "handle_get_alarms store =
     (case store of
        None \<Rightarrow> Err (503, ''Alarm store not configured'')
      | Some st \<Rightarrow> Ok (200, ran (st_active st)))"

definition handle_get_alarm_by_id :: "'t alarm_store option \<Rightarrow> string \<Rightarrow> (nat \<times> string, nat \<times> 't alarm) outcome" where
  "handle_get_alarm_by_id store i =
     (case store of
        None \<Rightarrow> Err (503, ''Alarm store not configured'')
      | Some st \<Rightarrow>
          (case get_alarm st i of
             Some a \<Rightarrow> Ok (200, a)
           | None \<Rightarrow> Err (404, ''Alarm '' @ [CHR 0x27] @ i @ [CHR 0x27] @ '' not found'')))"

section \<open>The stamped request\<close>

lemma stamp_request_header [simp]:
  "c_hop_by_hop_id (fst (stamp_request rl cmd st)) = nd_ids (rs_node st)"
  "c_end_to_end_id (fst (stamp_request rl cmd st)) = rs_end_to_end st"
  "c_code (fst (stamp_request rl cmd st)) = c_code cmd"
  "c_application_id (fst (stamp_request rl cmd st)) = c_application_id cmd"
  "is_request (fst (stamp_request rl cmd st)) = is_request cmd"
  by (simp_all add: stamp_request_def next_id_def Let_def set_origin_host_def set_origin_realm_def is_request_def)

lemma stamp_request_state [simp]:
  "snd (stamp_request rl cmd st) =
     st\<lparr>rs_node := (rs_node st)\<lparr>nd_ids := nd_ids (rs_node st) + 1\<rparr>, rs_end_to_end := rs_end_to_end st + 1\<rparr>"
  by (simp add: stamp_request_def next_id_def Let_def)

lemma get_avp_ids [simp]: "get_avp (c\<lparr>c_hop_by_hop_id := i, c_end_to_end_id := j\<rparr>) k = get_avp c k"
  by (simp add: get_avp_def)

lemma stamp_request_avps:
  assumes "rust_string (rl_host rl)" "rust_string (rl_realm rl)"
  shows "get_origin_host (fst (stamp_request rl cmd st)) = Some (rl_host rl)"
    and "get_origin_realm (fst (stamp_request rl cmd st)) = Some (rl_realm rl)"
    and "get_destination_host (fst (stamp_request rl cmd st)) = get_destination_host cmd"
    and "get_destination_realm (fst (stamp_request rl cmd st)) = get_destination_realm cmd"
  using origin_host.get_set [of "rl_host rl" cmd] origin_realm.get_set [of "rl_realm rl" "set_origin_host cmd (rl_host rl)"] assms
  by (simp_all add: stamp_request_def next_id_def Let_def get_origin_host_def get_origin_realm_def
      get_destination_host_def get_destination_realm_def origin_host.get_avp_other origin_realm.get_avp_other)

text \<open>With a dictionary whose groups are coherent, the log line of an accepted request does not panic.\<close>

lemma stamp_request_renders:
  assumes "groups_coherent am" "from_json_value p v cm am = Ok cmd"
  shows "to_json p (fst (stamp_request rl cmd st)) cm' am \<noteq> Panic"
  using set_origin_renders(2) [OF set_origin_renders(1) [OF from_json_value_renders [OF assms]]]
  by (intro to_json_renders) (simp add: stamp_request_def next_id_def Let_def)

text \<open>A request the listener accepts, and the state in which its send begins.\<close>

definition accepted :: "outside \<Rightarrow> rest_listener \<Rightarrow> string \<Rightarrow> (string \<times> json) list \<Rightarrow> command \<Rightarrow> bool" where
  "accepted out rl body obj cmd \<longleftrightarrow> o_parse out body = Some (JObject obj)
     \<and> from_json_value (o_platform out) (JObject obj) (rl_command_map rl) (rl_avp_map rl) = Ok cmd
     \<and> get_destination_host cmd \<noteq> None \<and> get_destination_realm cmd \<noteq> None \<and> is_request cmd"

definition pending_state :: "rest_listener \<Rightarrow> command \<Rightarrow> rest_state \<Rightarrow> rest_state" where
  "pending_state rl cmd st =
     (let (cmd1, st1) = stamp_request rl cmd (st\<lparr>rs_requests := rs_requests st + 1\<rparr>) in
      st1\<lparr>rs_node := expect_answer rl cmd1 (rs_node st1)\<rparr>)"

lemma stamp_request_counted:
  "stamp_request rl cmd (st\<lparr>rs_requests := n\<rparr>) =
     (fst (stamp_request rl cmd st),
      st\<lparr>rs_requests := n, rs_node := (rs_node st)\<lparr>nd_ids := nd_ids (rs_node st) + 1\<rparr>,
         rs_end_to_end := rs_end_to_end st + 1\<rparr>)"
  by (simp add: stamp_request_def next_id_def Let_def)

lemma handle_accepted:
  assumes "accepted out rl body obj cmd"
  shows "handle_diameter_request out rl body st =
    (let cmd1 = fst (stamp_request rl cmd st); st1 = pending_state rl cmd st in
     if callback_url obj \<noteq> '''' then
       (Ok (200, TextBody ''Message sent, response will be sent to callback URL''),
        st1\<lparr>rs_jobs := rs_jobs st1 @ [(callback_url obj, cmd1)]\<rparr>)
     else
       let (reply, nd) = rest_send_request out rl cmd1 (rs_node st1) in (reply, st1\<lparr>rs_node := nd\<rparr>))"
  using assms by (auto simp: handle_diameter_request_def accepted_def pending_state_def Let_def stamp_request_counted)

lemma rest_send_request_simps:
  assumes "rest_send_request out rl cmd nd = (reply, nd')"
  shows "nd_answers nd' = nd_answers nd" "nd_mapper nd' = nd_mapper nd" "nd_sent nd' = nd_sent nd" "nd_ids nd' = nd_ids nd"
    "nd_handler nd' = nd_handler nd"
  using assms by (auto simp: rest_send_request_def Let_def split: prod.splits outcome.splits if_splits)

text \<open>What a reply of \<open>send_request\<close> is, and how long it took.\<close>

definition reply_for :: "outside \<Rightarrow> rest_listener \<Rightarrow> command \<Rightarrow> node \<Rightarrow> node \<Rightarrow> rest_reply \<Rightarrow> bool" where
  "reply_for out rl cmd nd nd' reply \<longleftrightarrow>
     (case reply of
        Ok (status, b) \<Rightarrow> status = 200 \<and> (\<exists>k answer j. b = AnswerBody j
          \<and> nd_attempts nd \<le> k \<and> k < nd_attempts nd'
          \<and> wait_answer (e_wait_begins (o_env out) k) (e_wait_ends (o_env out) k) (c_hop_by_hop_id cmd) = Some (Some answer)
          \<and> final_answer (nd_mgr nd) answer
          \<and> to_json (o_platform out) answer (rl_command_map rl) (rl_avp_map rl) = Ok j)
      | Err (status, b) \<Rightarrow> status = 503
      | Panic \<Rightarrow> True)"

lemma map_ok_eq_Err: "map_ok f r = Err e \<longleftrightarrow> r = Err e"
  by (cases r) auto

lemma to_json_not_Err: "to_json p c cm am \<noteq> Err e"
proof -
  have "named_avps p am as \<noteq> Err e'" for as e'
    by (induction as arbitrary: e') (auto split: outcome.split simp: map_ok_eq_Err)
  then show ?thesis by (simp add: to_json_def map_ok_eq_Err)
qed

lemma rest_send_request_reply:
  assumes "rest_send_request out rl cmd nd = (reply, nd')"
  shows "reply_for out rl cmd nd nd' reply" "nd_now nd \<le> nd_now nd'" "nd_now nd' \<le> nd_now nd + cm_total_timeout (nd_mgr nd)"
proof -
  let ?r = "\<lparr>r_mgr = nd_mgr nd, r_now = nd_now nd, r_attempts = nd_attempts nd\<rparr>"
  obtain x r where s: "send_request (o_env out) cmd ?r = (x, r)" by fastforce
  note l = send_request_result [of "o_env out" cmd ?r, unfolded s]
  let ?log = "log_info (o_platform out) \<and> to_json (o_platform out) cmd (rl_command_map rl) (rl_avp_map rl) = Panic"
  have "nd_now nd \<le> nd_now nd' \<and> nd_now nd' \<le> nd_now nd + cm_total_timeout (nd_mgr nd) \<and> reply_for out rl cmd nd nd' reply"
  proof (cases ?log)
    case True
    then show ?thesis using assms by (auto simp: rest_send_request_def reply_for_def)
  next
    case False
    then have r: "(case x of
        Ok answer \<Rightarrow>
          (case to_json (o_platform out) answer (rl_command_map rl) (rl_avp_map rl) of
             Ok j \<Rightarrow> (Ok (200, AnswerBody j), nd\<lparr>nd_mgr := r_mgr r, nd_now := r_now r, nd_attempts := r_attempts r\<rparr>)
           | Err e \<Rightarrow> (Err (500, TextBody e), nd\<lparr>nd_mgr := r_mgr r, nd_now := r_now r, nd_attempts := r_attempts r\<rparr>)
           | Panic \<Rightarrow> (Panic, nd\<lparr>nd_mgr := r_mgr r, nd_now := r_now r, nd_attempts := r_attempts r\<rparr>))
      | Err e \<Rightarrow> (Err (503, SendErrorBody e), nd\<lparr>nd_mgr := r_mgr r, nd_now := r_now r, nd_attempts := r_attempts r\<rparr>)
      | Panic \<Rightarrow> (Panic, nd\<lparr>nd_mgr := r_mgr r, nd_now := r_now r, nd_attempts := r_attempts r\<rparr>)) = (reply, nd')"
      using assms s unfolding rest_send_request_def by (simp only: if_False Let_def prod.case)
    then have t: "nd_now nd' = r_now r" "nd_attempts nd' = r_attempts r" by (auto split: outcome.splits)
    moreover have "reply_for out rl cmd nd nd' reply"
    proof (cases x)
      case (Ok answer)
      then show ?thesis
        using l r t by (auto simp: loop_result_def reply_for_def received_def to_json_not_Err split: outcome.splits)
    qed (use r in \<open>auto simp: reply_for_def\<close>)
    ultimately show ?thesis using l by (auto simp: loop_result_def advances_def)
  qed
  then show "reply_for out rl cmd nd nd' reply" "nd_now nd \<le> nd_now nd'"
    "nd_now nd' \<le> nd_now nd + cm_total_timeout (nd_mgr nd)" by auto
qed

section \<open>The way of the answer\<close>

text \<open>An entry of the answer manager stays in its place while other requests are prepared.\<close>

lemma prepare_keeps_entry:
  assumes "am_map s i = Some h" "h < length (am_infos s)" "k \<noteq> i" "now \<le> ai_timeout (am_infos s ! h)"
  shows "am_map (prepare_for_answer s now k c ho r) i = Some h"
    and "h < length (am_infos (prepare_for_answer s now k c ho r))"
    and "am_infos (prepare_for_answer s now k c ho r) ! h = am_infos s ! h"
  using assms
  by (simp_all add: prepare_for_answer_def am_clean_expired_entries_def retain_def Let_def nth_append)

lemma prepare_all_keeps_entry:
  assumes "am_map (nd_answers nd) i = Some h" "h < length (am_infos (nd_answers nd))"
    and "i \<notin> set (take_ids (length qs) (nd_ids nd))"
    and "\<forall>(cx, t, q)\<in>set qs. t \<le> ai_timeout (am_infos (nd_answers nd) ! h)"
  shows "am_map (nd_answers (prepare_all qs nd)) i = Some h
    \<and> h < length (am_infos (nd_answers (prepare_all qs nd)))
    \<and> am_infos (nd_answers (prepare_all qs nd)) ! h = am_infos (nd_answers nd) ! h"
  using assms
proof (induction qs nd rule: prepare_all.induct)
  case (2 cx t q qs nd)
  have "nd_ids nd \<noteq> i" "t \<le> ai_timeout (am_infos (nd_answers nd) ! h)" using 2(4,5) by (auto simp: next_id_def)
  note e = prepare_keeps_entry [OF 2(2,3) this, of "cx_connection_id cx" "cx_peer_host cx" "cx_peer_realm cx"]
  show ?case using 2(1) 2(4,5) e by (simp add: next_id_def)
qed simp

text \<open>An answer to a request of this node is handed to the waiting task and goes no further.\<close>

lemma process_answer_local:
  assumes "am_map (nd_answers nd) (c_hop_by_hop_id a) = Some h" "h < length (am_infos (nd_answers nd))"
    and "ai_answer_host (am_infos (nd_answers nd) ! h) = cx_my_host cx"
    and "ai_answer_realm (am_infos (nd_answers nd) ! h) = cx_my_realm cx"
  shows "\<exists>nd'. process_answer out cx a nd = (Ok (), nd') \<and> nd_sent nd' = nd_sent nd
    \<and> fst (poll_wait (nd_answers nd') h) = Some (Some (remove_record_route a (cx_my_host cx)))"
  using assms
  by (auto simp: process_answer_def answer_received_def get_answer_info_def set_answer_def poll_wait_def Let_def
      split: prod.split)

lemma pending_entry:
  fixes rl :: rest_listener and cmd :: command and st :: rest_state
  defines "s \<equiv> nd_answers (rs_node (pending_state rl cmd st))"
  defines "h \<equiv> length (am_infos (nd_answers (rs_node st)))"
  shows "am_map s (nd_ids (rs_node st)) = Some h" "h < length (am_infos s)"
    and "ai_answer_host (am_infos s ! h) = rl_host rl" "ai_answer_realm (am_infos s ! h) = rl_realm rl"
    and "ai_timeout (am_infos s ! h) = nd_now (rs_node st) + 60"
    and "nd_ids (rs_node (pending_state rl cmd st)) = nd_ids (rs_node st) + 1"
    and "nd_mgr (rs_node (pending_state rl cmd st)) = nd_mgr (rs_node st)"
    and "nd_now (rs_node (pending_state rl cmd st)) = nd_now (rs_node st)"
    and "nd_attempts (rs_node (pending_state rl cmd st)) = nd_attempts (rs_node st)"
  unfolding s_def h_def
  by (simp_all add: pending_state_def stamp_request_def next_id_def expect_answer_def prepare_for_answer_def Let_def
      set_origin_host_def set_origin_realm_def)

text \<open>A send whose first connection is up and whose answer is there in time.\<close>

lemma send_request_first_answer:
  assumes "get_connections_for_request env (r_now r) (r_mgr r) q = (Ok (c # cs), m1)"
    and "h \<in># conn_leaves c" "e_up env (r_attempts r) h"
    and "wait_answer (e_wait_begins env (r_attempts r)) (e_wait_ends env (r_attempts r)) (c_hop_by_hop_id q) = Some (Some a)"
    and "0 < cm_total_timeout (r_mgr r)" "e_elapsed env (r_attempts r) \<le> cm_total_timeout (r_mgr r)"
    and "e_elapsed env (r_attempts r) \<le> cm_per_conn_timeout (r_mgr r)"
    and "final_answer (r_mgr r) a" "result_code_or_success a \<noteq> 3006"
  shows "\<exists>r'. send_request env q r = (Ok a, r')"
proof -
  have m: "same_config (r_mgr r) m1" by (rule get_connections_for_request_config [OF assms(1)])
  obtain h' lb where "conn_send (e_up env (r_attempts r)) (e_rnd env) (cm_lb m1) c = (Ok h', lb)"
    using conn_send_delivers(1) [of "e_up env (r_attempts r)" c "e_rnd env" "cm_lb m1"] assms(2,3)
    by (cases "conn_send (e_up env (r_attempts r)) (e_rnd env) (cm_lb m1) c"; cases "fst (conn_send (e_up env (r_attempts r)) (e_rnd env) (cm_lb m1) c)") auto
  then have "send_request_command env (r_attempts r) (cm_lb m1) c q = (Some (Ok a), lb)"
    using assms(4) by (simp add: send_request_command_def)
  then show ?thesis
    using assms m
    by (auto simp: send_request_def send_request_with_timeout_def same_config_def final_answer_def Let_def)
qed

lemma from_json_value_not_Panic: "from_json_value p v cm am \<noteq> Panic"
  by (simp add: from_json_value_def Let_def split: option.split)

lemma from_json_value_object: "from_json_value p v cm am = Ok cmd \<Longrightarrow> \<exists>obj. v = JObject obj"
  by (cases v) (simp_all add: from_json_value_def)

lemma refused:
  assumes "\<not> (\<exists>obj cmd. accepted out rl body obj cmd)"
  shows "\<exists>b st'. handle_diameter_request out rl body st = (Err (400, b), st')
    \<and> rs_node st' = (rs_node st)\<lparr>nd_ids := nd_ids (rs_node st')\<rparr>
    \<and> rs_jobs st' = rs_jobs st \<and> rs_posts st' = rs_posts st"
proof -
  consider (unparsed) "o_parse out body = None"
    | (invalid) v e where "o_parse out body = Some v"
        "from_json_value (o_platform out) v (rl_command_map rl) (rl_avp_map rl) = Err e"
    | (command) obj cmd where "o_parse out body = Some (JObject obj)"
        "from_json_value (o_platform out) (JObject obj) (rl_command_map rl) (rl_avp_map rl) = Ok cmd"
    by (metis from_json_value_not_Panic from_json_value_object option.exhaust outcome.exhaust)
  then show ?thesis
  proof cases
    case command
    then show ?thesis
      using assms by (auto simp: handle_diameter_request_def accepted_def Let_def stamp_request_counted)
  qed (use assms in \<open>simp_all add: handle_diameter_request_def Let_def\<close>)
qed

section \<open>Examples\<close>

definition example_listener :: rest_listener where
  "example_listener =
     \<lparr>rl_host = ''me'', rl_realm = ''x'', 
      rl_command_map = command_map_add \<lparr>code_to_command = Map.empty, name_to_command = Map.empty\<rparr>
        (command_json_new ''Credit-Control-Request'' ''CCR'' 272 4 True True False [''Destination-Host'', ''Destination-Realm'']),
      rl_avp_map = avp_map_add (avp_map_add \<lparr>code_to_avp = Map.empty, name_to_avp = Map.empty\<rparr>
        (avp_json_new ''Destination-Host'' 293 TDiameterIdentity True None))
        (avp_json_new ''Destination-Realm'' 283 TDiameterIdentity True None)\<rparr>"

definition example_object :: "(string \<times> json) list" where
  "example_object =
     [(''Destination-Host'', JString ''h''), (''Destination-Realm'', JString ''x''), (''code'', JNumber (number_of_u32 272))]"

definition example_callback :: "(string \<times> json) list" where
  "example_callback = example_object @ [(''callback-url'', JString ''http://cb'')]"

definition example_command :: command where
  "example_command = command_new 272 0xC0 4 0 0
     [from_utf8_string 293 0x40 None ''h'', from_utf8_string 283 0x40 None ''x'']"

definition example_rest_state :: rest_state where
  "example_rest_state =
     \<lparr>rs_node = example_node, rs_end_to_end = 70, rs_requests = 0, rs_jobs = [], rs_posts = []\<rparr>"

definition example_answer :: command where
  "example_answer = command_new 272 0x40 4 500 70 []"

definition example_pending :: node where
  "example_pending = rs_node (pending_state example_listener example_command example_rest_state)"

text \<open>A peer that takes the request and whose answer is there after one tick.\<close>

definition example_rest_outside :: "platform \<Rightarrow> outside" where
  "example_rest_outside p =
     \<lparr>o_env = example_env\<lparr>e_up := (\<lambda>_ _. True), e_wait_begins := (\<lambda>_. nd_answers example_pending),
                         e_wait_ends := (\<lambda>_. set_answer (nd_answers example_pending) 0 example_answer)\<rparr>,
      o_platform = p, o_http = (\<lambda>_ _ _. HttpFailed),
      o_parse = (\<lambda>b. if b = ''q'' then Some (JObject example_object)
                       else if b = ''cb'' then Some (JObject example_callback) else None)\<rparr>"

lemma example_accepted:
  "accepted (example_rest_outside p) example_listener ''q'' example_object example_command"
  "accepted (example_rest_outside p) example_listener ''cb'' example_callback example_command"
proof -
  have "from_json_value p (JObject example_object) (rl_command_map example_listener) (rl_avp_map example_listener)
      = Ok example_command"
    "from_json_value p (JObject example_callback) (rl_command_map example_listener) (rl_avp_map example_listener)
      = Ok example_command"
    by code_simp+
  moreover have "get_destination_host example_command \<noteq> None" "get_destination_realm example_command \<noteq> None"
    "is_request example_command"
    by code_simp+
  ultimately show "accepted (example_rest_outside p) example_listener ''q'' example_object example_command"
    "accepted (example_rest_outside p) example_listener ''cb'' example_callback example_command"
    by (simp_all add: accepted_def example_rest_outside_def)
qed

lemma example_callback_urls: "callback_url example_object = ''''" "callback_url example_callback = ''http://cb''"
  by code_simp+

section \<open>Properties\<close>

text \<open>C2. A JSON request comes back as the JSON of its answer: an accepted request without a
  callback URL, for which a connection is up, is answered with status 200 and the JSON form of the
  Diameter answer, when a peer's answer with the fresh hop-by-hop id reaches this node in time, is not a
  redirect and has no retryable result code. Up to \<open>2 ^ 32 - 2\<close> other requests may be forwarded in
  between, and the answer itself is not forwarded to any peer. Where the logger takes the request, the
  dictionary names as grouped what its codes give as grouped; the built-in one does.\<close>

theorem rest_request_answered:
  assumes "accepted out rl body obj cmd" "callback_url obj = ''''"
    and "sent = fst (stamp_request rl cmd st)" "nd = rs_node (pending_state rl cmd st)" "k = nd_attempts (rs_node st)"
    and "get_connections_for_request (o_env out) (nd_now (rs_node st)) (nd_mgr (rs_node st)) sent = (Ok (c # cs), m1)"
    and "h \<in># conn_leaves c" "e_up (o_env out) k h"
    and "length qs < 2 ^ 32 - 1" "\<forall>(cx, t, q)\<in>set qs. t \<le> nd_now (rs_node st) + 60"
    and "c_hop_by_hop_id a = nd_ids (rs_node st)" "cx_my_host cx = rl_host rl" "cx_my_realm cx = rl_realm rl"
    and "process_answer out cx a ((prepare_all qs nd)\<lparr>nd_now := now\<rparr>) = (x, nd')"
    and "e_wait_begins (o_env out) k = nd_answers nd" "e_wait_ends (o_env out) k = nd_answers nd'"
    and "0 < cm_total_timeout (nd_mgr (rs_node st))" "e_elapsed (o_env out) k \<le> cm_total_timeout (nd_mgr (rs_node st))"
    and "e_elapsed (o_env out) k \<le> cm_per_conn_timeout (nd_mgr (rs_node st))"
    and "b = remove_record_route a (rl_host rl)" "final_answer (nd_mgr (rs_node st)) b" "result_code_or_success b \<noteq> 3006"
    and "to_json (o_platform out) b (rl_command_map rl) (rl_avp_map rl) = Ok j"
    and "log_info (o_platform out) \<Longrightarrow> groups_coherent (rl_avp_map rl)"
  shows "fst (handle_diameter_request out rl body st) = Ok (200, AnswerBody j) \<and> x = Ok () \<and> nd_sent nd' = nd_sent nd"
proof -
  let ?i = "nd_ids (rs_node st)" and ?nd = "(prepare_all qs nd)\<lparr>nd_now := now\<rparr>"
  obtain e where e: "am_map (nd_answers nd) ?i = Some e" "e < length (am_infos (nd_answers nd))"
    "ai_answer_host (am_infos (nd_answers nd) ! e) = rl_host rl" "ai_answer_realm (am_infos (nd_answers nd) ! e) = rl_realm rl"
    "ai_timeout (am_infos (nd_answers nd) ! e) = nd_now (rs_node st) + 60" "nd_ids nd = ?i + 1"
    using pending_entry(1-6) assms(4) by blast
  have "am_map (nd_answers ?nd) ?i = Some e" "e < length (am_infos (nd_answers ?nd))"
    "am_infos (nd_answers ?nd) ! e = am_infos (nd_answers nd) ! e"
    using prepare_all_keeps_entry [OF e(1,2), of qs] later_ids [OF assms(9), of ?i] assms(10) e(5,6) by auto
  then have p: "x = Ok ()" "nd_sent nd' = nd_sent nd" "fst (poll_wait (nd_answers nd') e) = Some (Some b)"
    using process_answer_local [of ?nd a e cx out] e(3,4) assms(11-14,20) by auto
  have w: "wait_answer (e_wait_begins (o_env out) k) (e_wait_ends (o_env out) k) (c_hop_by_hop_id sent) = Some (Some b)"
    using e(1) p(3) assms(3,15,16) by (simp add: wait_answer_def begin_wait_def get_answer_info_def)
  let ?r = "\<lparr>r_mgr = nd_mgr nd, r_now = nd_now nd, r_attempts = nd_attempts nd\<rparr>"
  have "\<exists>r'. send_request (o_env out) sent ?r = (Ok b, r')"
    using w assms(4-8,17-19,21,22) pending_entry(7-9) [of rl cmd st]
    by (intro send_request_first_answer [of _ _ _ c cs m1 h]) simp_all
  moreover have "\<not> (log_info (o_platform out) \<and> to_json (o_platform out) sent (rl_command_map rl) (rl_avp_map rl) = Panic)"
    using stamp_request_renders assms(1,3,24) by (auto simp: accepted_def)
  ultimately have "fst (rest_send_request out rl sent nd) = Ok (200, AnswerBody j)"
    using assms(23) by (auto simp: rest_send_request_def Let_def)
  then show ?thesis
    using p handle_accepted [OF assms(1), of st] assms(2-4) by (auto simp: Let_def split: prod.split)
qed

theorem rest_request_answered_witness:
  "\<forall>p. \<exists>j. fst (handle_diameter_request (example_rest_outside p) example_listener ''q'' example_rest_state)
      = Ok (200, AnswerBody j)"
proof
  fix p
  let ?out = "example_rest_outside p"
  obtain j where j: "to_json p example_answer (rl_command_map example_listener) (rl_avp_map example_listener) = Ok j"
    using named_avps_no_Panic [of "[]"] by (auto simp: to_json_def example_answer_def command_new_def)
  let ?sent = "fst (stamp_request example_listener example_command example_rest_state)"
  have "fst (get_connections_for_request (o_env ?out) 0 example_manager ?sent) = Ok [Leaf 1]" by code_simp
  then obtain m1 where g: "get_connections_for_request (o_env ?out) 0 example_manager ?sent = (Ok [Leaf 1], m1)"
    by (cases "get_connections_for_request (o_env ?out) 0 example_manager ?sent") auto
  have n: "rs_node example_rest_state = example_node" "nd_attempts example_node = 0" "nd_now example_node = 0"
    "nd_mgr example_node = example_manager" "nd_ids example_node = 500"
    by (simp_all add: example_rest_state_def example_node_def)
  have m: "cm_total_timeout example_manager = 10" "cm_per_conn_timeout example_manager = 5" "cm_retryable example_manager = []"
    by code_simp+
  have a: "remove_record_route example_answer ''me'' = example_answer" "result_code_or_success example_answer = 2001"
    "c_hop_by_hop_id example_answer = 500"
    by code_simp+
  have h: "rl_host example_listener = ''me''" "rl_realm example_listener = ''x''"
    by (simp_all add: example_listener_def)
  have gc: "groups_coherent (rl_avp_map example_listener)"
    by (auto simp: groups_coherent_def example_listener_def avp_map_add_def avp_get_by_name_def avp_json_new_def split: if_splits)
  let ?nd = "(prepare_all [] example_pending)\<lparr>nd_now := 0\<rparr>"
  obtain x nd' where pa: "process_answer ?out example_context example_answer ?nd = (x, nd')" by fastforce
  have e: "nd_answers nd' = set_answer (nd_answers example_pending) 0 example_answer"
    using pa pending_entry(1-4) [where rl = example_listener and cmd = example_command and st = example_rest_state]
    by (auto simp: example_pending_def process_answer_def answer_received_def get_answer_info_def a n h Let_def
        example_context_def example_node_def answer_manager_new_def split: prod.splits)
  show "\<exists>j. fst (handle_diameter_request ?out example_listener ''q'' example_rest_state) = Ok (200, AnswerBody j)"
    using rest_request_answered [OF example_accepted(1) [of p] example_callback_urls(1) refl refl refl, where st = example_rest_state
        and c = "Leaf 1" and cs = "[]" and ?m1.0 = m1 and h = 1 and qs = "[]" and a = example_answer and cx = example_context
        and now = 0 and x = x and nd' = nd' and b = example_answer and j = j]
      g n m a h e pa j gc
    by (simp add: example_rest_outside_def example_context_def example_pending_def example_env_def final_answer_def)
qed

text \<open>C15. What leaves the node and what comes back for an accepted request without a callback
  URL: the request carries this node's origin host and realm, fresh identifiers and the destination
  of the caller; the reply comes within the total timeout, and is 200 with the JSON of a final
  answer received under its hop-by-hop id in one of the attempts, or 503. Nothing is sent as a
  response to a peer.\<close>

theorem rest_request_reply:
  assumes "accepted out rl body obj cmd" "callback_url obj = ''''"
    and "rust_string (rl_host rl)" "rust_string (rl_realm rl)"
    and "handle_diameter_request out rl body st = (reply, st')" "sent = fst (stamp_request rl cmd st)"
  shows "get_origin_host sent = Some (rl_host rl) \<and> get_origin_realm sent = Some (rl_realm rl)
    \<and> get_destination_host sent = get_destination_host cmd \<and> get_destination_realm sent = get_destination_realm cmd
    \<and> c_hop_by_hop_id sent = nd_ids (rs_node st) \<and> nd_ids (rs_node st') = nd_ids (rs_node st) + 1
    \<and> c_end_to_end_id sent = rs_end_to_end st \<and> rs_end_to_end st' = rs_end_to_end st + 1
    \<and> reply_for out rl sent (rs_node st) (rs_node st') reply
    \<and> nd_now (rs_node st') \<le> nd_now (rs_node st) + cm_total_timeout (nd_mgr (rs_node st))
    \<and> nd_sent (rs_node st') = nd_sent (rs_node st)"
proof -
  let ?p = "pending_state rl cmd st"
  obtain nd where r: "rest_send_request out rl sent (rs_node ?p) = (reply, nd)" "st' = ?p\<lparr>rs_node := nd\<rparr>"
    using handle_accepted [OF assms(1), of st] assms(2,5,6) by (auto simp: Let_def split: prod.splits)
  have p: "nd_sent (rs_node ?p) = nd_sent (rs_node st)" "rs_end_to_end ?p = rs_end_to_end st + 1"
    by (simp_all add: pending_state_def stamp_request_def next_id_def expect_answer_def Let_def)
  have "reply_for out rl sent (rs_node st) nd reply = reply_for out rl sent (rs_node ?p) nd reply"
    unfolding reply_for_def pending_entry(7,9) by (rule refl)
  then show ?thesis
    using stamp_request_avps [OF assms(3,4), of cmd st] rest_send_request_reply [OF r(1)] rest_send_request_simps [OF r(1)]
      r(2) p pending_entry(6-9) [of rl cmd st] assms(6)
    by simp
qed

theorem rest_request_reply_witness:
  "\<forall>p. let q = fst (stamp_request example_listener example_command example_rest_state) in
     get_origin_host q = Some ''me'' \<and> get_destination_host q = Some ''h''
     \<and> c_hop_by_hop_id q = 500 \<and> c_end_to_end_id q = 70"
proof
  fix p
  have h: "rust_string (rl_host example_listener)" "rust_string (rl_realm example_listener)" by code_simp+
  have d: "get_destination_host example_command = Some ''h''" by code_simp
  obtain reply st' where r: "handle_diameter_request (example_rest_outside p) example_listener ''q'' example_rest_state = (reply, st')"
    by fastforce
  show "let q = fst (stamp_request example_listener example_command example_rest_state) in
     get_origin_host q = Some ''me'' \<and> get_destination_host q = Some ''h''
     \<and> c_hop_by_hop_id q = 500 \<and> c_end_to_end_id q = 70"
    using rest_request_reply [OF example_accepted(1) example_callback_urls(1) h r refl] d
    by (simp add: Let_def example_rest_state_def example_node_def) (simp add: example_listener_def)
qed

text \<open>C10. A request is refused with status 400 exactly when it is not a JSON object that reads as a
  Diameter request with a Destination-Host and a Destination-Realm; a refused request sends
  nothing, spawns nothing and leaves no entry in any table: at most identifiers are used up.\<close>

theorem rest_request_refused:
  "if \<exists>obj cmd. accepted out rl body obj cmd
   then \<forall>b. fst (handle_diameter_request out rl body st) \<noteq> Err (400, b)
   else \<exists>b st'. handle_diameter_request out rl body st = (Err (400, b), st')
          \<and> rs_node st' = (rs_node st)\<lparr>nd_ids := nd_ids (rs_node st')\<rparr>
          \<and> rs_jobs st' = rs_jobs st \<and> rs_posts st' = rs_posts st"
proof (cases "\<exists>obj cmd. accepted out rl body obj cmd")
  case True
  then obtain obj cmd where a: "accepted out rl body obj cmd" by blast
  obtain reply nd where r: "rest_send_request out rl (fst (stamp_request rl cmd st)) (rs_node (pending_state rl cmd st)) = (reply, nd)"
    by fastforce
  show ?thesis
    using True rest_send_request_reply(1) [OF r] r
    by (auto simp: handle_accepted [OF a] Let_def reply_for_def)
next
  case False
  then show ?thesis using refused [OF False] by simp
qed

text \<open>C6. The callback carries what the caller would have got: of two accepted requests for the same
  command, one with a callback URL and one without, the first is replied to at once and its task posts
  to the URL, once, the body the second gets in the reply, as JSON when that is an answer, as text
  after a prefix when it is an error; both leave the node in the same state.\<close>

theorem callback_agrees:
  assumes "accepted out rl body obj cmd" "callback_url obj = url" "url \<noteq> ''''"
    and "accepted out rl body' obj' cmd" "callback_url obj' = ''''"
    and "handle_diameter_request out rl body st = (now_reply, st1)" "rs_jobs st = []"
    and "run_callback out post rl (hd (rs_jobs st1)) st1 = st2"
    and "handle_diameter_request out rl body' st = (reply, st3)"
  shows "now_reply = Ok (200, TextBody ''Message sent, response will be sent to callback URL'')
    \<and> rs_node st2 = rs_node st3
    \<and> rs_posts st2 = rs_posts st @
        (case reply of
           Ok (_, msg) \<Rightarrow> [(url, ''application/json'', msg)]
         | Err (_, msg) \<Rightarrow> [(url, ''text/plain'', RouteErrorBody msg)]
         | Panic \<Rightarrow> [])"
proof -
  let ?q = "fst (stamp_request rl cmd st)" and ?p = "pending_state rl cmd st"
  have p: "rs_jobs ?p = rs_jobs st" "rs_posts ?p = rs_posts st"
    by (simp_all add: pending_state_def stamp_request_def next_id_def Let_def)
  have s1: "st1 = ?p\<lparr>rs_jobs := [(url, ?q)]\<rparr>"
    "now_reply = Ok (200, TextBody ''Message sent, response will be sent to callback URL'')"
    using handle_accepted [OF assms(1), of st] assms(2,3,6,7) p by (auto simp: Let_def)
  obtain x nd where r: "rest_send_request out rl ?q (rs_node ?p) = (x, nd)" by fastforce
  have s3: "reply = x" "rs_node st3 = nd"
    using handle_accepted [OF assms(4), of st] assms(5,9) r by (auto simp: Let_def)
  show ?thesis
    using assms(8) s1 s3 r p
    by (auto simp: run_callback_def send_message_to_url_def Let_def split: outcome.split option.split)
qed

theorem callback_agrees_witness:
  "\<forall>p post. let out = example_rest_outside p;
       (now_reply, st1) = handle_diameter_request out example_listener ''cb'' example_rest_state;
       st2 = run_callback out post example_listener (hd (rs_jobs st1)) st1 in
     length (rs_posts st2) \<le> 1
     \<and> rs_node st2 = rs_node (snd (handle_diameter_request out example_listener ''q'' example_rest_state))"
proof (intro allI)
  fix p post
  let ?out = "example_rest_outside p"
  obtain r1 st1 where h1: "handle_diameter_request ?out example_listener ''cb'' example_rest_state = (r1, st1)" by fastforce
  obtain r3 st3 where h3: "handle_diameter_request ?out example_listener ''q'' example_rest_state = (r3, st3)" by fastforce
  have j: "rs_jobs example_rest_state = []" "rs_posts example_rest_state = []" by (simp_all add: example_rest_state_def)
  have u: "''http://cb'' \<noteq> ''''" by simp
  show "let out = ?out; (now_reply, st1) = handle_diameter_request out example_listener ''cb'' example_rest_state;
       st2 = run_callback out post example_listener (hd (rs_jobs st1)) st1 in
     length (rs_posts st2) \<le> 1
     \<and> rs_node st2 = rs_node (snd (handle_diameter_request out example_listener ''q'' example_rest_state))"
    using callback_agrees [OF example_accepted(2) example_callback_urls(2) u example_accepted(1) example_callback_urls(1)
        h1 j(1) refl h3, of post] j(2) h1 h3
    by (auto simp: Let_def split: outcome.splits)
qed

end
