(* ===== verification/Stack.thy ===== *)
theory Stack
  imports Listeners Rest_Listener
begin

text \<open>
  The start-up of a stack (\<open>stack.rs\<close>): loading the dictionaries, what
  \<open>DiameterStack::new\<close> builds from a configuration, which servers, REST listeners and peer
  connections \<open>start\<close> brings up.
\<close>

section \<open>Dictionaries\<close>

definition load_avp_definition_from_yaml_file ::
  "files \<Rightarrow> (string \<Rightarrow> yaml option) \<Rightarrow> string \<Rightarrow> (string, yaml) outcome" where
  "load_avp_definition_from_yaml_file fs parse filename =
     (if \<not> f_is_file fs filename then Err (''File not found: '' @ filename)
      else
        (case read_to_string fs filename of
           Ok contents \<Rightarrow> (case parse contents of Some y \<Rightarrow> Ok y | None \<Rightarrow> Err ''Failed to parse YAML'')
         | Err e \<Rightarrow> Err ''Failed to read file''
         | Panic \<Rightarrow> Panic))"

definition load_command_definition_from_yaml_file ::
  "files \<Rightarrow> (string \<Rightarrow> yaml option) \<Rightarrow> (yaml \<Rightarrow> (string, command_json) outcome) \<Rightarrow> string
   \<Rightarrow> (string, command_json list) outcome" where
  "load_command_definition_from_yaml_file fs parse from_value path =
     (if is_empty_file fs path then Err (''File '' @ path @ '' is empty'')
      else
        (case read_to_string fs path of
           Ok contents \<Rightarrow>
             (case parse contents of
                Some y \<Rightarrow> load_command_definition_from_yaml from_value y
              | None \<Rightarrow> Err ''Failed to parse YAML'')
         | Err e \<Rightarrow> Err ''Failed to read file''
         | Panic \<Rightarrow> Panic))"

fun load_command_definition_from_yaml_files ::
  "files \<Rightarrow> (string \<Rightarrow> yaml option) \<Rightarrow> (yaml \<Rightarrow> (string, command_json) outcome) \<Rightarrow> string list
   \<Rightarrow> (string, command_json list) outcome" where
  "load_command_definition_from_yaml_files fs parse from_value [] = Ok []"
| "load_command_definition_from_yaml_files fs parse from_value (f # rest) =
     bind_ok (load_command_definition_from_yaml_file fs parse from_value f) (\<lambda>ds.
       map_ok (\<lambda>more. ds @ more) (load_command_definition_from_yaml_files fs parse from_value rest))"

text \<open>\<open>unwrap_or_else(|_| vec![])\<close>: whatever goes wrong, the standard definitions remain.\<close>

definition ok_or_none :: "('e, 'a list) outcome \<Rightarrow> 'a list" where
  "ok_or_none r = (case r of Ok xs \<Rightarrow> xs | _ \<Rightarrow> [])"

definition load_avp_definitions :: "files \<Rightarrow> (string \<Rightarrow> yaml option) \<Rightarrow> string list option \<Rightarrow> avp_map" where
  "load_avp_definitions fs parse avp_files =
     (case avp_files of
        None \<Rightarrow> avp_map_new []
      | Some paths \<Rightarrow>
          avp_map_new (ok_or_none
            (load_avp_definition_from_yaml_files (load_avp_definition_from_yaml_file fs parse) paths)))"

definition load_command_definitions ::
  "files \<Rightarrow> (string \<Rightarrow> yaml option) \<Rightarrow> (yaml \<Rightarrow> (string, command_json) outcome) \<Rightarrow> string list option \<Rightarrow> command_map" where
  "load_command_definitions fs parse from_value command_files =
     (case command_files of
        None \<Rightarrow> command_map_new []
      | Some paths \<Rightarrow> command_map_new (ok_or_none (load_command_definition_from_yaml_files fs parse from_value paths)))"

section \<open>DiameterStack::new\<close>

text \<open>Timeouts are configured in milliseconds; \<open>ticks\<close> gives them on the clock of the model.\<close>

definition duration :: "(nat \<Rightarrow> nat) \<Rightarrow> u64 option \<Rightarrow> nat \<Rightarrow> nat" where
  "duration ticks configured default_ms = ticks (case configured of Some t \<Rightarrow> unat t | None \<Rightarrow> default_ms)"

definition stack_routing :: "stack_config \<Rightarrow> nat \<Rightarrow> (unit, routing_manager option \<times> nat) outcome" where
  "stack_routing cfg n =
     (case sc_routing cfg of
        None \<Rightarrow> Ok (None, n)
      | Some r \<Rightarrow> map_ok (\<lambda>(rm, n'). (Some rm, n')) (new_routing_manager r n))"

definition new_node :: "manager \<Rightarrow> instant \<Rightarrow> node" where
  "new_node m now =
     \<lparr>nd_mgr = m, nd_ids = id_generator_new, nd_mapper = hbh_mapper_new now, nd_answers = answer_manager_new now,
      nd_handler = \<lparr>hs_requests_received = 0, hs_processed_requests = 0, hs_responses_received = 0, hs_posts = 0\<rparr>,
      nd_now = now, nd_attempts = 0, nd_sent = []\<rparr>"

definition new_stack :: "(nat \<Rightarrow> nat) \<Rightarrow> stack_config \<Rightarrow> instant \<Rightarrow> (unit, rest_state) outcome" where
  "new_stack ticks cfg now =
     map_ok (\<lambda>(rm, n).
       \<lparr>rs_node = new_node
          (new_manager (duration ticks (sc_connection_request_timeout cfg) 60000)
             (duration ticks (sc_request_timeout cfg) 10000) rm (list_or_default (sc_request_retry_result_codes cfg))
             (redirect_caches_new now) \<lparr>lb_index = (\<lambda>_. 0), lb_draws = 0\<rparr> n) now,
        rs_end_to_end = id_generator_new, rs_requests = 0, rs_jobs = [], rs_posts = []\<rparr>)
     (stack_routing cfg 0)"

text \<open>The alarm store exists only when a database path is configured and the database opens
  (\<open>open_db\<close>), and only then there is a sender.\<close>

definition stack_alarm_store :: "(string \<Rightarrow> 's option) \<Rightarrow> stack_config \<Rightarrow> 's option" where
  "stack_alarm_store open_db cfg =
     Option.bind (Option.bind (Option.bind (sc_alarm_management cfg) amc_alarm_db) adb_path) open_db"

definition stack_alarm_sender :: "(string \<Rightarrow> 't alarm_store option) \<Rightarrow> stack_config \<Rightarrow> 't alarm_sender option" where
  "stack_alarm_sender open_db cfg =
     map_option (\<lambda>store. \<lparr>sn_url = Option.bind (sc_alarm_management cfg) amc_alarm_manager_url, sn_store = store,
                          sn_posts = []\<rparr>)
       (stack_alarm_store open_db cfg)"

section \<open>DiameterStack::start\<close>

definition path_or_empty :: "string option \<Rightarrow> string" where
  "path_or_empty p = (case p of Some s \<Rightarrow> s | None \<Rightarrow> [])"

record server_spec =
  svs_transport :: client_transport
  svs_addresses :: "string list"
  svs_key_file :: string
  svs_cert_file :: string
  svs_ca_cert_file :: string

text \<open>The servers of one entry of \<open>listen\<close>: one per host over TCP, one for all hosts over
  SCTP; an address that does not parse, or another protocol, is logged and skipped.\<close>

definition listener_servers :: "listener_config \<Rightarrow> server_spec list" where
  "listener_servers lc =
     (let spec = (\<lambda>t addrs. \<lparr>svs_transport = t, svs_addresses = addrs, svs_key_file = path_or_empty (lc_key_file lc),
                             svs_cert_file = path_or_empty (lc_cert_file lc),
                             svs_ca_cert_file = path_or_empty (lc_ca_cert_file lc)\<rparr>) in
      case listen_from_str (lc_address lc) of
        Inl e \<Rightarrow> []
      | Inr addr \<Rightarrow>
          let addrs = map (\<lambda>h. host_port h (la_port addr)) (la_hosts addr) in
          if str_to_lowercase (la_protocol addr) = ''tcp'' then map (\<lambda>a. spec Tcp [a]) addrs
          else if str_to_lowercase (la_protocol addr) = ''sctp'' then
            [spec (Sctp (case get_parameter_u16 addr ''stream_id'' of Some i \<Rightarrow> i | None \<Rightarrow> 0)
                        (case get_parameter_u32 addr ''ppid'' of Some i \<Rightarrow> i | None \<Rightarrow> 0)) addrs]
          else [])"

definition start_listeners :: "stack_config \<Rightarrow> server_spec list" where
  "start_listeners cfg = concat (map listener_servers (list_or_default (sc_listen cfg)))"

record rest_spec =
  rsp_address :: string
  rsp_path :: string
  rsp_cert_file :: string
  rsp_key_file :: string
  rsp_ca_cert_file :: string
  rsp_alarm_path :: string

definition start_rest_listeners :: "stack_config \<Rightarrow> rest_spec list" where
  "start_rest_listeners cfg =
     map (\<lambda>rc. \<lparr>rsp_address = rlc_address rc, rsp_path = (case rlc_path rc of Some p \<Rightarrow> p | None \<Rightarrow> ''/''),
                rsp_cert_file = path_or_empty (rlc_cert_file rc), rsp_key_file = path_or_empty (rlc_key_file rc),
                rsp_ca_cert_file = path_or_empty (rlc_ca_cert_file rc),
                rsp_alarm_path = (case Option.bind (sc_alarm_management cfg) amc_alarm_rest_path of
                                    Some p \<Rightarrow> p | None \<Rightarrow> ''/alarms'')\<rparr>)
       (list_or_default (sc_rest_listen cfg))"

text \<open>A dialled connection as the connection manager sees it: its id, peer host and peer realm.\<close>

definition dialled_entry :: "(nat \<Rightarrow> nat \<Rightarrow> string) \<Rightarrow> dial_store \<Rightarrow> conn \<Rightarrow> string \<times> centry" where
  "dialled_entry uuid st c =
     (case c of
        Leaf h \<Rightarrow>
          (case ds_clients st h of
             Some cl \<Rightarrow> (client_id cl, \<lparr>ce_conn = c, ce_host = cl_peer_host cl, ce_realm = cl_peer_realm cl\<rparr>)
           | None \<Rightarrow> ([], \<lparr>ce_conn = c, ce_host = [], ce_realm = []\<rparr>))
      | Node i k cs \<Rightarrow>
          (let (host, realm) = (case ds_names st i of Some n \<Rightarrow> n | None \<Rightarrow> ([], [])) in
           ((case k of RoundRobin \<Rightarrow> ''round_robin-'' | FailOver \<Rightarrow> ''failover-'' | Random \<Rightarrow> ''random-'') @ uuid i 0,
            \<lparr>ce_conn = c, ce_host = host, ce_realm = realm\<rparr>)))"

definition register_all :: "(string \<times> centry) list \<Rightarrow> manager \<Rightarrow> manager" where
  "register_all es m = foldl (\<lambda>m (i, e). cm_add_connection m i e) m es"

definition stack_connect :: "(nat \<Rightarrow> nat \<Rightarrow> string) \<Rightarrow> stack_config \<Rightarrow> node \<Rightarrow> (unit, node \<times> dial_store) outcome" where
  "stack_connect uuid cfg nd =
     map_ok (\<lambda>(cs, st).
       (nd\<lparr>nd_mgr := register_all (map (dialled_entry uuid st) cs) ((nd_mgr nd)\<lparr>cm_fresh := ds_fresh st\<rparr>)\<rparr>, st))
     (connect_to_peers cfg uuid \<lparr>ds_fresh = cm_fresh (nd_mgr nd), ds_clients = Map.empty, ds_names = Map.empty\<rparr>)"

section \<open>Properties\<close>

lemma load_avp_files_Ok:
  "load_avp_definition_from_yaml_files read_yaml paths = Ok xs \<Longrightarrow> path \<in> set paths \<Longrightarrow>
   \<exists>y ds. read_yaml path = Ok y \<and> load_avp_definition_from_yaml y = Ok ds"
  by (induction paths arbitrary: xs) auto

lemma load_command_files_Ok:
  "load_command_definition_from_yaml_files fs parse from_value paths = Ok xs \<Longrightarrow> path \<in> set paths \<Longrightarrow>
   \<exists>ds. load_command_definition_from_yaml_file fs parse from_value path = Ok ds"
  by (induction paths arbitrary: xs) auto

text \<open>One dictionary file that cannot be loaded drops all of them: when a file of the list is
  missing, is not UTF-8 or YAML, or does not have the expected form, the stack starts with the standard
  definitions only, whatever the other files define.\<close>

theorem bad_definition_file_drops_all:
  assumes "path \<in> set avp_paths" "bind_ok (load_avp_definition_from_yaml_file fs parse path) load_avp_definition_from_yaml = Err e"
    and "path' \<in> set command_paths" "load_command_definition_from_yaml_file fs parse from_value path' = Err e'"
  shows "load_avp_definitions fs parse (Some avp_paths) = avp_map_new []
    \<and> load_command_definitions fs parse from_value (Some command_paths) = command_map_new []"
proof -
  have "load_avp_definition_from_yaml_files (load_avp_definition_from_yaml_file fs parse) avp_paths \<noteq> Ok xs" for xs
    using load_avp_files_Ok [OF _ assms(1), of "load_avp_definition_from_yaml_file fs parse" xs] assms(2) by auto
  moreover have "load_command_definition_from_yaml_files fs parse from_value command_paths \<noteq> Ok xs" for xs
    using load_command_files_Ok [OF _ assms(3), of fs parse from_value xs] assms(4) by auto
  ultimately show ?thesis
    by (auto simp: load_avp_definitions_def load_command_definitions_def ok_or_none_def split: outcome.split)
qed

theorem bad_definition_file_drops_all_witness:
  "let parse = (\<lambda>s. Some (YMapping [(YString ''avps'', YSequence []), (YString ''commands'', YSequence [])])) in
   load_avp_definitions example_files parse (Some [''a.yaml'', '''']) = avp_map_new []
   \<and> load_command_definitions example_files parse (\<lambda>y. Err ''no'') (Some [''c.yaml'', '''']) = command_map_new []"
proof -
  let ?parse = "\<lambda>s. Some (YMapping [(YString ''avps'', YSequence []), (YString ''commands'', YSequence [])])"
  have "bind_ok (load_avp_definition_from_yaml_file example_files ?parse '''') load_avp_definition_from_yaml
      = Err (''File not found: '' @ '''')"
    "load_command_definition_from_yaml_file example_files ?parse (\<lambda>y. Err ''no'') '''' = Err (''File '' @ '''' @ '' is empty'')"
    by (simp_all add: load_avp_definition_from_yaml_file_def load_command_definition_from_yaml_file_def is_empty_file_def
        example_files_def)
  then show ?thesis
    unfolding Let_def by (intro bad_definition_file_drops_all) simp_all
qed

end
