(* ===== verification/Bridge.thy ===== *)
theory Bridge
  imports Stack
begin

text \<open>
  The running bridge: REST requests, the tasks of callbacks, commands that arrive from peers,
  connections that are registered and deregistered, and the clock change one shared state, one step
  at a time, in any order. A step is a handler run to its end; what other tasks do while it
  waits for an answer is in its oracles, which differ from step to step.
\<close>

inductive bridge_step :: "rest_listener \<Rightarrow> rest_state \<Rightarrow> rest_state \<Rightarrow> bool" for rl where
  request: "handle_diameter_request out rl body st = (reply, st') \<Longrightarrow> bridge_step rl st st'"
| callback: "rs_jobs st = js @ job # js' \<Longrightarrow>
    bridge_step rl st ((run_callback out post rl job st)\<lparr>rs_jobs := js @ js'\<rparr>)"
| command: "process_command out cx q (rs_node st) = (x, nd) \<Longrightarrow> bridge_step rl st (st\<lparr>rs_node := nd\<rparr>)"
| arrive: "bridge_step rl st
    (st\<lparr>rs_node := (rs_node st)\<lparr>nd_mgr := cm_add_connection (nd_mgr (rs_node st)) i e\<rparr>\<rparr>)"
| leave: "bridge_step rl st
    (st\<lparr>rs_node := (rs_node st)\<lparr>nd_mgr := remove_connection_by_id (nd_mgr (rs_node st)) i\<rparr>\<rparr>)"
| tick: "nd_now (rs_node st) \<le> t \<Longrightarrow> bridge_step rl st (st\<lparr>rs_node := (rs_node st)\<lparr>nd_now := t\<rparr>\<rparr>)"

inductive bridge_reaches :: "rest_listener \<Rightarrow> rest_state \<Rightarrow> rest_state \<Rightarrow> bool" for rl where
  start: "bridge_reaches rl st st"
| step: "bridge_reaches rl st st1 \<Longrightarrow> bridge_step rl st1 st2 \<Longrightarrow> bridge_reaches rl st st2"

text \<open>What holds in every state: the tables refer to entries that exist, what is registered under a
  name is a container, and every task that was spawned for a callback has a URL and a complete
  request of this node.\<close>

definition job_ok :: "rest_listener \<Rightarrow> string \<times> command \<Rightarrow> bool" where
  "job_ok rl job \<longleftrightarrow> fst job \<noteq> '''' \<and> is_request (snd job)
     \<and> get_origin_host (snd job) = Some (rl_host rl) \<and> get_origin_realm (snd job) = Some (rl_realm rl)
     \<and> get_destination_host (snd job) \<noteq> None \<and> get_destination_realm (snd job) \<noteq> None"

definition bridge_ok :: "rest_listener \<Rightarrow> rest_state \<Rightarrow> bool" where
  "bridge_ok rl st \<longleftrightarrow> am_wf (nd_answers (rs_node st)) \<and> registry_ok (nd_mgr (rs_node st))
     \<and> list_all (job_ok rl) (rs_jobs st)"

section \<open>What the steps keep\<close>

lemma registry_ok_same: "same_config m m' \<Longrightarrow> registry_ok m \<Longrightarrow> registry_ok m'"
  by (simp add: registry_ok_def same_config_def)

lemma am_wf_prepare: "am_wf s \<Longrightarrow> am_wf (prepare_for_answer s now k c h r)"
  using answers.inv_ins [of s now k "(c, h, r)"] by simp

lemma am_wf_received: "am_wf s \<Longrightarrow> am_wf (snd (answer_received s a))"
  by (auto simp: answer_received_def am_wf_def set_answer_def split: option.split)

lemma respond_answers [simp]: "nd_answers (snd (respond out i host realm a nd)) = nd_answers nd"
  by (simp add: respond_def split: prod.split outcome.split)

lemma forward_request_answers:
  "nd_answers (snd (forward_request out cx q nd)) = nd_answers (snd (prepare_forward cx q nd))"
  by (auto simp: forward_request_def Let_def simp del: prepare_forward_simps split: prod.split outcome.split)

lemma process_answer_wf: "am_wf (nd_answers nd) \<Longrightarrow> am_wf (nd_answers (snd (process_answer out cx a nd)))"
  using am_wf_received [of "nd_answers nd" "remove_record_route a (cx_my_host cx)"]
    respond_answers [of out _ _ _ _ "nd\<lparr>nd_mapper := _, nd_answers := _\<rparr>"]
  by (auto simp: process_answer_def Let_def split: prod.split outcome.split option.split dest!: arg_cong [of _ _ snd])

lemma process_command_wf:
  assumes "am_wf (nd_answers nd)"
  shows "am_wf (nd_answers (snd (process_command out cx q nd)))"
proof -
  have "nd_answers (snd (process_local_command out cx q nd)) = nd_answers nd"
    by (auto simp: process_local_command_def Let_def split: prod.split outcome.split option.split)
  moreover have "am_wf (nd_answers (snd (forward_request out cx q nd)))"
    using assms by (simp add: forward_request_answers am_wf_prepare)
  ultimately show ?thesis
    using assms process_answer_wf [OF assms]
    by (simp add: process_command_def reject_looped_request_def)
qed

lemma rest_send_request_config:
  "rest_send_request out rl cmd nd = (reply, nd') \<Longrightarrow> same_config (nd_mgr nd) (nd_mgr nd')"
  using send_request_result [of "o_env out" cmd "\<lparr>r_mgr = nd_mgr nd, r_now = nd_now nd, r_attempts = nd_attempts nd\<rparr>"]
  by (auto simp: rest_send_request_def Let_def loop_result_def advances_def split: prod.splits outcome.splits if_splits)

lemma rest_send_request_ok:
  assumes "rest_send_request out rl cmd nd = (reply, nd')" "am_wf (nd_answers nd)" "registry_ok (nd_mgr nd)"
  shows "am_wf (nd_answers nd')" "registry_ok (nd_mgr nd')"
  using rest_send_request_simps(1) [OF assms(1)] registry_ok_same [OF rest_send_request_config [OF assms(1)]] assms
  by simp_all

lemma pending_state_ok: "bridge_ok rl st \<Longrightarrow> bridge_ok rl (pending_state rl cmd st)"
  by (simp add: bridge_ok_def pending_state_def stamp_request_def next_id_def expect_answer_def am_wf_prepare Let_def)

lemma request_ok:
  assumes "rust_string (rl_host rl)" "rust_string (rl_realm rl)" "bridge_ok rl st"
  shows "bridge_ok rl (snd (handle_diameter_request out rl body st))"
proof (cases "\<exists>obj cmd. accepted out rl body obj cmd")
  case True
  then obtain obj cmd where a: "accepted out rl body obj cmd" by blast
  let ?q = "fst (stamp_request rl cmd st)" and ?p = "pending_state rl cmd st"
  obtain reply nd where r: "rest_send_request out rl ?q (rs_node ?p) = (reply, nd)" by fastforce
  have p: "bridge_ok rl ?p" by (rule pending_state_ok [OF assms(3)])
  have "job_ok rl (callback_url obj, ?q)" if "callback_url obj \<noteq> ''''"
    using a that stamp_request_avps [OF assms(1,2), of cmd st] by (simp add: job_ok_def accepted_def)
  then show ?thesis
    using p r rest_send_request_ok [OF r] by (auto simp: handle_accepted [OF a] Let_def bridge_ok_def)
next
  case False
  then obtain b st' where "handle_diameter_request out rl body st = (Err (400, b), st')"
    "rs_node st' = (rs_node st)\<lparr>nd_ids := nd_ids (rs_node st')\<rparr>" "rs_jobs st' = rs_jobs st"
    using refused [OF False, of st] by blast
  then show ?thesis
    using assms(3) unfolding bridge_ok_def by (metis node.select_convs(1,4) node.surjective node.update_convs(2) snd_conv)
qed

lemma run_callback_node:
  assumes "rest_send_request out rl (snd job) (rs_node st) = (reply, nd)"
  shows "rs_node (run_callback out post rl job st) = nd"
  using assms by (auto simp: run_callback_def send_message_to_url_def Let_def split: outcome.split option.split)

lemma bridge_ok_step:
  assumes "rust_string (rl_host rl)" "rust_string (rl_realm rl)"
  shows "bridge_step rl st st' \<Longrightarrow> bridge_ok rl st \<Longrightarrow> bridge_ok rl st'"
proof (induction rule: bridge_step.induct)
  case (request out body st reply st')
  then show ?case using request_ok [OF assms request(2), of out body] by simp
next
  case (callback st js job js' out post)
  obtain reply nd where r: "rest_send_request out rl (snd job) (rs_node st) = (reply, nd)" by fastforce
  show ?case
    using callback rest_send_request_ok [OF r] run_callback_node [OF r, of post] by (simp add: bridge_ok_def)
next
  case (command out cx q st x nd)
  have "registry_ok (nd_mgr nd)"
    using registry_ok_same [OF process_command_config [of "rs_node st" out cx q]] command by (simp add: bridge_ok_def)
  then show ?case using process_command_wf [of "rs_node st" out cx q] command by (simp add: bridge_ok_def)
next
  case (leave st i)
  have "registry_ok (remove_connection_by_id (nd_mgr (rs_node st)) i)"
    using leave forget_names_registry [of "(nd_mgr (rs_node st))\<lparr>cm_connections := _\<rparr>"]
    by (auto simp: bridge_ok_def remove_connection_by_id_def registry_ok_def split: option.split)
  then show ?case using leave by (simp add: bridge_ok_def)
qed (simp_all add: bridge_ok_def cm_add_connection_registry(1))

lemma register_all_registry:
  assumes "registry_ok m"
  shows "registry_ok (register_all es m)
    \<and> host_realm_leaves (register_all es m) k =
        host_realm_leaves m k +
        sum_list (map (\<lambda>(i, e). conn_leaves (ce_conn e)) (filter (\<lambda>(i, e). peer_key (ce_host e) (ce_realm e) = k) es))"
  using assms
proof (induction es arbitrary: m)
  case (Cons x es)
  obtain i e where x: "x = (i, e)" by fastforce
  note a = cm_add_connection_registry [OF Cons.prems, of i e]
  show ?case using Cons.IH [OF a(1)] a(2) [of k] x by (simp add: register_all_def add.assoc)
qed (simp add: register_all_def)

lemma new_stack_node:
  assumes "new_stack ticks cfg now = Ok st"
  shows "am_wf (nd_answers (rs_node st))" "registry_ok (nd_mgr (rs_node st))" "rs_jobs st = []"
    "host_realm_leaves (nd_mgr (rs_node st)) k = {#}"
    "cm_redirects (nd_mgr (rs_node st)) = redirect_caches_new now"
    "cm_total_timeout (nd_mgr (rs_node st)) = duration ticks (sc_request_timeout cfg) 10000"
    "cm_per_conn_timeout (nd_mgr (rs_node st)) = duration ticks (sc_connection_request_timeout cfg) 60000"
  using assms
  by (auto simp: new_stack_def new_node_def new_manager_def am_wf_def answer_manager_new_def registry_ok_def
      host_realm_leaves_def)

lemma get_redirect_new: "fst (get_redirect (redirect_caches_new now) t q) = None"
proof -
  have "live_view (redirect_caches_new now) t k = None" for k
    by (cases k) (simp_all add: live_view_def live_entries_def retain_def redirect_caches_new_def)
  then have "first_some (map (live_view (redirect_caches_new now) t) ks) = None" for ks
    by (induction ks) simp_all
  then show ?thesis using lookup_keys_view [of "redirect_caches_new now" t "redirect_keys q"] by (simp add: get_redirect_def)
qed

lemma stack_connect_ok:
  assumes "stack_connect uuid cfg (rs_node st) = Ok (nd, ds)" "bridge_ok rl st"
  shows "bridge_ok rl (st\<lparr>rs_node := nd\<rparr>)"
proof -
  obtain cs where "nd = (rs_node st)\<lparr>nd_mgr := register_all (map (dialled_entry uuid ds) cs)
      ((nd_mgr (rs_node st))\<lparr>cm_fresh := ds_fresh ds\<rparr>)\<rparr>"
    using assms(1) by (auto simp: stack_connect_def)
  moreover have "registry_ok ((nd_mgr (rs_node st))\<lparr>cm_fresh := ds_fresh ds\<rparr>)"
    using assms(2) by (simp add: bridge_ok_def registry_ok_def)
  ultimately show ?thesis using assms(2) register_all_registry by (simp add: bridge_ok_def)
qed

section \<open>Properties\<close>

text \<open>C5. The bridge stays well formed: from a stack that was built and connected to its peers,
  whatever REST requests, callbacks, commands, connections and ticks of the clock follow in whatever
  order, the answer table refers only to entries that exist, everything registered under a name is a
  container, and every task waiting to call back has a URL and a request of this node with a
  destination.\<close>

theorem bridge_wellformed:
  assumes "rust_string (rl_host rl)" "rust_string (rl_realm rl)"
    and "new_stack ticks cfg now = Ok st0" "stack_connect uuid cfg (rs_node st0) = Ok (nd, ds)"
    and "bridge_reaches rl (st0\<lparr>rs_node := nd\<rparr>) st"
  shows "bridge_ok rl st"
proof -
  have "bridge_ok rl st0" using new_stack_node [OF assms(3)] by (simp add: bridge_ok_def)
  then have "bridge_ok rl (st0\<lparr>rs_node := nd\<rparr>)" by (rule stack_connect_ok [OF assms(4)])
  with assms(5) show ?thesis
    by (induction rule: bridge_reaches.induct) (auto intro: bridge_ok_step [OF assms(1,2)])
qed

text \<open>C22. Start-up makes the configured peers reachable: after \<open>connect_to_peers\<close>, what is found
  under a \<open>host@realm\<close> are exactly the peer connections below the connections that were created
  for that name, and a request to it is offered to each of them once.\<close>

theorem started_peers_reachable:
  assumes "new_stack ticks cfg now = Ok st0"
    and "connect_to_peers cfg uuid \<lparr>ds_fresh = cm_fresh (nd_mgr (rs_node st0)), ds_clients = Map.empty, ds_names = Map.empty\<rparr>
           = Ok (cs, ds)"
    and "named = filter (\<lambda>c. case dialled_entry uuid ds c of (i, e) \<Rightarrow> ce_host e = host \<and> ce_realm e = realm) cs"
    and "conns_leaves named \<noteq> {#}" "CHR ''@'' \<notin> set host"
    and "\<forall>c\<in>set cs. case dialled_entry uuid ds c of (i, e) \<Rightarrow> CHR ''@'' \<notin> set (ce_host e)"
    and "get_destination_host q = Some host" "get_destination_realm q = Some realm"
  shows "\<exists>nd hs. stack_connect uuid cfg (rs_node st0) = Ok (nd, ds)
    \<and> fst (get_connections_for_request env t (nd_mgr nd) q) = Ok (map Leaf hs) \<and> mset hs = conns_leaves named"
proof -
  let ?m = "(nd_mgr (rs_node st0))\<lparr>cm_fresh := ds_fresh ds\<rparr>" and ?es = "map (dialled_entry uuid ds) cs"
  let ?m' = "register_all ?es ?m" and ?k = "peer_key host realm"
  have c: "stack_connect uuid cfg (rs_node st0) = Ok ((rs_node st0)\<lparr>nd_mgr := ?m'\<rparr>, ds)"
    using assms(2) by (simp add: stack_connect_def)
  have r: "registry_ok ?m" "host_realm_leaves ?m ?k = {#}"
    using new_stack_node [OF assms(1)] by (simp_all add: registry_ok_def host_realm_leaves_def)
  have at: "peer_key h r = ?k \<longleftrightarrow> h = host \<and> r = realm" if "CHR ''@'' \<notin> set h" for h r
    using that assms(5) by (auto simp: peer_key_def append_eq_append_conv2 append_eq_Cons_conv Cons_eq_append_conv)
  have "filter (\<lambda>(i, e). peer_key (ce_host e) (ce_realm e) = ?k) ?es = map (dialled_entry uuid ds) named"
    unfolding assms(3) filter_map comp_def
    by (intro arg_cong [of _ _ "map (dialled_entry uuid ds)"] filter_cong refl)
       (use assms(6) at in \<open>auto split: prod.splits\<close>)
  moreover have "conn_leaves (ce_conn (snd (dialled_entry uuid ds x))) = conn_leaves x" for x
    by (auto simp: dialled_entry_def Let_def split: conn.split option.split prod.split)
  ultimately have l: "host_realm_leaves ?m' ?k = conns_leaves named"
    using register_all_registry [OF r(1), of ?es ?k] r(2) by (simp add: conns_leaves_def case_prod_beta comp_def)
  then obtain d where d: "cm_host_realm ?m' ?k = Some d"
    using assms(4) by (auto simp: host_realm_leaves_def split: option.splits)
  have "cm_redirects (register_all es m) = cm_redirects m" for es m
    by (induction es arbitrary: m) (auto simp: register_all_def cm_add_connection_def Let_def split: option.split)
  then have "cm_redirects ?m' = redirect_caches_new now" using new_stack_node(5) [OF assms(1)] by simp
  then have "fst (get_redirect (cm_redirects ?m') t q) = None" by (simp add: get_redirect_new)
  from offered_leaves [OF d assms(7,8) this, of env] l c show ?thesis by auto
qed

text \<open>C38. With the default timeouts there is no second try: a stack configured without
  \<open>request-timeout\<close> and \<open>connection-request-timeout\<close> gives one connection 60
  seconds out of a total of 10, so that a peer that takes the request and does not answer uses up the
  whole time, and no other connection is tried.\<close>

theorem default_timeouts_no_failover:
  assumes "new_stack ticks cfg now = Ok st0" "mono ticks" "0 < ticks 10000"
    and "sc_request_timeout cfg = None" "sc_connection_request_timeout cfg = None"
    and "cm_total_timeout (r_mgr r) = cm_total_timeout (nd_mgr (rs_node st0))"
    and "cm_per_conn_timeout (r_mgr r) = cm_per_conn_timeout (nd_mgr (rs_node st0))"
    and "get_connections_for_request env (r_now r) (r_mgr r) q = (Ok (c # cs), m1)"
    and "h \<in># conn_leaves c" "e_up env (r_attempts r) h"
    and "wait_answer (e_wait_begins env (r_attempts r)) (e_wait_ends env (r_attempts r)) (c_hop_by_hop_id q) = None"
  shows "\<exists>r'. send_request env q r = (Err TotalTimeout, r') \<and> r_attempts r' = r_attempts r + 1"
proof -
  have t: "cm_total_timeout (r_mgr r) = ticks 10000" "cm_per_conn_timeout (r_mgr r) = ticks 60000"
    using new_stack_node(6,7) [OF assms(1)] assms(4-7) by (simp_all add: duration_def)
  have le: "ticks 10000 \<le> ticks 60000" by (rule monoD [OF assms(2)]) simp
  have m: "same_config (r_mgr r) m1" by (rule get_connections_for_request_config [OF assms(8)])
  obtain h' lb where "conn_send (e_up env (r_attempts r)) (e_rnd env) (cm_lb m1) c = (Ok h', lb)"
    using conn_send_delivers(1) [of "e_up env (r_attempts r)" c "e_rnd env" "cm_lb m1"] assms(9,10)
    by (cases "conn_send (e_up env (r_attempts r)) (e_rnd env) (cm_lb m1) c";
        cases "fst (conn_send (e_up env (r_attempts r)) (e_rnd env) (cm_lb m1) c)") auto
  then have "send_request_command env (r_attempts r) (cm_lb m1) c q = (None, lb)"
    using assms(11) by (simp add: send_request_command_def)
  then show ?thesis
    using assms(3,8) m t le
    by (auto simp: send_request_def send_request_with_timeout_def same_config_def Let_def)
qed

text \<open>C39. A peer entry with one TCP address and a certificate and key of its own is never dialled: the start-up
  passes the two files in exchange, and where the key file holds no certificate the task of the client ends
  with an error before its first attempt to connect. No event takes it out of that state: it has no socket,
  has written nothing, refuses every command but a capabilities exchange and has asked for no alarm.\<close>

theorem tls_peer_never_dialled:
  assumes "plain_url (pc_connection_url peer)" "listen_from_str (pc_connection_url peer) = Inr addr"
    and "str_to_lowercase (la_protocol addr) = ''tcp''"
    and "pc_cert_file peer = Some crt" "pc_key_file peer = Some key"
    and "\<not> no_file fs crt" "\<not> no_file fs key" "f_read fs crt = Some crt_pem" "f_read fs key = Some key_pem"
    and "parsed_certs lib key_pem = []"
  shows "\<exists>c st'. connect_peers cfg uuid [peer] st = Ok ([Leaf (ds_fresh st)], st')
      \<and> ds_clients st' (ds_fresh st) = Some c \<and> cl_transport c = Tcp
      \<and> (\<forall>s nd g l. client_reaches s c (tc_start fs lib c nd g) l \<longrightarrow>
           tc_phase l = Ended TlsFailed \<and> lk_writer l = None \<and> written l = [] \<and> lk_alarms l = []
           \<and> \<not> tc_connected l \<and> (\<forall>why ev. client_step s c why ev l = None)
           \<and> (\<forall>q. c_code q \<noteq> 257 \<longrightarrow> tc_send s q l = (Err NotConnected, l)))"
proof -
  obtain c st' where c: "connect_peers cfg uuid [peer] st = Ok ([Leaf (ds_fresh st)], st')"
    "ds_clients st' (ds_fresh st) = Some c" "cl_transport c = Tcp" "cl_key_file c = crt" "cl_cert_file c = key"
    using single_peer_files_exchanged [OF assms(1-5), of cfg uuid st] by blast
  have "build_tls_connector fs lib (cl_cert_file c) (cl_key_file c) (cl_ca_cert_file c) = Err (NoCertificates key)"
    using c(4,5) assms(6-10) by (simp add: build_tls_connector_def load_identity_def read_file_def)
  then have s: "tc_start fs lib c nd g = (new_tcp_client False nd g)\<lparr>tc_phase := Ended TlsFailed\<rparr>" for nd g
    by (simp add: tc_start_def)
  have "tc_phase l = Ended TlsFailed \<and> lk_writer l = None \<and> written l = [] \<and> lk_alarms l = []
      \<and> \<not> tc_connected l \<and> (\<forall>why ev. client_step s c why ev l = None)
      \<and> (\<forall>q. c_code q \<noteq> 257 \<longrightarrow> tc_send s q l = (Err NotConnected, l))"
    if "client_reaches s c (tc_start fs lib c nd g) l" for s nd g l
  proof -
    have "l = (new_tcp_client False nd g)\<lparr>tc_phase := Ended TlsFailed\<rparr>"
      using ended_stays [OF that] by (simp add: s)
    then show ?thesis by (simp add: client_step_def new_tcp_client_def written_def tc_send_def)
  qed
  then show ?thesis using c(1-3) by blast
qed

section \<open>Examples\<close>

definition example_config :: stack_config where
  "example_config =
     \<lparr>sc_name = ''s'', sc_host = ''me'', sc_realm = ''x'', sc_request_timeout = None,
      sc_connection_request_timeout = None, sc_cer_timeout = None, sc_dpr_timeout = None, sc_dwr_timeout = None,
      sc_alarm_management = None, sc_listen = None, sc_rest_listen = None, sc_my_request_processors = None,
      sc_request_retry_result_codes = None,
      sc_peers = Some [\<lparr>pc_host = ''h@x'', pc_connection_url = ''tcp://a:1'', pc_cert_file = None,
                        pc_key_file = None, pc_ca_cert_file = None, pc_extra = Map.empty\<rparr>],
      sc_capability = example_capability, sc_routing = None, sc_avp_files = None, sc_command_files = None,
      sc_extra = Map.empty\<rparr>"

definition example_dial :: "(nat \<Rightarrow> nat \<Rightarrow> string) \<Rightarrow> (unit, conn list \<times> dial_store) outcome" where
  "example_dial uuid = connect_to_peers example_config uuid \<lparr>ds_fresh = 0, ds_clients = Map.empty, ds_names = Map.empty\<rparr>"

lemma example_url:
  "plain_url ''tcp://a:1''"
  "listen_from_str ''tcp://a:1'' = Inr \<lparr>la_protocol = ''tcp'', la_hosts = [''a''], la_port = 1, la_parameters = None\<rparr>"
proof -
  let ?url = "''tcp://a:1''"
  show "plain_url ?url"
    by (simp add: plain_url_def str_trim_id graphic_def ascii_Cons to_lowercase_def lower_char_def
        byte_of_char_def) (simp add: ascii_def)
  have p: "parse_u16 ''1'' = Some 1" 
  proof -
    have "show_nat (unat (1 :: u16)) = ''1''" by code_simp
    then show ?thesis using parse_u16_show [of 1] by simp
  qed
  have "split_on (CHR ''?'') ?url = [?url]" "split_str ''://'' ?url = [''tcp'', ''a:1'']"
    "rsplitn2 (CHR '':'') ''a:1'' = [''1'', ''a'']" "map str_trim (split_on (CHR '','') ''a'') = [''a'']"
    by code_simp+
  then show "listen_from_str ?url = Inr \<lparr>la_protocol = ''tcp'', la_hosts = [''a''], la_port = 1, la_parameters = None\<rparr>"
    by (simp add: listen_from_str_def p)
qed

lemma example_dialled:
  "\<exists>ds. example_dial uuid = Ok ([Leaf 0], ds)
     \<and> dialled_entry uuid ds (Leaf 0) = (''a:1'', \<lparr>ce_conn = Leaf 0, ce_host = ''h'', ce_realm = ''x''\<rparr>)"
proof -
  let ?url = "''tcp://a:1''" and ?st = "\<lparr>ds_fresh = 0, ds_clients = Map.empty, ds_names = Map.empty\<rparr>"
  have c: "create_connections cfg uuid a ?url st = Ok (dial_url cfg a ?url st)" for cfg a st
    using create_connections_route [of "Peer ?url"] example_url(1) by simp
  have "str_to_lowercase ''tcp'' = ''tcp''" "host_port ''a'' 1 = ''a:1''" "split_peer_host ''h@x'' = (''h'', ''x'')"
    by code_simp+
  then show ?thesis
    by (simp add: example_dial_def connect_to_peers_def example_config_def c dial_url_def example_url(2) client_for_def client_base_def
        new_client_def dialled_entry_def client_id_def peer_args_def)
qed

lemma example_new_stack:
  "\<exists>st0. new_stack (\<lambda>n. n) example_config 0 = Ok st0 \<and> cm_fresh (nd_mgr (rs_node st0)) = 0"
  by (simp add: new_stack_def stack_routing_def example_config_def new_node_def new_manager_def)

theorem bridge_wellformed_witness:
  "\<forall>uuid. \<exists>st0 nd ds. new_stack (\<lambda>n. n) example_config 0 = Ok st0
     \<and> stack_connect uuid example_config (rs_node st0) = Ok (nd, ds)
     \<and> bridge_ok example_listener (st0\<lparr>rs_node := nd\<lparr>nd_now := nd_now nd + 1\<rparr>\<rparr>)"
proof
  fix uuid
  obtain st0 where s: "new_stack (\<lambda>n. n) example_config 0 = Ok st0" "cm_fresh (nd_mgr (rs_node st0)) = 0"
    using example_new_stack by blast
  obtain ds where "example_dial uuid = Ok ([Leaf 0], ds)" using example_dialled by blast
  then obtain nd where n: "stack_connect uuid example_config (rs_node st0) = Ok (nd, ds)"
    using s(2) by (simp add: stack_connect_def example_dial_def)
  have h: "rust_string (rl_host example_listener)" "rust_string (rl_realm example_listener)" by code_simp+
  let ?st = "st0\<lparr>rs_node := nd\<rparr>"
  have "bridge_step example_listener ?st (?st\<lparr>rs_node := (rs_node ?st)\<lparr>nd_now := nd_now nd + 1\<rparr>\<rparr>)"
    by (rule bridge_step.tick) simp
  then have "bridge_reaches example_listener ?st (?st\<lparr>rs_node := (rs_node ?st)\<lparr>nd_now := nd_now nd + 1\<rparr>\<rparr>)"
    by (rule bridge_reaches.step [OF bridge_reaches.start])
  from bridge_wellformed [OF h s(1) n this]
  show "\<exists>st0 nd ds. new_stack (\<lambda>n. n) example_config 0 = Ok st0
     \<and> stack_connect uuid example_config (rs_node st0) = Ok (nd, ds)
     \<and> bridge_ok example_listener (st0\<lparr>rs_node := nd\<lparr>nd_now := nd_now nd + 1\<rparr>\<rparr>)"
    using s n by auto
qed

theorem started_peers_reachable_witness:
  "\<forall>uuid env. \<exists>st0 nd ds. new_stack (\<lambda>n. n) example_config 0 = Ok st0
     \<and> stack_connect uuid example_config (rs_node st0) = Ok (nd, ds)
     \<and> fst (get_connections_for_request env 5 (nd_mgr nd) example_request) = Ok [Leaf 0]"
proof (intro allI)
  fix uuid env
  obtain st0 where s: "new_stack (\<lambda>n. n) example_config 0 = Ok st0" "cm_fresh (nd_mgr (rs_node st0)) = 0"
    using example_new_stack by blast
  obtain ds where d: "example_dial uuid = Ok ([Leaf 0], ds)"
    "dialled_entry uuid ds (Leaf 0) = (''a:1'', \<lparr>ce_conn = Leaf 0, ce_host = ''h'', ce_realm = ''x''\<rparr>)"
    using example_dialled by blast
  have q: "get_destination_host example_request = Some ''h''" "get_destination_realm example_request = Some ''x''"
    by code_simp+
  obtain nd hs where "stack_connect uuid example_config (rs_node st0) = Ok (nd, ds)"
    "fst (get_connections_for_request env 5 (nd_mgr nd) example_request) = Ok (map Leaf hs)" "mset hs = {#0#}"
    using started_peers_reachable [OF s(1), of uuid "[Leaf 0]" ds "[Leaf 0]" "''h''" "''x''" example_request env 5] d s(2) q
    by (auto simp: example_dial_def)
  then show "\<exists>st0 nd ds. new_stack (\<lambda>n. n) example_config 0 = Ok st0
     \<and> stack_connect uuid example_config (rs_node st0) = Ok (nd, ds)
     \<and> fst (get_connections_for_request env 5 (nd_mgr nd) example_request) = Ok [Leaf 0]"
    using s(1) by auto
qed

theorem default_timeouts_no_failover_witness:
  "\<exists>r env r'. send_request env example_request r = (Err TotalTimeout, r') \<and> r_attempts r' = r_attempts r + 1"
proof -
  obtain st0 where s: "new_stack (\<lambda>n. n) example_config 0 = Ok st0" using example_new_stack by blast
  let ?m = "cm_add_connection (nd_mgr (rs_node st0)) ''c1'' \<lparr>ce_conn = Leaf 1, ce_host = ''h'', ce_realm = ''x''\<rparr>"
  let ?r = "\<lparr>r_mgr = ?m, r_now = 0, r_attempts = 0\<rparr>"
  let ?s = "prepare_for_answer (answer_manager_new 0) 0 7 '''' ''me'' ''x''"
  let ?env = "example_env\<lparr>e_up := (\<lambda>_ _. True), e_wait_begins := (\<lambda>_. ?s), e_wait_ends := (\<lambda>_. ?s)\<rparr>"
  have q: "get_destination_host example_request = Some ''h''" "get_destination_realm example_request = Some ''x''"
    "c_hop_by_hop_id example_request = 7"
    by code_simp+
  have "cm_redirects ?m = redirect_caches_new 0"
    using new_stack_node(5) [OF s] by (simp add: cm_add_connection_def Let_def split: option.split)
  then have f: "fst (get_redirect (cm_redirects ?m) 0 example_request) = None" by (simp add: get_redirect_new)
  have k: "host_realm_leaves ?m (peer_key ''h'' ''x'') = {#1#}"
    using cm_add_connection_registry(2) [OF new_stack_node(2) [OF s], of "''c1''" "\<lparr>ce_conn = Leaf 1, ce_host = ''h'', ce_realm = ''x''\<rparr>"]
      new_stack_node(4) [OF s] by simp
  then obtain d where d: "cm_host_realm ?m (peer_key ''h'' ''x'') = Some d"
    by (auto simp: host_realm_leaves_def split: option.splits)
  obtain m1 where g: "get_connections_for_request ?env (r_now ?r) (r_mgr ?r) example_request = (Ok [Leaf 1], m1)"
    using offered_leaves [OF d q(1,2) f, of ?env] k
    by (cases "get_connections_for_request ?env 0 ?m example_request") auto
  have "cm_total_timeout ?m = cm_total_timeout (nd_mgr (rs_node st0))"
    "cm_per_conn_timeout ?m = cm_per_conn_timeout (nd_mgr (rs_node st0))"
    by (simp_all add: cm_add_connection_def Let_def split: option.split)
  moreover have "wait_answer ?s ?s 7 = None" by code_simp
  moreover have "mono (\<lambda>n :: nat. n)" by (rule monoI)
  ultimately show ?thesis
    using default_timeouts_no_failover [OF s, of ?r ?env example_request "Leaf 1" "[]" m1 1] g q(3)
    by (fastforce simp: example_config_def)
qed

theorem tls_peer_never_dialled_witness:
  "\<forall>uuid p. \<exists>c st'. connect_peers example_config uuid
      [\<lparr>pc_host = ''h@x'', pc_connection_url = ''tcp://a:1'', pc_cert_file = Some ''crt'', pc_key_file = Some ''key'',
        pc_ca_cert_file = None, pc_extra = Map.empty\<rparr>]
      \<lparr>ds_fresh = 0, ds_clients = Map.empty, ds_names = Map.empty\<rparr> = Ok ([Leaf 0], st')
    \<and> ds_clients st' 0 = Some c
    \<and> client_step (example_site p) c '''' Connected
        (tc_start example_files (example_tls\<lparr>tl_certs := (\<lambda>pem. if pem = ''key'' then [] else [Some pem])\<rparr>) c example_node 0)
      = None"
proof (intro allI)
  fix uuid p
  let ?peer = "\<lparr>pc_host = ''h@x'', pc_connection_url = ''tcp://a:1'', pc_cert_file = Some ''crt'',
      pc_key_file = Some ''key'', pc_ca_cert_file = None, pc_extra = Map.empty\<rparr>"
  let ?lib = "example_tls\<lparr>tl_certs := (\<lambda>pem. if pem = ''key'' then [] else [Some pem])\<rparr>"
  let ?st = "\<lparr>ds_fresh = 0, ds_clients = Map.empty, ds_names = Map.empty\<rparr>"
  have "str_to_lowercase ''tcp'' = ''tcp''" "\<not> no_file example_files ''crt''" "\<not> no_file example_files ''key''"
    "f_read example_files ''crt'' = Some ''crt''" "f_read example_files ''key'' = Some ''key''"
    "parsed_certs ?lib ''key'' = []"
    by code_simp+
  then obtain c st' where c: "connect_peers example_config uuid [?peer] ?st = Ok ([Leaf 0], st')" "ds_clients st' 0 = Some c"
    "\<And>s nd g l. client_reaches s c (tc_start example_files ?lib c nd g) l \<Longrightarrow> \<forall>why ev. client_step s c why ev l = None"
    using tls_peer_never_dialled [of ?peer _ "''crt''" "''key''" example_files "''crt''" "''key''" ?lib example_config uuid
        ?st] example_url
    by auto
  show "\<exists>c st'. connect_peers example_config uuid [?peer] ?st = Ok ([Leaf 0], st') \<and> ds_clients st' 0 = Some c
    \<and> client_step (example_site p) c '''' Connected (tc_start example_files ?lib c example_node 0) = None"
    using c(1,2) c(3) [OF client_reaches.start] by blast
qed

end
