(* ===== verification/Program.thy ===== *)
theory Program
  imports Stack
begin

text \<open>
  The program as a whole: the REST server of a listener (\<open>HttpRestListener::start\<close>), one stack
  (\<open>DiameterStack::start\<close>), the loggers, the metrics registry and \<open>main\<close>.

  The router and the server library of the REST listener, the logging libraries and the registry are
  parameters. A call that hands control to a library for good (serving a socket) ends the model of it.
\<close>

section \<open>HttpRestListener::start\<close>

datatype http_method = PostMethod | GetMethod

datatype rest_handler = DiameterRequest | GetAlarms | GetAlarmById | Metrics

type_synonym rest_route = "string \<times> http_method \<times> rest_handler"

definition rest_routes :: "string \<Rightarrow> string option \<Rightarrow> rest_route list" where
  "rest_routes path alarm_rest_path =
     [(path, PostMethod, DiameterRequest)]
     @ (case alarm_rest_path of
          None \<Rightarrow> []
        | Some alarm_path \<Rightarrow>
            [(alarm_path, GetMethod, GetAlarms), (alarm_path @ ''/{alarm_id}'', GetMethod, GetAlarmById)])
     @ [(''/metrics'', GetMethod, Metrics)]"

datatype rest_error = InvalidRestAddress string | RestBindFailed string

text \<open>\<open>Router::route\<close> panics on a route it does not take; \<open>takes\<close> is its judgement,
  given the routes it has.\<close>

fun add_routes :: "(rest_route list \<Rightarrow> rest_route \<Rightarrow> bool) \<Rightarrow> rest_route list \<Rightarrow> rest_route list \<Rightarrow> (rest_error, rest_route list) outcome" where
  "add_routes takes app [] = Ok app"
| "add_routes takes app (r # rs) = (if takes app r then add_routes takes (app @ [r]) rs else Panic)"

record ('a, 'c, 'k) rest_server =
  rsv_routes :: "rest_route list"
  rsv_address :: 'a
  rsv_tls :: "('c, 'k) server_config option"

definition rest_start ::
  "files \<Rightarrow> ('c, 'k) tls_library \<Rightarrow> (rest_route list \<Rightarrow> rest_route \<Rightarrow> bool) \<Rightarrow> (string \<Rightarrow> 'a option) \<Rightarrow> ('a \<Rightarrow> bool) \<Rightarrow> rest_spec
   \<Rightarrow> (rest_error, ('a, 'c, 'k) rest_server) outcome" where
  "rest_start fs lib takes parse_addr binds rsp =
     bind_ok (add_routes takes [] (rest_routes (rsp_path rsp) (Some (rsp_alarm_path rsp)))) (\<lambda>app.
       case parse_addr (rsp_address rsp) of
         None \<Rightarrow> Err (InvalidRestAddress (rsp_address rsp))
       | Some addr \<Rightarrow>
           (if binds addr then
              Ok \<lparr>rsv_routes = app, rsv_address = addr,
                  rsv_tls = rest_server_config fs lib (rsp_cert_file rsp) (rsp_key_file rsp) (rsp_ca_cert_file rsp)\<rparr>
            else Err (RestBindFailed (rsp_address rsp))))"

section \<open>DiameterStack::start\<close>

text \<open>The listeners run in tasks of their own, so they are there even when a peer expression makes
  the task of the stack panic.\<close>

record started_stack =
  sk_command_map :: command_map
  sk_avp_map :: avp_map
  sk_processors :: "request_processor list"
  sk_servers :: "server_spec list"
  sk_rest :: "rest_spec list"
  sk_peers :: "(unit, node \<times> dial_store) outcome"

definition stack_start ::
  "files \<Rightarrow> (string \<Rightarrow> yaml option) \<Rightarrow> (yaml \<Rightarrow> (string, command_json) outcome) \<Rightarrow> (nat \<Rightarrow> nat \<Rightarrow> string)
   \<Rightarrow> stack_config \<Rightarrow> rest_state \<Rightarrow> started_stack" where
  "stack_start fs parse from_value uuid cfg st =
     \<lparr>sk_command_map = load_command_definitions fs parse from_value (sc_command_files cfg),
      sk_avp_map = load_avp_definitions fs parse (sc_avp_files cfg),
      sk_processors = create_request_processors cfg,
      sk_servers = start_listeners cfg, sk_rest = start_rest_listeners cfg,
      sk_peers = stack_connect uuid cfg (rs_node st)\<rparr>"

section \<open>Loggers\<close>

text \<open>
  The \<open>log\<close> crate has one logger, which can be set once. \<open>gl_subscriber_sets_log\<close> says
  whether \<open>init\<close> of the subscriber sets it (feature \<open>tracing-log\<close> of the crate, one of its
  default features).
\<close>

record ('f, 'l) log_library =
  gl_env_filter :: "string \<Rightarrow> 'f option"
  gl_info_filter :: 'f
  gl_level :: "string \<Rightarrow> 'l option"
  gl_info_level :: 'l
  gl_create_file :: "string \<Rightarrow> bool"
  gl_subscriber_sets_log :: bool

datatype ('f, 'l) logger = JsonLogger 'f "string option" | TextLogger 'l "string option"

definition or_else :: "'a option \<Rightarrow> 'a \<Rightarrow> 'a" where
  "or_else x d = (case x of Some v \<Rightarrow> v | None \<Rightarrow> d)"

text \<open>A log file is created before the logger is set; \<open>unwrap\<close> panics when it cannot be.\<close>

definition log_file_ok :: "('f, 'l) log_library \<Rightarrow> string option \<Rightarrow> bool" where
  "log_file_ok gl filename = (case filename of None \<Rightarrow> True | Some f \<Rightarrow> gl_create_file gl f)"

definition set_log :: "bool \<Rightarrow> (unit, bool) outcome" where
  "set_log was_set = (if was_set then Panic else Ok True)"

definition init_logger ::
  "('f, 'l) log_library \<Rightarrow> string option \<Rightarrow> string option \<Rightarrow> string option \<Rightarrow> bool
   \<Rightarrow> (unit, ('f, 'l) logger \<times> bool) outcome" where
  "init_logger gl filename log_level log_format was_set =
     (let format = or_else log_format ''text''; level = or_else log_level ''info'' in
      if \<not> log_file_ok gl filename then Panic
      else if str_to_lowercase format = ''json'' then
        bind_ok (if gl_subscriber_sets_log gl then set_log was_set else Ok was_set) (\<lambda>now_set.
        bind_ok (set_log now_set) (\<lambda>now_set.
          Ok (JsonLogger (or_else (gl_env_filter gl level) (gl_info_filter gl)) filename, now_set)))
      else
        bind_ok (set_log was_set) (\<lambda>now_set.
          Ok (TextLogger (or_else (gl_level gl level) (gl_info_level gl)) filename, now_set)))"

section \<open>Metrics\<close>

text \<open>The counters of the registry by name; \<open>unwrap\<close> panics when the registry refuses one.\<close>

definition metric_names :: "string list" where
  "metric_names =
     [''diameter_requests_received_total'', ''diameter_responses_received_total'', ''diameter_retried_requests_total'',
      ''diameter_restful_requests_total'', ''diameter_processed_requests_total'']"

fun register_each :: "(string list \<Rightarrow> string \<Rightarrow> bool) \<Rightarrow> string list \<Rightarrow> string list \<Rightarrow> (unit, string list) outcome" where
  "register_each takes reg [] = Ok reg"
| "register_each takes reg (n # ns) = (if takes reg n then register_each takes (reg @ [n]) ns else Panic)"

definition register_metrics :: "(string list \<Rightarrow> string \<Rightarrow> bool) \<Rightarrow> (unit, string list) outcome" where
  "register_metrics takes = register_each takes [] metric_names"

section \<open>main\<close>

record program_args =
  pa_log_file :: "string option"
  pa_log_level :: "string option"
  pa_log_format :: "string option"

text \<open>Every configuration that loads is a stack in a task of its own.\<close>

definition run_stack ::
  "files \<Rightarrow> (string \<Rightarrow> yaml option) \<Rightarrow> (yaml \<Rightarrow> (string, command_json) outcome) \<Rightarrow> (nat \<Rightarrow> nat \<Rightarrow> string)
   \<Rightarrow> (nat \<Rightarrow> nat) \<Rightarrow> instant \<Rightarrow> stack_config \<Rightarrow> (unit, started_stack) outcome" where
  "run_stack fs parse from_value uuid ticks now cfg =
     map_ok (stack_start fs parse from_value uuid cfg) (new_stack ticks cfg now)"

definition main_program ::
  "('f, 'l) log_library \<Rightarrow> (string list \<Rightarrow> string \<Rightarrow> bool) \<Rightarrow> (string \<Rightarrow> yaml option) \<Rightarrow> (yaml \<Rightarrow> stack_config option)
   \<Rightarrow> (stack_config \<Rightarrow> (unit, started_stack) outcome) \<Rightarrow> program_args \<Rightarrow> string option
   \<Rightarrow> (unit, (unit, started_stack) outcome list) outcome" where
  "main_program gl takes parse decode run args contents =
     bind_ok (init_logger gl (pa_log_file args) (pa_log_level args) (pa_log_format args) False) (\<lambda>_.
     bind_ok (register_metrics takes) (\<lambda>_.
       Ok (case load_stack_configs parse decode contents of
             Inl e \<Rightarrow> []
           | Inr configs \<Rightarrow> map run configs)))"

section \<open>Properties\<close>

lemma add_routes_Ok: "add_routes takes app rs = Ok app' \<Longrightarrow> app' = app @ rs"
  by (induction takes app rs rule: add_routes.induct) (auto split: if_splits)

lemma add_routes_prefix:
  "add_routes takes app (rs @ r # rs') = Ok app' \<Longrightarrow> takes (app @ rs) r"
proof (induction rs arbitrary: app)
  case (Cons q rs)
  then show ?case
    using Cons.IH [of "app @ [q]"] by (simp split: if_splits)
qed (simp split: if_splits)

lemma add_routes_not_Err: "add_routes takes app rs \<noteq> Err e"
  by (induction takes app rs rule: add_routes.induct) auto

lemma add_routes_True: "add_routes (\<lambda>_ _. True) app rs = Ok (app @ rs)"
  by (induction rs arbitrary: app) simp_all

text \<open>
  What a REST listener that starts serves: the request handler under its path, the two alarm pages and the
  metrics. The router refuses a path that does not begin with a slash, and a second handler for a path and
  method; so with \<open>path: diameter\<close>, or alarms under \<open>/metrics\<close>, the task of the
  listener panics and there is no REST interface.
\<close>

theorem rest_routes_served:
  assumes slash: "\<And>app p m h. takes app (p, m, h) \<Longrightarrow> \<exists>q. p = CHR ''/'' # q"
    and distinct: "\<And>app p m h h'. takes app (p, m, h) \<Longrightarrow> (p, m, h') \<notin> set app"
  shows "(rest_start fs lib takes parse_addr binds rsp = Ok sv \<longrightarrow>
            rsv_routes sv = rest_routes (rsp_path rsp) (Some (rsp_alarm_path rsp))
            \<and> parse_addr (rsp_address rsp) = Some (rsv_address sv) \<and> rsp_alarm_path rsp \<noteq> ''/metrics'')
       \<and> ((\<forall>q. rsp_path rsp \<noteq> CHR ''/'' # q) \<or> rsp_alarm_path rsp = ''/metrics'' \<longrightarrow>
            rest_start fs lib takes parse_addr binds rsp = Panic)"
proof -
  let ?rs = "rest_routes (rsp_path rsp) (Some (rsp_alarm_path rsp))"
  define built :: "(rest_error, rest_route list) outcome" where "built = add_routes takes [] ?rs"
  have start: "rest_start fs lib takes parse_addr binds rsp = (case built of Ok app \<Rightarrow>
      rest_start fs lib (\<lambda>_ _. True) parse_addr binds rsp | _ \<Rightarrow> Panic)"
    using add_routes_Ok [of takes "[]" ?rs] add_routes_not_Err [of takes "[]" ?rs] add_routes_True [of "[]" ?rs]
    by (cases built) (auto simp: rest_start_def built_def)
  have paths: "rsp_alarm_path rsp \<noteq> ''/metrics'' \<and> (\<exists>q. rsp_path rsp = CHR ''/'' # q)" if "built = Ok app" for app
  proof
    have "takes (butlast ?rs) (''/metrics'', GetMethod, Metrics)"
      using that add_routes_prefix [of takes "[]" "butlast ?rs" _ "[]" app] by (simp add: rest_routes_def built_def)
    from distinct [OF this, of GetAlarms] show "rsp_alarm_path rsp \<noteq> ''/metrics''"
      by (auto simp: rest_routes_def)
    have "takes [] (hd ?rs)"
      using that add_routes_prefix [of takes "[]" "[]" "hd ?rs" "tl ?rs" app] by (simp add: rest_routes_def built_def)
    then show "\<exists>q. rsp_path rsp = CHR ''/'' # q"
      using slash by (simp add: rest_routes_def)
  qed
  show ?thesis
    using start paths
    by (cases built) (auto simp: rest_start_def add_routes_True split: option.splits if_splits)
qed

lemma register_metrics_Ok:
  assumes "\<And>reg n. takes reg n \<longleftrightarrow> n \<notin> set reg"
  shows "register_metrics takes = Ok metric_names"
  by (simp add: register_metrics_def metric_names_def assms)

lemma init_logger_Ok:
  "(\<exists>r. init_logger gl file level format False = Ok r)
   \<longleftrightarrow> log_file_ok gl file \<and> \<not> (gl_subscriber_sets_log gl \<and> str_to_lowercase (or_else format ''text'') = ''json'')"
  by (auto simp: init_logger_def set_log_def Let_def)

lemma init_logger_not_Err: "init_logger gl file level format was_set \<noteq> Err e"
  by (auto simp: init_logger_def set_log_def Let_def split: if_splits)

text \<open>C40. The program gets as far as its configuration exactly when its log file can be created and, where
  the subscriber sets the global logger, the log format is not JSON; then every stack that decodes is started
  on its own, and otherwise the program aborts. So \<open>--log-format json\<close>, with the default features of
  the logging library, always aborts: the logger is set twice.\<close>

theorem program_starts:
  assumes registry: "\<And>reg n. takes reg n \<longleftrightarrow> n \<notin> set reg"
  shows "main_program gl takes parse decode run args contents =
    (if log_file_ok gl (pa_log_file args)
        \<and> \<not> (gl_subscriber_sets_log gl \<and> str_to_lowercase (or_else (pa_log_format args) ''text'') = ''json'')
     then Ok (case load_stack_configs parse decode contents of Inl e \<Rightarrow> [] | Inr cfgs \<Rightarrow> map run cfgs)
     else Panic)"
  using init_logger_Ok [of gl "pa_log_file args" "pa_log_level args" "pa_log_format args"]
    init_logger_not_Err [of gl "pa_log_file args" "pa_log_level args" "pa_log_format args" False]
    register_metrics_Ok [OF registry]
  by (cases "init_logger gl (pa_log_file args) (pa_log_level args) (pa_log_format args) False")
    (auto simp: main_program_def)

definition example_log_library :: "(string, string) log_library" where
  "example_log_library =
     \<lparr>gl_env_filter = Some, gl_info_filter = ''info'', gl_level = Some, gl_info_level = ''info'',
      gl_create_file = (\<lambda>f. f = ''bridge.log''), gl_subscriber_sets_log = True\<rparr>"

theorem program_starts_witness:
  "(let takes = (\<lambda>reg n. n \<notin> set reg);
        contents = (\<lambda>s. Some (YMapping [(YString ''stacks'', YSequence [])])) in
    main_program example_log_library takes contents (\<lambda>_. None) (\<lambda>_. Panic)
      \<lparr>pa_log_file = Some ''bridge.log'', pa_log_level = None, pa_log_format = None\<rparr> (Some ''x'') = Ok []
    \<and> main_program example_log_library takes contents (\<lambda>_. None) (\<lambda>_. Panic)
      \<lparr>pa_log_file = None, pa_log_level = None, pa_log_format = Some ''JSON''\<rparr> (Some ''x'') = Panic)"
proof -
  have "str_to_lowercase ''text'' = ''text''" "str_to_lowercase ''JSON'' = ''json''"
    by code_simp+
  then show ?thesis
    unfolding Let_def
    by (subst (1 2) program_starts)
      (simp_all add: example_log_library_def log_file_ok_def or_else_def load_stack_configs_def map_filter_def)
qed

end
