(* ===== verification/Spec2Isabelle.thy ===== *)
theory Spec2Isabelle
  imports Prelude Diameter_Codes Avp_Codec Command_Codec Json Avp_Dict Command_Json Pending_Tables
    Redirect_Cache Connections Config Strategy Routing Request_Handler Connection_Manager
    Manager_Locks Command_Processor Peer_Messages Peer_Link Server_Link Tcp_Transport
    Sctp_Transport Sctp_Socket Alarm Container_Close File_Monitor Tls_Files Listeners Rest_Listener Stack Bridge Program
begin

text \<open>
  \<^bold>\<open>The program.\<close> The bridge is a Diameter node (RFC 6733) with a REST side. HTTP clients post
  Diameter requests as JSON; the bridge turns a request into a Diameter command, sends it to a peer over TCP
  or SCTP, and returns the answer as JSON, in the reply or to a callback URL. Requests from peers are answered
  by an HTTP back end, when they are for this node, or forwarded to another peer, and answers go back the way
  their requests came. Connections are dialled from the configuration, where an expression such as
  \<open>rr(tcp://a:1;fo(tcp://b:1;tcp://c:1))\<close> asks for a tree of load-balancing containers, or accepted by
  listeners. Lost peers raise alarms, which are kept in a database, posted to a manager and served over REST.

  \<^bold>\<open>From source to theory.\<close> All files are under \<open>src/src\<close>.

  \<^item> \<open>Prelude\<close>: machine integers, outcomes, big-endian numbers, strings and decimal numbers, with the
    lemma collections the codecs use.
  \<^item> \<open>Diameter_Codes\<close>: the enumerations of \<open>avp.rs\<close> and \<open>command.rs\<close>.
  \<^item> \<open>Avp_Codec\<close> and \<open>Command_Codec\<close>: the wire format, the command buffer and
    \<open>read_command\<close> (\<open>avp.rs\<close>, \<open>command.rs\<close>, \<open>transport/command_handler.rs\<close>).
  \<^item> \<open>Json\<close>, \<open>Avp_Dict\<close>, \<open>Command_Json\<close>: the values of the JSON and YAML crates, the two
    dictionaries with their loaders, and commands as JSON.
  \<^item> \<open>Pending_Tables\<close>: \<open>transport/id_generator.rs\<close>, \<open>hop_by_hop_id_mapper.rs\<close> and
    \<open>answer_manager.rs\<close>; \<open>Redirect_Cache\<close>: \<open>transport/redirect_host_manager.rs\<close>.
  \<^item> \<open>Connections\<close> and \<open>Container_Close\<close>: the containers (\<open>connection_list.rs\<close>,
    \<open>roundrobin_connection.rs\<close>, \<open>failover_connect.rs\<close>, \<open>random_connection.rs\<close>,
    \<open>dummy_connection.rs\<close>) as trees over the handles of the leaf connections.
  \<^item> \<open>Config\<close>: \<open>config.rs\<close>; \<open>Strategy\<close>: route expressions, listen addresses and the
    dialling of peers (\<open>stack.rs\<close>); \<open>Routing\<close>: \<open>transport/routing_connection.rs\<close>.
  \<^item> \<open>Connection_Manager\<close> and \<open>Manager_Locks\<close>: \<open>transport/connection_manager.rs\<close>, as
    operations on its registry and as sequences of lock operations.
  \<^item> \<open>Request_Handler\<close>: \<open>transport/command_handler.rs\<close>; \<open>Command_Processor\<close>:
    \<open>transport/command_processor.rs\<close>.
  \<^item> \<open>Peer_Messages\<close> (\<open>utils.rs\<close> and the base-protocol messages of both transports),
    \<open>Peer_Link\<close>, \<open>Server_Link\<close>, \<open>Tcp_Transport\<close>, \<open>Sctp_Transport\<close>: the
    connections as state machines over what a socket gives; \<open>Sctp_Socket\<close>: the wrapper of the SCTP
    library; \<open>Tls_Files\<close>: which files lead to which encryption; \<open>Listeners\<close>: the accept loops.
  \<^item> \<open>Alarm\<close>: \<open>alarm.rs\<close>; \<open>Rest_Listener\<close>: \<open>http_rest_listener.rs\<close>;
    \<open>File_Monitor\<close>: \<open>filechange_monitor.rs\<close>.
  \<^item> \<open>Stack\<close>, \<open>Bridge\<close>, \<open>Program\<close>: the start-up of a stack, the running bridge as one
    transition system, and the start of REST server, loggers, metrics and stacks
    (\<open>stack.rs\<close>, \<open>main.rs\<close>, \<open>metrics.rs\<close>).

  \<^bold>\<open>How the parts interact in the model.\<close> The objects the source shares through \<open>Arc\<close>
  (connection manager, identifier generator, mapper, answer manager, redirect cache, counters) are the fields of
  one record \<open>node\<close>; \<open>rest_state\<close> adds what belongs to the REST side. An operation takes the
  state and returns it, in the order in which the code calls. A mutex that is held for one operation is an
  atomic step; where the order of mutexes matters (\<open>Manager_Locks\<close>, the race in \<open>Alarm\<close>)
  the steps are the acquisitions. A connection is a handle; a container is a tree whose leaves are handles.
  While \<open>send_request\<close> waits, other tasks run: the answer table before and after each wait is a
  parameter of the operation, as are the clock and the outcome of each attempt.

  \<^bold>\<open>Conventions.\<close> A function that returns \<open>Result\<close> gives an \<open>outcome\<close>: \<open>Ok\<close>,
  \<open>Err\<close>, or \<open>Panic\<close> for a failed \<open>unwrap\<close>, an index out of range or a capacity overflow.
  Fixed-width integers are words and wrap, as in the release profile. A Rust string is its UTF-8 bytes as a
  \<open>string\<close>, \<open>rust_string\<close> says that they are well formed. Times are natural numbers; timeouts in
  milliseconds are put on that clock by a parameter \<open>ticks\<close>. Logging is left out but for arguments
  that can panic: where the logger takes messages of level info (\<open>log_info\<close>), a request of the REST
  side is rendered before it is sent, and an answer of the handler before it is returned and sent. Commands
  read from a peer always render (\<open>received_command_to_json\<close>); those a connection builds itself would not
  only with a dictionary whose names and codes disagree on what is grouped, which is not modelled.
  Hash maps whose order shows take the order from a parameter.

  \<^bold>\<open>Parameters.\<close> Code that is not part of the repository enters as arguments: \<open>platform\<close>
  (number and address formatting), \<open>env\<close> (sockets and clock during a request), \<open>o_http\<close> and
  \<open>o_parse\<close> (HTTP client and JSON parser), \<open>si_io\<close> (writes), the file system and the TLS
  libraries (\<open>files\<close>, \<open>tls_library\<close>), the SCTP library, the YAML parser and the derived
  decoders, the router, the loggers and the metrics registry. What a theorem needs of one is a hypothesis of the
  theorem, and its witness instantiates it.

  \<^bold>\<open>Loops.\<close> There is no fuel. Every loop that ends is a total function with a termination proof: the
  decoders on the bytes that are left, the iterators on the size of the containers that are not opened yet, the
  route parsers on the length of the text, the retry loops on the connections that are left. Loops that do not
  end (the connection tasks, the accept loops, the bridge) are step functions or relations, and what they do is
  stated over reachable states.

  \<^bold>\<open>Interfaces.\<close> The locales state what a client relies on once and are interpreted on the model:
  \<open>framed_stream\<close> (a decoder whose input can be cut anywhere) on the command buffer; \<open>scalar_avp\<close>
  and \<open>header_avp\<close> on the typed accessors; \<open>ordered_map\<close> on JSON objects; \<open>last_wins_index\<close>
  on the dictionary lookups; \<open>scanned_field\<close> on the members of a JSON command; \<open>ttl_table\<close> on the
  two tables of pending requests; \<open>child_order\<close> on the eager and the lazy traversal of a container;
  \<open>command_sender\<close> and \<open>server_transport\<close> on both transports.

  \<^bold>\<open>What is shown.\<close>

  \<^item> Codecs: encoding and decoding are inverse for AVPs, commands and their JSON, decoding never reads past
    its input, commands come out of the buffer whatever way the stream is cut, and the frames that block or
    panic the reader.
  \<^item> State: the pending tables find an entry until its deadline and the redirect cache refines its
    specification; every reachable state of the bridge is well formed.
  \<^item> Sending: a container reaches a peer that is up; the connection manager tries the connections in their
    order within the total time; a command is offered to exactly the connected peers its route names; the connections of the
    configuration are those that a request is offered to.
  \<^item> Protocol: the capabilities exchange comes first and completes, a served connection is registered exactly
    while it is served, looped, undeliverable and local requests are answered, each once and under their identifiers, a forwarded answer returns to
    its requester under the identifier it knows.
  \<^item> REST: when a request is refused, that an accepted one is answered with the JSON of its Diameter answer,
    and that the callback carries the same.
  \<^item> Configuration: an expression denotes the tree it prints, addresses round-trip, mutual TLS is enforced
    exactly with a CA file, when the program starts.
  \<^item> Alarms: memory and database agree after a restart.
  \<^item> Concurrency: the operations of the connection manager never deadlock on its mutexes, however they are
    scheduled.
  \<^item> Where the code does not do what it means to, the theorem states what it does: exchanged TLS files of a
    single peer, listeners that one socket blocks or ends, the fallback to plain HTTP, JSON logging, default
    timeouts without fail-over, removal of whole groups, the second answer.

  \<^bold>\<open>Not modelled.\<close> The rendering of metrics, the serving of sockets and the matching of routes,
  argument parsing and the logging back ends are calls of libraries. The \<open>Display\<close> instances only
  print. Handshakes of TLS and DTLS are a yes or no of the library, and how
  the SCTP library cuts a message into receive calls is left open. Threads of the runtime are not scheduled:
  tasks interleave at the steps named above.

  \<^bold>\<open>Plan.\<close> Left for later: the interleaving of several REST requests that wait at the same time, as
  steps of the bridge instead of a parameter; alarms as part of the state of the bridge; a simulation between
  the bridge and an abstract request-reply specification.
\<close>

end
